(* ===== verification/Prelude.thy ===== *)
theory Prelude
  imports "HOL-Library.Word" "HOL-Library.List_Lexorder" "HOL-Library.Char_ord"
begin

text \<open>
  Shared vocabulary of the development: the exceptions of libbash as values, the result and
  action types with which every fallible or stateful C++ function is written, the third-party
  string services (Boost) as a record of functions, and the generic lemmas on them.

  C++ integers: \<open>unsigned\<close> array indices are \<open>32 word\<close>, \<open>long\<close> values are \<open>64 word\<close>
  (read by \<open>sint\<close>), container sizes are \<open>nat\<close>, and an \<open>int\<close> that the code only compares or
  passes on is an \<open>int\<close>. A \<open>std::string\<close> is a char list; \<open>std::string\<close> comparison is the
  lexicographic order of HOL-Library.List_Lexorder over the byte order of HOL-Library.Char_ord.
\<close>

named_theorems act_simps \<open>evaluation of actions and results\<close>

type_synonym uint = "32 word"
type_synonym c_long = "64 word"

section \<open>Exceptions\<close>

text \<open>
  One constructor per exception class the code throws: the hierarchy of include/ (every class
  up to \<open>Divide_by_zero_error\<close> derives from \<open>interpreter_exception\<close>), the control-flow
  exceptions of the builtins, and those of Boost and the standard library that the code lets
  through.
  \<open>Assertion_failed\<close> is a failed \<open>assert\<close>; \<open>Undefined_behaviour\<close> marks an operation whose
  effect C++ leaves undefined (a null pointer dereference, a read past the end of a vector).
  \<open>Out_of_fuel\<close> is no exception of the code: it is what the tree walker of the model returns when
  its bound on nested scripts and loop iterations is used up, and no handler catches it.
\<close>

datatype exn =
    Interpreter_exception string
  | Illegal_argument_exception string
  | Parse_exception string
  | Readonly_exception string
  | Runtime_exception string
  | Unsupported_exception string
  | Divide_by_zero_error string
  | Return_exception
  | Break_exception int
  | Continue_exception int
  | Suppress_output
  | Bad_lexical_cast
  | Bad_numeric_cast
  | Bad_function_call
  | Format_error
  | Regex_error
  | Out_of_range
  | Assertion_failed
  | Undefined_behaviour string
  | Out_of_fuel

section \<open>Results and actions\<close>

type_synonym 'r res = "exn + 'r"
type_synonym ('s, 'r) act = "'s \<Rightarrow> 'r res \<times> 's"

text \<open>
  A const member function that may throw is a function to \<open>'r res\<close>; a member function that
  changes the state is an action: it returns the result and the state the throw or the return
  leaves behind, since what was changed before a throw stays changed.
\<close>

definition bind_res :: "'a res \<Rightarrow> ('a \<Rightarrow> 'b res) \<Rightarrow> 'b res" where
  "bind_res r f = (case r of Inl e \<Rightarrow> Inl e | Inr x \<Rightarrow> f x)"

definition ret :: "'r \<Rightarrow> ('s, 'r) act" where
  "ret x s = (Inr x, s)"

definition throw :: "exn \<Rightarrow> ('s, 'r) act" where
  "throw e s = (Inl e, s)"

definition query :: "('s \<Rightarrow> 'r res) \<Rightarrow> ('s, 'r) act" where
  "query q s = (q s, s)"

definition modify :: "('s \<Rightarrow> 's) \<Rightarrow> ('s, unit) act" where
  "modify f s = (Inr (), f s)"

definition andthen :: "('s, 'a) act \<Rightarrow> ('a \<Rightarrow> ('s, 'b) act) \<Rightarrow> ('s, 'b) act" where
  "andthen m f s = (case m s of (Inl e, t) \<Rightarrow> (Inl e, t) | (Inr x, t) \<Rightarrow> f x t)"

definition finally_do :: "('s, 'a) act \<Rightarrow> ('s \<Rightarrow> 's) \<Rightarrow> ('s, 'a) act" where
  \<comment> \<open>a destructor: \<open>cleanup\<close> runs when the block is left, by a return or by a throw\<close>
  "finally_do m cleanup s = (case m s of (r, t) \<Rightarrow> (r, cleanup t))"

fun for_each :: "'x list \<Rightarrow> ('x \<Rightarrow> ('s, unit) act) \<Rightarrow> ('s, unit) act" where
  "for_each [] f = ret ()"
| "for_each (x # xs) f = andthen (f x) (\<lambda>_. for_each xs f)"

lemma bind_res_simps [simp, act_simps]:
  "bind_res (Inl e) f = Inl e" "bind_res (Inr x) f = f x"
  by (simp_all add: bind_res_def)

lemma bind_res_Inr_iff [simp]:
  "bind_res r f = Inr y \<longleftrightarrow> (\<exists>x. r = Inr x \<and> f x = Inr y)"
  by (cases r) auto

lemma bind_res_Inl_iff [simp]:
  "bind_res r f = Inl e \<longleftrightarrow> r = Inl e \<or> (\<exists>x. r = Inr x \<and> f x = Inl e)"
  by (cases r) auto

lemma ret_app [simp, act_simps]: "ret x s = (Inr x, s)"
  by (simp add: ret_def)

lemma throw_app [simp, act_simps]: "throw e s = (Inl e, s)"
  by (simp add: throw_def)

lemma query_app [simp, act_simps]: "query q s = (q s, s)"
  by (simp add: query_def)

lemma modify_app [simp, act_simps]: "modify f s = (Inr (), f s)"
  by (simp add: modify_def)

lemma andthen_app:
  "andthen m f s = (case fst (m s) of Inl e \<Rightarrow> (Inl e, snd (m s)) | Inr x \<Rightarrow> f x (snd (m s)))"
  by (simp add: andthen_def split: prod.splits sum.splits)

lemma andthen_Inr [simp, act_simps]: "m s = (Inr x, t) \<Longrightarrow> andthen m f s = f x t"
  by (simp add: andthen_def)

lemma andthen_Inl [simp, act_simps]: "m s = (Inl e, t) \<Longrightarrow> andthen m f s = (Inl e, t)"
  by (simp add: andthen_def)

lemma finally_do_app [simp, act_simps]:
  "finally_do m c s = (fst (m s), c (snd (m s)))"
  by (simp add: finally_do_def split: prod.splits)

lemma andthen_assoc: "andthen (andthen m f) g = andthen m (\<lambda>x. andthen (f x) g)"
  by (simp add: fun_eq_iff andthen_def split: prod.split sum.split)

lemma andthen_unit_ret: "andthen m (\<lambda>_ :: unit. ret ()) = m"
  by (simp add: fun_eq_iff andthen_def split: prod.split sum.split)

lemma for_each_append:
  "for_each (xs @ ys) f = andthen (for_each xs f) (\<lambda>_. for_each ys f)"
  by (induction xs) (auto simp: fun_eq_iff andthen_def ret_def split: prod.splits sum.splits)

text \<open>
  An invariant of the state that an action keeps, whatever its outcome. The rules compose the
  preservation lemmas of the operations along the structure of an action.
\<close>

definition keeps :: "('s \<Rightarrow> bool) \<Rightarrow> ('s, 'r) act \<Rightarrow> bool" where
  "keeps I m \<longleftrightarrow> (\<forall>s. I s \<longrightarrow> I (snd (m s)))"

named_theorems keeps_intros \<open>structural rules and facts of invariant preservation\<close>

lemma keepsD: "keeps I m \<Longrightarrow> I s \<Longrightarrow> I (snd (m s))"
  by (simp add: keeps_def)

lemma keeps_ret [keeps_intros]: "keeps I (ret x)"
  by (simp add: keeps_def)

lemma keeps_throw [keeps_intros]: "keeps I (throw e)"
  by (simp add: keeps_def)

lemma keeps_query [keeps_intros]: "keeps I (query q)"
  by (simp add: keeps_def)

lemma keeps_modify [keeps_intros]: "(\<And>s. I s \<Longrightarrow> I (f s)) \<Longrightarrow> keeps I (modify f)"
  by (simp add: keeps_def)

lemma keeps_andthen [keeps_intros]:
  "keeps I m \<Longrightarrow> (\<And>x. keeps I (f x)) \<Longrightarrow> keeps I (andthen m f)"
  by (auto simp: keeps_def andthen_app split: sum.splits)

lemma keeps_finally [keeps_intros]:
  "keeps I m \<Longrightarrow> (\<And>s. I s \<Longrightarrow> I (c s)) \<Longrightarrow> keeps I (finally_do m c)"
  by (simp add: keeps_def)

lemma keeps_if [keeps_intros]:
  "(b \<Longrightarrow> keeps I m) \<Longrightarrow> (\<not> b \<Longrightarrow> keeps I n) \<Longrightarrow> keeps I (if b then m else n)"
  by simp

lemma keeps_for_each [keeps_intros]:
  "(\<And>x. keeps I (f x)) \<Longrightarrow> keeps I (for_each xs f)"
  by (induction xs) (auto intro: keeps_intros)

section \<open>Third-party string services\<close>

text \<open>
  The Boost functions the code calls on strings, as a record of functions: they are not part
  of the repository, so the model takes them as an argument \<open>B\<close>. \<open>None\<close> is a thrown
  \<open>boost::bad_lexical_cast\<close>.
  \<^item> \<open>lex_long\<close>, \<open>lex_int\<close>, \<open>lex_unsigned\<close>: \<open>boost::lexical_cast\<close> of a string;
    \<open>show_long\<close>, \<open>show_nat\<close>: \<open>boost::lexical_cast<std::string>\<close> of a long and of an unsigned;
  \<^item> \<open>join_with\<close>: \<open>boost::algorithm::join\<close>;
  \<^item> \<open>trim_any\<close>, \<open>trim_right_any\<close>: \<open>boost::trim_if\<close>, \<open>boost::trim_right_if\<close> with
    \<open>boost::is_any_of\<close> the first argument;
  \<^item> \<open>split_any\<close>: \<open>boost::split\<close> at \<open>boost::is_any_of\<close> the first argument, with
    \<open>token_compress_on\<close> when the second is true;
  \<^item> \<open>erase_all\<close>: \<open>boost::algorithm::erase_all\<close>;
  \<^item> \<open>karma_list\<close>: what the Spirit generator \<open>karma::string % ' '\<close> prints.
\<close>

record boost =
  lex_long :: "string \<Rightarrow> c_long option"
  lex_int :: "string \<Rightarrow> int option"
  lex_unsigned :: "string \<Rightarrow> uint option"
  show_long :: "c_long \<Rightarrow> string"
  show_nat :: "nat \<Rightarrow> string"
  join_with :: "string list \<Rightarrow> string \<Rightarrow> string"
  trim_any :: "string \<Rightarrow> string \<Rightarrow> string"
  trim_right_any :: "string \<Rightarrow> string \<Rightarrow> string"
  split_any :: "string \<Rightarrow> bool \<Rightarrow> string \<Rightarrow> string list"
  erase_all :: "string \<Rightarrow> string \<Rightarrow> string"
  karma_list :: "string list \<Rightarrow> string"

text \<open>Their documented behaviour, each clause a predicate of its own so that a property
  assumes only what it needs.\<close>

definition lexical_cast_documented :: "boost \<Rightarrow> bool" where
  \<comment> \<open>what is printed is read back\<close>
  "lexical_cast_documented B \<longleftrightarrow> (\<forall>n. lex_long B (show_long B n) = Some n)"

definition join_documented :: "boost \<Rightarrow> bool" where
  "join_documented B \<longleftrightarrow>
     (\<forall>d. join_with B [] d = []) \<and> (\<forall>d x. join_with B [x] d = x) \<and>
     (\<forall>d x y zs. join_with B (x # y # zs) d = x @ d @ join_with B (y # zs) d)"

definition karma_documented :: "boost \<Rightarrow> bool" where
  \<comment> \<open>the list generator prints the elements with the separator between them\<close>
  "karma_documented B \<longleftrightarrow>
     (\<forall>x. karma_list B [x] = x) \<and>
     (\<forall>x y zs. karma_list B (x # y # zs) = x @ '' '' @ karma_list B (y # zs))"

definition trim_documented :: "boost \<Rightarrow> bool" where
  "trim_documented B \<longleftrightarrow>
     (\<forall>ds s. trim_right_any B ds s = rev (dropWhile (\<lambda>c. c \<in> set ds) (rev s))) \<and>
     (\<forall>ds s. trim_any B ds s = dropWhile (\<lambda>c. c \<in> set ds) (trim_right_any B ds s))"

definition split_documented :: "boost \<Rightarrow> bool" where
  \<comment> \<open>the token up to the first separator, then the split of what follows that separator, or
     that run of separators when tokens are compressed\<close>
  "split_documented B \<longleftrightarrow>
     (\<forall>ds c s. split_any B ds c s =
        (let rest = dropWhile (\<lambda>x. x \<notin> set ds) s
         in if rest = [] then [s]
            else takeWhile (\<lambda>x. x \<notin> set ds) s #
                 split_any B ds c (if c then dropWhile (\<lambda>x. x \<in> set ds) rest else tl rest)))"

section \<open>Standard streams\<close>

definition newline :: char where
  "newline = CHR 0x0A"

fun decimal :: "nat \<Rightarrow> string" where
  \<comment> \<open>\<open>stream << n\<close> for a number \<open>n\<close>\<close>
  "decimal n = (if n < 10 then [char_of (48 + n)]
                else decimal (n div 10) @ [char_of (48 + n mod 10)])"

declare decimal.simps [simp del]

lemma decimal_no_newline: "newline \<notin> set (decimal n)"
proof (induction n rule: decimal.induct)
  case (1 n)
  have digit: "char_of (48 + d) \<noteq> newline" if "d < 10" for d :: nat
  proof -
    have "of_char (char_of (48 + d)) \<noteq> (of_char newline :: nat)"
      using that by (simp add: newline_def)
    then show ?thesis by metis
  qed
  show ?case
  proof (cases "n < 10")
    case True
    then show ?thesis using digit[of n] by (subst decimal.simps) simp
  next
    case False
    then show ?thesis using 1 digit[of "n mod 10"] by (subst decimal.simps) simp
  qed
qed

section \<open>Lists\<close>

lemma filter_takeWhile_same [simp]: "filter P (takeWhile P xs) = takeWhile P xs"
  by (induction xs) auto

lemma filter_takeWhile_not [simp]: "filter (\<lambda>x. \<not> P x) (takeWhile P xs) = []"
  by (induction xs) auto

section \<open>Strings\<close>

fun str_contains :: "string \<Rightarrow> string \<Rightarrow> bool" where
  \<comment> \<open>\<open>s.find(pat) != std::string::npos\<close>\<close>
  "str_contains [] pat \<longleftrightarrow> pat = []"
| "str_contains (c # cs) pat \<longleftrightarrow> take (length pat) (c # cs) = pat \<or> str_contains cs pat"

lemma str_contains_iff: "str_contains s pat \<longleftrightarrow> (\<exists>pre post. s = pre @ pat @ post)"
proof
  assume "str_contains s pat"
  then show "\<exists>pre post. s = pre @ pat @ post"
  proof (induction s)
    case Nil
    then show ?case by simp
  next
    case (Cons c cs)
    then consider "take (length pat) (c # cs) = pat" | "\<exists>pre post. cs = pre @ pat @ post" by auto
    then show ?case
    proof cases
      case 1
      then have "c # cs = [] @ pat @ drop (length pat) (c # cs)" by (metis append_Nil append_take_drop_id)
      then show ?thesis by blast
    next
      case 2
      then show ?thesis by (metis append_Cons)
    qed
  qed
next
  assume "\<exists>pre post. s = pre @ pat @ post"
  then obtain pre post where "s = pre @ pat @ post" by blast
  moreover have "str_contains (pat @ post) pat"
  proof (cases "pat @ post")
    case (Cons c cs)
    then have "take (length pat) (c # cs) = pat" by (metis append_eq_conv_conj)
    with Cons show ?thesis by simp
  qed simp
  then have "str_contains (pre @ pat @ post) pat" by (induction pre) simp_all
  ultimately show "str_contains s pat" by simp
qed

end
