(* ===== verification/Std_Map.thy ===== *)
theory Std_Map
  imports Prelude
begin

text \<open>
  The two associative containers of the C++ standard library that the code uses.
  \<open>std::map<K, V>\<close> is the list of its entries in iteration order, which is the strict order of
  the keys (\<open>smap_ok\<close>); \<open>std::unordered_map<K, V>\<close> is a partial function. Both offer
  find, \<open>operator[]\<close> assignment and erase: the locale \<open>keyed_store\<close> states that contract once,
  \<open>ordered_store\<close> adds what iteration over a \<open>std::map\<close> promises.
\<close>

section \<open>Contracts\<close>

lemma entries_by_keys:
  "distinct (map fst xs) \<Longrightarrow> map (\<lambda>k. (k, the (map_of xs k))) (map fst xs) = xs"
  by (induction xs) (auto simp: image_iff intro!: map_idI)

locale keyed_store =
  fixes find :: "'m \<Rightarrow> 'k \<Rightarrow> 'v option"
    and insert :: "'k \<Rightarrow> 'v \<Rightarrow> 'm \<Rightarrow> 'm"
    and erase :: "'k \<Rightarrow> 'm \<Rightarrow> 'm"
    and ok :: "'m \<Rightarrow> bool"
  assumes find_insert: "ok m \<Longrightarrow> find (insert k v m) j = (if j = k then Some v else find m j)"
    and find_erase: "ok m \<Longrightarrow> find (erase k m) j = (if j = k then None else find m j)"
    and ok_insert: "ok m \<Longrightarrow> ok (insert k v m)"
    and ok_erase: "ok m \<Longrightarrow> ok (erase k m)"
begin

lemma find_insert_same: "ok m \<Longrightarrow> find (insert k v m) k = Some v"
  by (simp add: find_insert)

lemma find_insert_other: "ok m \<Longrightarrow> j \<noteq> k \<Longrightarrow> find (insert k v m) j = find m j"
  by (simp add: find_insert)

lemma ok_insert_all: "ok m \<Longrightarrow> ok (foldl (\<lambda>m (k, v). insert k v m) m kvs)"
  by (induction kvs arbitrary: m) (auto simp: ok_insert)

lemma find_insert_all:
  "ok m \<Longrightarrow> find (foldl (\<lambda>m (k, v). insert k v m) m kvs) j =
     (case map_of (rev kvs) j of None \<Rightarrow> find m j | Some v \<Rightarrow> Some v)"
proof (induction kvs rule: rev_induct)
  case Nil
  then show ?case by simp
next
  case (snoc kv kvs)
  obtain k v where "kv = (k, v)" by force
  with snoc show ?case
    by (auto simp: find_insert ok_insert_all split: option.splits)
qed

lemma find_erase_all:
  "ok m \<Longrightarrow> ok (foldl (\<lambda>m k. erase k m) m ks) \<and>
     find (foldl (\<lambda>m k. erase k m) m ks) j = (if j \<in> set ks then None else find m j)"
  by (induction ks arbitrary: m) (auto simp: ok_erase find_erase)

end

locale ordered_store = keyed_store find insert erase ok
  for find :: "'m \<Rightarrow> 'k::linorder \<Rightarrow> 'v option"
    and insert :: "'k \<Rightarrow> 'v \<Rightarrow> 'm \<Rightarrow> 'm"
    and erase :: "'k \<Rightarrow> 'm \<Rightarrow> 'm"
    and ok :: "'m \<Rightarrow> bool" +
  fixes entries :: "'m \<Rightarrow> ('k \<times> 'v) list"
  assumes entries_sorted: "ok m \<Longrightarrow> sorted_wrt (<) (map fst (entries m))"
    and entries_find: "ok m \<Longrightarrow> map_of (entries m) k = find m k"
begin

lemma entries_distinct: "ok m \<Longrightarrow> distinct (map fst (entries m))"
  using entries_sorted strict_sorted_iff by blast

lemma entries_unique:
  assumes "ok m" "ok n" "\<And>k. find m k = find n k"
  shows "entries m = entries n"
proof -
  have eq: "map_of (entries m) = map_of (entries n)"
    using assms by (auto simp: entries_find fun_eq_iff)
  then have "set (map fst (entries m)) = set (map fst (entries n))"
    by (metis dom_map_of_conv_image_fst list.set_map)
  then have "map fst (entries m) = map fst (entries n)"
    using assms(1,2) entries_sorted entries_distinct strict_sorted_iff
    by (metis sorted_distinct_set_unique)
  with eq show ?thesis
    using entries_by_keys[OF entries_distinct[OF assms(1)]]
      entries_by_keys[OF entries_distinct[OF assms(2)]] by metis
qed

end

section \<open>std::map\<close>

type_synonym ('k, 'v) smap = "('k \<times> 'v) list"

definition smap_ok :: "('k::linorder, 'v) smap \<Rightarrow> bool" where
  "smap_ok m \<longleftrightarrow> sorted_wrt (<) (map fst m)"

fun smap_insert :: "'k::linorder \<Rightarrow> 'v \<Rightarrow> ('k, 'v) smap \<Rightarrow> ('k, 'v) smap" where
  "smap_insert k v [] = [(k, v)]"
| "smap_insert k v ((k', v') # m) =
     (if k < k' then (k, v) # (k', v') # m
      else if k = k' then (k, v) # m
      else (k', v') # smap_insert k v m)"

definition smap_erase :: "'k::linorder \<Rightarrow> ('k, 'v) smap \<Rightarrow> ('k, 'v) smap" where
  "smap_erase k m = filter (\<lambda>e. fst e \<noteq> k) m"

lemma smap_ok_Nil [simp]: "smap_ok []"
  by (simp add: smap_ok_def)

lemma smap_ok_singleton [simp]: "smap_ok [(k, v)]"
  by (simp add: smap_ok_def)

lemma smap_ok_Cons:
  "smap_ok ((k, v) # m) \<longleftrightarrow> (\<forall>j \<in> fst ` set m. k < j) \<and> smap_ok m"
  by (auto simp: smap_ok_def)

lemma keys_smap_insert: "fst ` set (smap_insert k v m) = insert k (fst ` set m)"
proof (induction m)
  case Nil
  then show ?case by simp
next
  case (Cons e m)
  obtain k' v' where "e = (k', v')" by force
  with Cons show ?case by auto
qed

lemma smap_ok_insert: "smap_ok m \<Longrightarrow> smap_ok (smap_insert k v m)"
proof (induction m)
  case Nil
  then show ?case by simp
next
  case (Cons e m)
  obtain k' v' where "e = (k', v')" by force
  with Cons show ?case by (auto simp: smap_ok_Cons keys_smap_insert dest: less_trans)
qed

lemma map_of_smap_insert:
  "smap_ok m \<Longrightarrow> map_of (smap_insert k v m) j = (if j = k then Some v else map_of m j)"
proof (induction m)
  case Nil
  then show ?case by simp
next
  case (Cons e m)
  obtain k' v' where "e = (k', v')" by force
  with Cons show ?case by (auto simp: smap_ok_Cons)
qed

lemma smap_ok_erase: "smap_ok m \<Longrightarrow> smap_ok (smap_erase k m)"
proof (induction m)
  case Nil
  then show ?case by (simp add: smap_erase_def)
next
  case (Cons e m)
  obtain k' v' where "e = (k', v')" by force
  with Cons show ?case by (auto simp: smap_ok_Cons smap_erase_def)
qed

lemma map_of_smap_erase: "map_of (smap_erase k m) j = (if j = k then None else map_of m j)"
  by (induction m) (auto simp: smap_erase_def)

interpretation smap: ordered_store map_of smap_insert smap_erase smap_ok "\<lambda>m. m"
  by unfold_locales
    (auto simp: map_of_smap_insert map_of_smap_erase smap_ok_insert smap_ok_erase
      smap_ok_def [symmetric])

text \<open>\<open>operator[]\<close> read: a missing key is created with the default value.\<close>

definition smap_touch :: "'v \<Rightarrow> 'k::linorder \<Rightarrow> ('k, 'v) smap \<Rightarrow> ('k, 'v) smap" where
  "smap_touch d k m = (case map_of m k of None \<Rightarrow> smap_insert k d m | Some _ \<Rightarrow> m)"

lemma smap_touch_present: "map_of m k = Some v \<Longrightarrow> smap_touch d k m = m"
  by (simp add: smap_touch_def)

lemma smap_ok_touch: "smap_ok m \<Longrightarrow> smap_ok (smap_touch d k m)"
  by (auto simp: smap_touch_def smap_ok_insert split: option.splits)

lemma smap_insert_present_keys:
  "smap_ok m \<Longrightarrow> k \<in> fst ` set m \<Longrightarrow> map fst (smap_insert k v m) = map fst m"
proof (induction m)
  case Nil
  then show ?case by simp
next
  case (Cons e m)
  obtain k' v' where "e = (k', v')" by force
  with Cons show ?case by (force simp: smap_ok_Cons)
qed

lemma smap_insert_snoc:
  "smap_ok m \<Longrightarrow> (\<forall>j \<in> fst ` set m. j < k) \<Longrightarrow> smap_insert k v m = m @ [(k, v)]"
  by (induction m) (auto simp: smap_ok_Cons)

section \<open>std::unordered\_map\<close>

interpretation umap: keyed_store "\<lambda>m k. m k" "\<lambda>k v m. m(k \<mapsto> v)" "\<lambda>k m. m(k := None)" "\<lambda>_. True"
  by unfold_locales auto

end
