(* ===== verification/Symbols.thy ===== *)
theory Symbols
  imports Std_Map
begin

text \<open>
  src/core/symbols.hpp: the class \<open>variable\<close> and the converters between its two value types.
  Every shell variable is an array, a \<open>std::map\<close> from \<open>unsigned\<close> indices to a
  \<open>boost::variant<std::string, long>\<close>; a scalar lives at index 0. The template member functions
  are one definition per instance the code uses (string and long).
\<close>

section \<open>Values and converters\<close>

datatype bvalue = Str string | Long c_long

definition convert_long :: "boost \<Rightarrow> bvalue \<Rightarrow> c_long" where
  \<comment> \<open>\<open>converter<long>\<close>; the diagnostic of a failed cast on \<open>std::cerr\<close> is not modelled\<close>
  "convert_long B x = (case x of
       Long n \<Rightarrow> n
     | Str s \<Rightarrow> (case lex_long B s of Some n \<Rightarrow> n | None \<Rightarrow> 0))"

definition convert_string :: "boost \<Rightarrow> bvalue \<Rightarrow> string" where
  "convert_string B x = (case x of Long n \<Rightarrow> show_long B n | Str s \<Rightarrow> s)"

section \<open>The class variable\<close>

record variable =
  var_name :: string
  var_value :: "(uint, bvalue) smap"
  var_readonly :: bool

definition new_variable :: "string \<Rightarrow> bvalue \<Rightarrow> bool \<Rightarrow> uint \<Rightarrow> variable" where
  "new_variable name v ro index =
     \<lparr>var_name = name, var_value = smap_insert index v [], var_readonly = ro\<rparr>"

definition new_array :: "string \<Rightarrow> (uint, string) smap \<Rightarrow> bool \<Rightarrow> variable" where
  "new_array name v ro =
     \<lparr>var_name = name, var_value = map (\<lambda>(i, s). (i, Str s)) v, var_readonly = ro\<rparr>"

definition get_value_string :: "boost \<Rightarrow> variable \<Rightarrow> uint \<Rightarrow> string" where
  "get_value_string B v index = (case map_of (var_value v) index of
       None \<Rightarrow> [] | Some x \<Rightarrow> convert_string B x)"

definition get_value_long :: "boost \<Rightarrow> variable \<Rightarrow> uint \<Rightarrow> c_long" where
  "get_value_long B v index = (case map_of (var_value v) index of
       None \<Rightarrow> 0 | Some x \<Rightarrow> convert_long B x)"

definition get_all_values :: "boost \<Rightarrow> variable \<Rightarrow> string list \<Rightarrow> string list" where
  \<comment> \<open>appends to \<open>all_values\<close>, in the order of the indices\<close>
  "get_all_values B v all_values = all_values @ map (convert_string B \<circ> snd) (var_value v)"

definition readonly_error :: "variable \<Rightarrow> exn" where
  "readonly_error v = Readonly_exception (var_name v @ '' is readonly variable'')"

definition var_set_value :: "variable \<Rightarrow> bvalue \<Rightarrow> uint \<Rightarrow> variable res" where
  "var_set_value v new index =
     (if var_readonly v then Inl (readonly_error v)
      else Inr (v\<lparr>var_value := smap_insert index new (var_value v)\<rparr>))"

definition var_unset_value :: "variable \<Rightarrow> uint \<Rightarrow> variable res" where
  "var_unset_value v index =
     (if var_readonly v then Inl (readonly_error v)
      else Inr (v\<lparr>var_value := smap_erase index (var_value v)\<rparr>))"

definition var_get_length :: "boost \<Rightarrow> variable \<Rightarrow> uint \<Rightarrow> nat" where
  "var_get_length B v index = length (get_value_string B v index)"

definition var_get_array_length :: "variable \<Rightarrow> nat" where
  "var_get_array_length v = length (var_value v)"

definition var_get_max_index :: "variable \<Rightarrow> nat" where
  "var_get_max_index v =
     (if var_value v = [] then 0 else unat (fst (last (var_value v))))"

definition var_is_unset :: "variable \<Rightarrow> uint \<Rightarrow> bool" where
  "var_is_unset v index = (map_of (var_value v) index = None)"

definition var_is_null :: "boost \<Rightarrow> variable \<Rightarrow> uint \<Rightarrow> bool" where
  "var_is_null B v index = (get_value_string B v index = [])"

text \<open>\<open>variable::shift\<close>. The first loop copies every element \<open>shift_number\<close> places down,
  \<open>operator[]\<close> creating a missing source element; the second erases the tail.\<close>

definition shift_copy :: "nat \<Rightarrow> (uint, bvalue) smap \<Rightarrow> nat \<Rightarrow> (uint, bvalue) smap" where
  "shift_copy n m i =
     (let m' = smap_touch (Str []) (of_nat i) m
      in case map_of m' (of_nat i) of
           Some x \<Rightarrow> smap_insert (of_nat (i - n)) x m'
         | None \<Rightarrow> m')"

definition shift_elements :: "nat \<Rightarrow> (uint, bvalue) smap \<Rightarrow> (uint, bvalue) smap" where
  "shift_elements n m =
     (let size = length m
      in foldl (\<lambda>m i. smap_erase (of_nat i) m)
           (foldl (shift_copy n) m [n + 1 ..< size + 1])
           [size - n + 1 ..< size + 1])"

definition var_shift :: "variable \<Rightarrow> uint \<Rightarrow> (int \<times> variable) res" where
  "var_shift v shift_number =
     (let size = length (var_value v); n = unat shift_number
      in if var_readonly v then Inl Assertion_failed
         else if 2 ^ 32 \<le> size then Inl Bad_numeric_cast
         else if size < n then Inr (1, v)
         else if n = size then Inr (0, v\<lparr>var_value := []\<rparr>)
         else if size = 2 ^ 32 - 1
           then Inl (Undefined_behaviour ''shift: the loop counter never exceeds the size'')
         else Inr (0, v\<lparr>var_value := shift_elements n (var_value v)\<rparr>))"

definition variable_ok :: "variable \<Rightarrow> bool" where
  "variable_ok v \<longleftrightarrow> smap_ok (var_value v)"

section \<open>The representation invariant\<close>

lemma variable_ok_new [simp]: "variable_ok (new_variable name v ro index)"
  by (simp add: variable_ok_def new_variable_def)

lemma variable_ok_new_array: "smap_ok m \<Longrightarrow> variable_ok (new_array name m ro)"
  by (simp add: variable_ok_def new_array_def smap_ok_def comp_def case_prod_beta)

lemma variable_ok_set:
  "variable_ok v \<Longrightarrow> var_set_value v x i = Inr v' \<Longrightarrow> variable_ok v'"
  by (auto simp: variable_ok_def var_set_value_def smap_ok_insert split: if_splits)

lemma variable_ok_unset:
  "variable_ok v \<Longrightarrow> var_unset_value v i = Inr v' \<Longrightarrow> variable_ok v'"
  by (auto simp: variable_ok_def var_unset_value_def smap_ok_erase split: if_splits)

lemma smap_ok_shift_copy: "smap_ok m \<Longrightarrow> smap_ok (shift_copy n m i)"
  by (auto simp: shift_copy_def Let_def smap_ok_touch smap_ok_insert split: option.splits)

lemma smap_ok_shift_copies: "smap_ok m \<Longrightarrow> smap_ok (foldl (shift_copy n) m is)"
  by (induction "is" arbitrary: m) (auto simp: smap_ok_shift_copy)

lemma smap_ok_erases: "smap_ok m \<Longrightarrow> smap_ok (foldl (\<lambda>m i. smap_erase (f i) m) m is)"
  by (induction "is" arbitrary: m) (auto simp: smap_ok_erase)

lemma smap_ok_shift_elements: "smap_ok m \<Longrightarrow> smap_ok (shift_elements n m)"
  by (simp add: shift_elements_def Let_def smap_ok_erases smap_ok_shift_copies)

lemma variable_ok_shift:
  "variable_ok v \<Longrightarrow> var_shift v n = Inr (r, v') \<Longrightarrow> variable_ok v'"
  by (auto simp: variable_ok_def var_shift_def Let_def smap_ok_shift_elements split: if_splits)

lemmas variable_ok_intros =
  variable_ok_new variable_ok_new_array variable_ok_set variable_ok_unset variable_ok_shift

lemma var_name_preserved:
  "var_set_value v x i = Inr v' \<Longrightarrow> var_name v' = var_name v \<and> \<not> var_readonly v'"
  "var_unset_value v i = Inr v' \<Longrightarrow> var_name v' = var_name v \<and> \<not> var_readonly v'"
  "var_shift v n = Inr (r, v') \<Longrightarrow> var_name v' = var_name v \<and> \<not> var_readonly v'"
  by (auto simp: var_set_value_def var_unset_value_def var_shift_def Let_def split: if_splits)

section \<open>Reading what was written\<close>

lemma set_value_find:
  "variable_ok v \<Longrightarrow> var_set_value v x i = Inr v' \<Longrightarrow>
     map_of (var_value v') j = (if j = i then Some x else map_of (var_value v) j)"
  by (auto simp: var_set_value_def variable_ok_def smap.find_insert split: if_splits)

lemma unset_value_find:
  "variable_ok v \<Longrightarrow> var_unset_value v i = Inr v' \<Longrightarrow>
     map_of (var_value v') j = (if j = i then None else map_of (var_value v) j)"
  by (auto simp: var_unset_value_def variable_ok_def smap.find_erase split: if_splits)

lemma new_variable_find:
  "map_of (var_value (new_variable name x ro i)) j = (if j = i then Some x else None)"
  by (simp add: new_variable_def)

lemma max_index_upper:
  assumes "variable_ok v" "map_of (var_value v) i = Some x"
  shows "unat i \<le> var_get_max_index v"
proof -
  let ?ks = "map fst (var_value v)"
  from assms(2) have mem: "i \<in> set ?ks" by (auto dest: map_of_SomeD intro: rev_image_eqI)
  then have ne: "?ks \<noteq> []" by auto
  from assms(1) have "sorted ?ks"
    by (simp add: variable_ok_def smap_ok_def strict_sorted_imp_sorted)
  with mem have "i \<le> last ?ks"
    by (metis ne append_butlast_last_id in_set_conv_nth length_append_singleton less_Suc_eq_le
        nth_append_length sorted_nth_mono lessI)
  with ne show ?thesis
    by (auto simp: var_get_max_index_def last_map word_le_nat_alt)
qed

section \<open>Shifting\<close>

lemma unat_of_nat32: "i < 2 ^ 32 \<Longrightarrow> unat (of_nat i :: uint) = i"
  by (simp add: unat_of_nat take_bit_nat_eq_self)

lemma of_nat32_eq_iff: "i < 2 ^ 32 \<Longrightarrow> (j :: uint) = of_nat i \<longleftrightarrow> unat j = i"
  by (auto simp: unat_of_nat32 intro: unsigned_word_eqI)

definition element_or_default :: "(uint, bvalue) smap \<Rightarrow> uint \<Rightarrow> bvalue" where
  "element_or_default m i = (case map_of m i of Some x \<Rightarrow> x | None \<Rightarrow> Str [])"

lemma shift_copy_find:
  assumes "smap_ok m" "i < 2 ^ 32" "n \<le> i"
  shows "map_of (shift_copy n m i) j =
     (if unat j = i - n \<or> unat j = i then Some (element_or_default m (of_nat i))
      else map_of m j)"
proof -
  have dst: "j = of_nat (i - n) \<longleftrightarrow> unat j = i - n"
    by (rule of_nat32_eq_iff) (use assms in simp)
  have src: "j = of_nat i \<longleftrightarrow> unat j = i"
    by (rule of_nat32_eq_iff) (use assms in simp)
  have "map_of (smap_touch (Str []) (of_nat i) m) j =
      (if unat j = i then Some (element_or_default m (of_nat i)) else map_of m j)" for j
    using assms of_nat32_eq_iff[of i j]
    by (auto simp: smap_touch_def element_or_default_def smap.find_insert split: option.splits)
  then show ?thesis
    using assms dst src
    by (auto simp: shift_copy_def Let_def smap.find_insert smap_ok_touch unat_of_nat32
        simp del: of_nat_diff)
qed

lemma shift_copies_find:
  assumes "smap_ok m" "n \<le> sz" "sz < 2 ^ 32"
  shows "map_of (foldl (shift_copy n) m [n + 1 ..< sz + 1]) j =
     (if 1 \<le> unat j \<and> unat j \<le> sz - n
        then Some (element_or_default m (of_nat (unat j + n)))
      else if n + 1 \<le> unat j \<and> unat j \<le> sz then Some (element_or_default m j)
      else map_of m j)"
  using assms(2,3)
proof (induction sz arbitrary: j rule: dec_induct)
  case base
  then show ?case by auto
next
  case (step k)
  let ?m = "foldl (shift_copy n) m [n + 1 ..< k + 1]"
  have ok: "smap_ok ?m" using assms(1) by (rule smap_ok_shift_copies)
  have "\<not> Suc k \<le> k - n" by simp
  then have src: "map_of ?m (of_nat (Suc k)) = map_of m (of_nat (Suc k))"
    using step.prems step.IH[of "of_nat (Suc k)"]
    by (simp add: unat_of_nat32 del: of_nat_Suc upt_Suc)
  have dflt: "element_or_default ?m (of_nat (Suc k)) = element_or_default m (of_nat (Suc k))"
    unfolding element_or_default_def src ..
  have "map_of (foldl (shift_copy n) m [n + 1 ..< Suc k + 1]) j =
      map_of (shift_copy n ?m (Suc k)) j"
    using step.hyps by simp
  also have "\<dots> = (if unat j = Suc k - n \<or> unat j = Suc k
      then Some (element_or_default m (of_nat (Suc k))) else map_of ?m j)"
    unfolding dflt [symmetric]
    by (rule shift_copy_find[OF ok]) (use step.prems step.hyps in simp_all)
  finally have eq: "map_of (foldl (shift_copy n) m [n + 1 ..< Suc k + 1]) j =
      (if unat j = Suc k - n \<or> unat j = Suc k
       then Some (element_or_default m (of_nat (Suc k))) else map_of ?m j)" .
  have Suc_word: "unat j = Suc k \<Longrightarrow> j = of_nat (Suc k)"
    using step.prems of_nat32_eq_iff[of "Suc k" j] by simp
  have IH: "map_of ?m j = (if 1 \<le> unat j \<and> unat j \<le> k - n
        then Some (element_or_default m (of_nat (unat j + n)))
      else if n + 1 \<le> unat j \<and> unat j \<le> k then Some (element_or_default m j)
      else map_of m j)"
    by (rule step.IH) (use step.prems in simp)
  show ?case
  proof (cases "unat j = Suc k - n")
    case True
    with step.hyps have "unat j + n = Suc k" and "1 \<le> unat j" by simp_all
    with True show ?thesis unfolding eq by (simp del: of_nat_Suc of_nat_add upt_Suc)
  next
    case other: False
    show ?thesis
    proof (cases "unat j = Suc k")
      case True
      with other step.hyps have "\<not> unat j \<le> Suc k - n" "n + 1 \<le> unat j" by simp_all
      with True Suc_word show ?thesis unfolding eq by (simp del: of_nat_Suc upt_Suc)
    next
      case False
      with other have "unat j \<le> Suc k - n \<longleftrightarrow> unat j \<le> k - n" "unat j \<le> Suc k \<longleftrightarrow> unat j \<le> k"
        using step.hyps by auto
      with other False show ?thesis unfolding eq IH by simp
    qed
  qed
qed

lemma shift_elements_find:
  assumes "smap_ok m" "n < length m" "length m < 2 ^ 32"
  shows "map_of (shift_elements n m) j =
     (if 1 \<le> unat j \<and> unat j \<le> length m - n
        then Some (element_or_default m (of_nat (unat j + n)))
      else if length m - n < unat j \<and> unat j \<le> length m then None
      else map_of m j)"
proof -
  let ?c = "foldl (shift_copy n) m [n + 1 ..< length m + 1]"
  have ok: "smap_ok ?c" using assms(1) by (rule smap_ok_shift_copies)
  have fold: "foldl (\<lambda>m i. smap_erase (of_nat i) m) ?c is =
      foldl (\<lambda>m k. smap_erase k m) ?c (map of_nat is)" for "is"
    by (induction "is" rule: rev_induct) auto
  have mem: "j \<in> of_nat ` {length m - n + 1 ..< length m + 1} \<longleftrightarrow>
      length m - n < unat j \<and> unat j \<le> length m"
  proof
    assume "j \<in> of_nat ` {length m - n + 1 ..< length m + 1}"
    then obtain i where "j = of_nat i" "length m - n < i" "i \<le> length m" by auto
    with assms(3) show "length m - n < unat j \<and> unat j \<le> length m"
      by (simp add: unat_of_nat32)
  next
    assume "length m - n < unat j \<and> unat j \<le> length m"
    then show "j \<in> of_nat ` {length m - n + 1 ..< length m + 1}"
      by (intro image_eqI[where x = "unat j"]) auto
  qed
  have "map_of (shift_elements n m) j =
      (if j \<in> set (map of_nat [length m - n + 1 ..< length m + 1]) then None else map_of ?c j)"
    unfolding shift_elements_def Let_def fold using smap.find_erase_all[OF ok] by blast
  also have "\<dots> = (if length m - n < unat j \<and> unat j \<le> length m then None else map_of ?c j)"
    unfolding set_map set_upt mem ..
  also have "map_of ?c j = (if 1 \<le> unat j \<and> unat j \<le> length m - n
        then Some (element_or_default m (of_nat (unat j + n)))
      else if n + 1 \<le> unat j \<and> unat j \<le> length m then Some (element_or_default m j)
      else map_of m j)"
    using assms by (intro shift_copies_find) simp_all
  finally show ?thesis using assms(2) by auto
qed

text \<open>The positional parameters are the contiguous array 1, 2, ..., as
  \<open>interpreter::define_positional_arguments\<close> builds it.\<close>

fun args_map :: "nat \<Rightarrow> string list \<Rightarrow> (uint, bvalue) smap" where
  "args_map i [] = []"
| "args_map i (a # as) = (of_nat i, Str a) # args_map (Suc i) as"

lemma length_args_map [simp]: "length (args_map i as) = length as"
  by (induction "as" arbitrary: i) auto

lemma args_map_values: "map snd (args_map i as) = map Str as"
  by (induction "as" arbitrary: i) auto

lemma keys_args_map:
  "i + length as \<le> 2 ^ 32 \<Longrightarrow> k \<in> fst ` set (args_map i as) \<Longrightarrow> i \<le> unat k"
proof (induction "as" arbitrary: i)
  case Nil
  then show ?case by simp
next
  case (Cons a "as")
  from Cons.prems consider "k = of_nat i" | "k \<in> fst ` set (args_map (Suc i) as)"
    by auto
  then show ?case
  proof cases
    case 1
    with Cons.prems show ?thesis by (simp add: unat_of_nat32)
  next
    case 2
    with Cons.IH[of "Suc i"] Cons.prems(1) show ?thesis by simp
  qed
qed

lemma smap_ok_args_map: "i + length as \<le> 2 ^ 32 \<Longrightarrow> smap_ok (args_map i as)"
proof (induction "as" arbitrary: i)
  case Nil
  then show ?case by simp
next
  case (Cons a "as")
  have "of_nat i < k" if "k \<in> fst ` set (args_map (Suc i) as)" for k :: uint
    using keys_args_map[OF _ that] Cons.prems by (simp add: word_less_nat_alt unat_of_nat32)
  with Cons show ?case by (simp add: smap_ok_Cons)
qed

lemma map_of_args_map:
  "i + length as \<le> 2 ^ 32 \<Longrightarrow> map_of (args_map i as) j =
     (if i \<le> unat j \<and> unat j < i + length as then Some (Str (as ! (unat j - i))) else None)"
proof (induction "as" arbitrary: i)
  case Nil
  then show ?case by simp
next
  case (Cons a "as")
  have "map_of (args_map i (a # as)) j =
      (if unat j = i then Some (Str a) else map_of (args_map (Suc i) as) j)"
    using Cons.prems of_nat32_eq_iff[of i j] by auto
  with Cons show ?case by (auto simp: nth_Cons' simp flip: diff_Suc_eq_diff_pred)
qed

lemma shift_args_map:
  assumes "length as < 2 ^ 32 - 1" "n < length as"
  shows "shift_elements n (args_map 1 as) = args_map 1 (drop n as)"
proof -
  have ok: "smap_ok (args_map 1 as)" "smap_ok (args_map 1 (drop n as))"
    using assms by (auto intro!: smap_ok_args_map)
  have "map_of (shift_elements n (args_map 1 as)) j = map_of (args_map 1 (drop n as)) j" for j
  proof -
    have "element_or_default (args_map 1 as) (of_nat (unat j + n)) = Str (as ! (unat j + n - 1))"
      if "1 \<le> unat j" "unat j \<le> length as - n"
      using assms that Nat.le_diff_conv2[of n "length as" "unat j"]
      by (simp add: element_or_default_def map_of_args_map unat_of_nat32 del: of_nat_add)
    then show ?thesis
      using assms ok by (auto simp: shift_elements_find map_of_args_map add.commute simp del: of_nat_add)
  qed
  then show ?thesis
    using smap.entries_unique ok smap_ok_shift_elements by metis
qed

end
