(* ===== verification/Interp_State.thy ===== *)
theory Interp_State
  imports Symbols
begin

text \<open>
  src/core/interpreter.h and interpreter.cpp: the state of the class \<open>interpreter\<close>, its
  symbol tables and scopes, its options and its function table. The walker's syntax trees are
  the type parameter \<open>'a\<close> (a \<open>bash_ast\<close> is only stored and passed on by this class).

  \<open>scope\<close> is the \<open>std::unordered_map\<close> from names to variables. The shared pointers of the code
  are never shared between two entries (every entry is made by \<open>reset (new variable ...)\<close>), so a
  variable is stored by value and an update through the pointer that \<open>resolve_variable\<close> returned
  is \<open>assign_variable\<close>. The vectors \<open>local_members\<close> and \<open>ast_stack\<close> are lists with
  their back, or top, first. The text held by the C++ streams is part of the state, under the
  identity of the stream; a stream object that the walker makes gets the number \<open>next_stream\<close>.
\<close>

section \<open>State\<close>

type_synonym scope = "string \<Rightarrow> variable option"

record 'a func =
  func_ast :: 'a
  func_index :: nat

datatype ostream = Cout | Cerr | Ostringstream nat | Ofstream nat string

datatype istream = Cin | Istringstream nat | Ifstream nat string

record instream =
  pending :: string
  eofbit :: bool
  failbit :: bool

text \<open>The function-local statics of source_builtin.cpp (the cache of parsed files; \<open>Some None\<close> is an
  entry whose pointer is still empty) and of cppbash_builtin.cpp (the names that \<open>operator[]\<close>
  entered in the builtin table without a factory), which live as long as the process.\<close>

record 'a process =
  ast_cache :: "string \<Rightarrow> 'a option option"
  null_builtins :: "string list"

record 'a interp =
  members :: scope
  function_table :: "(string \<times> 'a func) list"
  ast_stack :: "'a list"
  local_members :: "scope list"
  out_stream :: ostream
  err_stream :: ostream
  in_stream :: istream
  additional_options :: "(string, bool) smap"
  options :: "(char, bool) smap"
  status :: int
  written :: "ostream \<Rightarrow> string"
  inputs :: "istream \<Rightarrow> instream"
  next_stream :: nat
  statics :: "'a process"

section \<open>Construction\<close>

definition smap_of_list :: "('k::linorder \<times> 'v) list \<Rightarrow> ('k, 'v) smap" where
  \<comment> \<open>the initializer-list constructor of \<open>std::map\<close>\<close>
  "smap_of_list kvs = foldl (\<lambda>m (k, v). smap_insert k v m) [] kvs"

definition get_options :: "(char, bool) smap \<Rightarrow> string" where
  "get_options opts = map fst (filter snd opts)"

definition initial_additional_options :: "(string \<times> bool) list" where
  "initial_additional_options = [
     (''autocd'', False), (''cdable_vars'', False), (''cdspell'', False),
     (''checkhash'', False), (''checkjobs'', False), (''checkwinsize'', False),
     (''cmdhist'', False), (''compat31'', False), (''compat32'', False), (''compat40'', False),
     (''dirspell'', False), (''dotglob'', False), (''execfail'', False),
     (''expand_aliases'', False), (''extdebug'', False), (''extglob'', False),
     (''extquote'', True), (''failglob'', False), (''force_fignore'', False),
     (''globstar'', False), (''gnu_errfmt'', False), (''histappend'', False),
     (''histreedit'', False), (''histverify'', False), (''hostcomplete'', False),
     (''huponexit'', False), (''interactive_comments'', False), (''lithist'', False),
     (''login_shell'', False), (''mailwarn'', False), (''no_empty_cmd_completion'', False),
     (''nocaseglob'', False), (''nocasematch'', False), (''nullglob'', False),
     (''progcomp'', False), (''promptvars'', False), (''restricted_shell'', False),
     (''shift_verbose'', False), (''sourcepath'', False), (''xpg_echo'', False)]"

definition initial_options :: "(char \<times> bool) list" where
  "initial_options = [
     (CHR ''a'', False), (CHR ''b'', False), (CHR ''e'', False), (CHR ''f'', False),
     (CHR ''h'', True), (CHR ''k'', False), (CHR ''m'', False), (CHR ''n'', False),
     (CHR ''p'', False), (CHR ''t'', False), (CHR ''u'', False), (CHR ''v'', False),
     (CHR ''x'', False), (CHR ''B'', True), (CHR ''C'', False), (CHR ''E'', False),
     (CHR ''H'', False), (CHR ''P'', False), (CHR ''T'', False)]"

definition define_var :: "string \<Rightarrow> bvalue \<Rightarrow> bool \<Rightarrow> uint \<Rightarrow> 'a interp \<Rightarrow> 'a interp" where
  "define_var name v ro index st =
     st\<lparr>members := (members st)(name \<mapsto> new_variable name v ro index)\<rparr>"

definition define_array ::
  "string \<Rightarrow> (uint, string) smap \<Rightarrow> bool \<Rightarrow> 'a interp \<Rightarrow> 'a interp" where
  "define_array name v ro st = st\<lparr>members := (members st)(name \<mapsto> new_array name v ro)\<rparr>"

definition new_interpreter :: "'a interp" where
  "new_interpreter =
     (let st = \<lparr>members = Map.empty, function_table = [], ast_stack = [], local_members = [],
                out_stream = Cout, err_stream = Cerr, in_stream = Cin,
                additional_options = smap_of_list initial_additional_options,
                options = smap_of_list initial_options, status = 0,
                written = (\<lambda>_. []), inputs = (\<lambda>_. \<lparr>pending = [], eofbit = False, failbit = False\<rparr>),
                next_stream = 0, statics = \<lparr>ast_cache = Map.empty, null_builtins = []\<rparr>\<rparr>;
          st = define_var ''IFS'' (Str [CHR '' '', CHR 0x09, CHR 0x0A]) False 0 st
      in define_var ''-'' (Str (get_options (options st))) False 0 st)"

section \<open>Streams\<close>

definition set_output_stream :: "ostream \<Rightarrow> 'a interp \<Rightarrow> 'a interp" where
  "set_output_stream stream st = st\<lparr>out_stream := stream\<rparr>"

definition restore_output_stream :: "'a interp \<Rightarrow> 'a interp" where
  "restore_output_stream st = st\<lparr>out_stream := Cout\<rparr>"

definition set_error_stream :: "ostream \<Rightarrow> 'a interp \<Rightarrow> 'a interp" where
  "set_error_stream stream st = st\<lparr>err_stream := stream\<rparr>"

definition set_input_stream :: "istream \<Rightarrow> 'a interp \<Rightarrow> 'a interp" where
  "set_input_stream stream st = st\<lparr>in_stream := stream\<rparr>"

definition set_status :: "int \<Rightarrow> 'a interp \<Rightarrow> 'a interp" where
  "set_status n st = st\<lparr>status := n\<rparr>"

definition emit :: "ostream \<Rightarrow> string \<Rightarrow> 'a interp \<Rightarrow> 'a interp" where
  \<comment> \<open>\<open>stream << text\<close>\<close>
  "emit stream text st = st\<lparr>written := (written st)(stream := written st stream @ text)\<rparr>"

definition getline_from :: "instream \<Rightarrow> string \<times> instream" where
  \<comment> \<open>\<open>std::getline\<close> into an empty string\<close>
  "getline_from s =
     (if eofbit s \<or> failbit s then ([], s\<lparr>failbit := True\<rparr>)
      else let line = takeWhile (\<lambda>c. c \<noteq> newline) (pending s);
               rest = dropWhile (\<lambda>c. c \<noteq> newline) (pending s)
           in (line, if rest = [] then \<lparr>pending = [], eofbit = True, failbit = (line = [])\<rparr>
                     else s\<lparr>pending := tl rest\<rparr>))"

section \<open>Options\<close>

definition interp_get_option :: "char \<Rightarrow> 'a interp \<Rightarrow> bool res" where
  "interp_get_option name st = (case map_of (options st) name of
       None \<Rightarrow> Inl (Illegal_argument_exception ''Invalid bash option'')
     | Some b \<Rightarrow> Inr b)"

definition bad_option_error :: "char \<Rightarrow> exn" where
  \<comment> \<open>\<open>name + " is not ..."\<close> adds a \<open>char\<close> to a pointer into the literal: the message loses
    that many characters, and the sum is out of bounds past the terminating zero\<close>
  "bad_option_error name =
     (let message = '' is not a valid bash option''; n = of_char name
      in if n \<le> length message then Illegal_argument_exception (drop n message)
         else Undefined_behaviour ''set_option: pointer past the end of a literal'')"

definition interp_set_option :: "char \<Rightarrow> bool \<Rightarrow> ('a interp, unit) act" where
  "interp_set_option name v st = (case map_of (options st) name of
       None \<Rightarrow> (Inl (bad_option_error name), st)
     | Some _ \<Rightarrow> (Inr (), st\<lparr>options := smap_insert name v (options st)\<rparr>))"

definition get_additional_option :: "string \<Rightarrow> 'a interp \<Rightarrow> bool res" where
  "get_additional_option name st = (case map_of (additional_options st) name of
       None \<Rightarrow> Inl (Illegal_argument_exception ''Invalid bash option'')
     | Some b \<Rightarrow> Inr b)"

definition set_additional_option :: "string \<Rightarrow> bool \<Rightarrow> ('a interp, unit) act" where
  "set_additional_option name v st = (case map_of (additional_options st) name of
       None \<Rightarrow> (Inl (Illegal_argument_exception (name @ '' is not a valid bash option'')), st)
     | Some _ \<Rightarrow>
         (Inr (), st\<lparr>additional_options := smap_insert name v (additional_options st)\<rparr>))"

section \<open>Looking a variable up\<close>

fun find_local :: "scope list \<Rightarrow> string \<Rightarrow> variable option" where
  \<comment> \<open>\<open>BOOST_REVERSE_FOREACH\<close> over the frames\<close>
  "find_local [] name = None"
| "find_local (frame # frames) name =
     (case frame name of Some v \<Rightarrow> Some v | None \<Rightarrow> find_local frames name)"

definition resolve_variable :: "'a interp \<Rightarrow> string \<Rightarrow> variable option" where
  "resolve_variable st name =
     (if name = [] then None
      else case find_local (local_members st) name of
             Some v \<Rightarrow> Some v
           | None \<Rightarrow> members st name)"

definition is_valid :: "variable option \<Rightarrow> string \<Rightarrow> 'a interp \<Rightarrow> bool res" where
  "is_valid var name st = (case var of
       Some _ \<Rightarrow> Inr True
     | None \<Rightarrow> bind_res (interp_get_option CHR ''u'' st) (\<lambda>u.
         if u then Inl (Unsupported_exception (name @ '': unbound variable'')) else Inr False))"

definition unbound_index_error :: "boost \<Rightarrow> string \<Rightarrow> uint \<Rightarrow> exn" where
  "unbound_index_error B name index = Unsupported_exception
     (if name = ''*'' then ''$'' @ show_nat B (unat index) @ '': unbound variable''
      else if index = 0 then name @ '': unbound variable''
      else name @ ''['' @ show_nat B (unat index) @ '']: unbound variable'')"

definition resolve_with ::
  "boost \<Rightarrow> (variable \<Rightarrow> uint \<Rightarrow> 'r) \<Rightarrow> 'r \<Rightarrow> string \<Rightarrow> uint \<Rightarrow> 'a interp \<Rightarrow> 'r res" where
  \<comment> \<open>the template \<open>resolve<T>\<close>: \<open>get_value<T>\<close> and the default value of \<open>T\<close> are arguments\<close>
  "resolve_with B get_value dflt name index st =
     bind_res (is_valid (resolve_variable st name) name st) (\<lambda>valid.
       case resolve_variable st name of
         Some var \<Rightarrow> bind_res (interp_get_option CHR ''u'' st) (\<lambda>u.
           if u \<and> var_is_unset var index then Inl (unbound_index_error B name index)
           else Inr (get_value var index))
       | None \<Rightarrow> bind_res (interp_get_option CHR ''u'' st) (\<lambda>u.
           if u then Inl (Unsupported_exception (name @ '': unbound variable''))
           else Inr dflt))"

definition resolve_string :: "boost \<Rightarrow> string \<Rightarrow> uint \<Rightarrow> 'a interp \<Rightarrow> string res" where
  "resolve_string B = resolve_with B (get_value_string B) []"

definition resolve_long :: "boost \<Rightarrow> string \<Rightarrow> uint \<Rightarrow> 'a interp \<Rightarrow> c_long res" where
  "resolve_long B = resolve_with B (get_value_long B) 0"

definition resolve_array ::
  "boost \<Rightarrow> string \<Rightarrow> string list \<Rightarrow> 'a interp \<Rightarrow> (bool \<times> string list) res" where
  \<comment> \<open>the result flag and the vector \<open>values\<close> after the call\<close>
  "resolve_array B name values st =
     bind_res (is_valid (resolve_variable st name) name st) (\<lambda>valid.
       case resolve_variable st name of
         None \<Rightarrow> Inr (False, values)
       | Some var \<Rightarrow> Inr (True, get_all_values B var values))"

definition is_unset_or_null :: "boost \<Rightarrow> string \<Rightarrow> uint \<Rightarrow> 'a interp \<Rightarrow> bool" where
  "is_unset_or_null B name index st = (case resolve_variable st name of
       None \<Rightarrow> True | Some var \<Rightarrow> var_is_null B var index)"

definition is_unset :: "string \<Rightarrow> 'a interp \<Rightarrow> bool" where
  "is_unset name st = (members st name = None)"

definition interp_get_length :: "boost \<Rightarrow> string \<Rightarrow> uint \<Rightarrow> 'a interp \<Rightarrow> nat res" where
  "interp_get_length B name index st =
     bind_res (is_valid (resolve_variable st name) name st) (\<lambda>valid.
       case resolve_variable st name of
         None \<Rightarrow> Inr 0 | Some var \<Rightarrow> Inr (var_get_length B var index))"

definition interp_get_array_length :: "string \<Rightarrow> 'a interp \<Rightarrow> nat res" where
  "interp_get_array_length name st =
     bind_res (is_valid (resolve_variable st name) name st) (\<lambda>valid.
       case resolve_variable st name of
         None \<Rightarrow> Inr 0 | Some var \<Rightarrow> Inr (var_get_array_length var))"

definition interp_get_max_index :: "string \<Rightarrow> 'a interp \<Rightarrow> nat res" where
  "interp_get_max_index name st =
     bind_res (is_valid (resolve_variable st name) name st) (\<lambda>valid.
       case resolve_variable st name of
         None \<Rightarrow> Inr 0 | Some var \<Rightarrow> Inr (var_get_max_index var))"

end
