(* ===== verification/Interpreter.thy ===== *)
theory Interpreter
  imports Interp_State
begin

text \<open>
  src/core/interpreter.h and interpreter.cpp: the operations of the class \<open>interpreter\<close> that
  change its state (assignment, definition, local scopes, unset, positional parameters, the
  function table), and the invariants and laws of its symbol table.
\<close>

section \<open>Assignment and definition\<close>

fun update_frames :: "string \<Rightarrow> variable \<Rightarrow> scope list \<Rightarrow> scope list option" where
  "update_frames name v [] = None"
| "update_frames name v (frame # frames) =
     (case frame name of
        Some _ \<Rightarrow> Some (frame(name \<mapsto> v) # frames)
      | None \<Rightarrow> map_option ((#) frame) (update_frames name v frames))"

definition assign_variable :: "string \<Rightarrow> variable \<Rightarrow> 'a interp \<Rightarrow> 'a interp" where
  \<comment> \<open>the object that \<open>resolve_variable name\<close> points to becomes \<open>v\<close>\<close>
  "assign_variable name v st = (case update_frames name v (local_members st) of
       Some frames \<Rightarrow> st\<lparr>local_members := frames\<rparr>
     | None \<Rightarrow> st\<lparr>members := (members st)(name \<mapsto> v)\<rparr>)"

definition set_value :: "string \<Rightarrow> bvalue \<Rightarrow> uint \<Rightarrow> ('a interp, bvalue) act" where
  "set_value name new index st = (case resolve_variable st name of
       Some var \<Rightarrow> (case var_set_value var new index of
           Inl e \<Rightarrow> (Inl e, st)
         | Inr var' \<Rightarrow> (Inr new, assign_variable name var' st))
     | None \<Rightarrow> (Inr new, define_var name new False index st))"

definition local_outside_function :: exn where
  "local_outside_function = Runtime_exception ''Define local variables outside function scope''"

definition define_local :: "string \<Rightarrow> bvalue \<Rightarrow> bool \<Rightarrow> uint \<Rightarrow> ('a interp, unit) act" where
  "define_local name v ro index st = (case local_members st of
       [] \<Rightarrow> (Inl local_outside_function, st)
     | frame # frames \<Rightarrow>
         (Inr (), st\<lparr>local_members := frame(name \<mapsto> new_variable name v ro index) # frames\<rparr>))"

definition define_local_array ::
  "string \<Rightarrow> (uint, string) smap \<Rightarrow> bool \<Rightarrow> ('a interp, unit) act" where
  "define_local_array name v ro st = (case local_members st of
       [] \<Rightarrow> (Inl local_outside_function, st)
     | frame # frames \<Rightarrow>
         (Inr (), st\<lparr>local_members := frame(name \<mapsto> new_array name v ro) # frames\<rparr>))"

definition is_local_scope :: "'a interp \<Rightarrow> bool" where
  "is_local_scope st = (local_members st \<noteq> [])"

definition push_scope :: "'a interp \<Rightarrow> 'a interp" where
  "push_scope st = st\<lparr>local_members := Map.empty # local_members st\<rparr>"

definition pop_scope :: "'a interp \<Rightarrow> 'a interp" where
  "pop_scope st = st\<lparr>local_members := tl (local_members st)\<rparr>"

definition with_local_scope :: "('a interp, 'r) act \<Rightarrow> ('a interp, 'r) act" where
  \<comment> \<open>a block that holds a \<open>local_scope\<close> object: constructor, block, destructor\<close>
  "with_local_scope m st = finally_do m pop_scope (push_scope st)"

section \<open>Removal\<close>

definition check_unset_positional :: "string \<Rightarrow> unit res" where
  "check_unset_positional name =
     (if name \<noteq> [] \<and> hd name \<in> set ''0123456789''
      then Inl (Runtime_exception ''unset: not a valid identifier'') else Inr ())"

definition unset_in_scope :: "string \<Rightarrow> scope \<Rightarrow> (bool \<times> scope) res" where
  \<comment> \<open>the lambda \<open>unsetter\<close>\<close>
  "unset_in_scope name frame = (case frame name of
       Some v \<Rightarrow> if var_readonly v then Inl (Readonly_exception ''unset a readonly variable'')
                 else Inr (True, frame(name := None))
     | None \<Rightarrow> Inr (False, frame))"

fun unset_in_frames :: "string \<Rightarrow> scope list \<Rightarrow> (bool \<times> scope list) res" where
  \<comment> \<open>\<open>std::none_of\<close> over the frames, which stops at the first frame that held the name\<close>
  "unset_in_frames name [] = Inr (False, [])"
| "unset_in_frames name (frame # frames) =
     bind_res (unset_in_scope name frame) (\<lambda>(found, frame').
       if found then Inr (True, frame' # frames)
       else bind_res (unset_in_frames name frames) (\<lambda>(found', frames').
         Inr (found', frame' # frames')))"

definition unset :: "string \<Rightarrow> ('a interp, unit) act" where
  "unset name st = (case check_unset_positional name of
       Inl e \<Rightarrow> (Inl e, st)
     | Inr _ \<Rightarrow> (case unset_in_frames name (local_members st) of
         Inl e \<Rightarrow> (Inl e, st)
       | Inr (True, frames) \<Rightarrow> (Inr (), st\<lparr>local_members := frames\<rparr>)
       | Inr (False, _) \<Rightarrow> (case unset_in_scope name (members st) of
           Inl e \<Rightarrow> (Inl e, st)
         | Inr (_, g) \<Rightarrow> (Inr (), st\<lparr>members := g\<rparr>))))"

definition unset_element :: "string \<Rightarrow> uint \<Rightarrow> ('a interp, unit) act" where
  \<comment> \<open>\<open>unset(name, index)\<close>\<close>
  "unset_element name index st = (case check_unset_positional name of
       Inl e \<Rightarrow> (Inl e, st)
     | Inr _ \<Rightarrow> (case resolve_variable st name of
         None \<Rightarrow> (Inr (), st)
       | Some var \<Rightarrow>
           if var_readonly var
           then (Inl (Readonly_exception ''unset a readonly variable''), st)
           else (case var_unset_value var index of
               Inl e \<Rightarrow> (Inl e, st)
             | Inr var' \<Rightarrow> (Inr (), assign_variable name var' st))))"

section \<open>Positional parameters\<close>

fun positional_args :: "uint \<Rightarrow> string list \<Rightarrow> (uint, string) smap \<Rightarrow> (uint, string) smap" where
  \<comment> \<open>the loop \<open>for(i = 1u; ...; ++i) positional_args[i] = ...\<close> from \<open>i\<close> on\<close>
  "positional_args i [] m = m"
| "positional_args i (a # as) m = positional_args (i + 1) as (smap_insert i a m)"

definition define_function_arguments :: "string list \<Rightarrow> scope \<Rightarrow> scope" where
  "define_function_arguments arguments current_stack =
     current_stack(''*'' \<mapsto> new_array ''*'' (positional_args 1 arguments []) False)"

definition define_positional_arguments :: "string list \<Rightarrow> ('a interp, unit) act" where
  "define_positional_arguments args st =
     (if length (local_members st) < 1
      then (Inr (), define_array ''*'' (positional_args 1 args []) False st)
      else define_local_array ''*'' (positional_args 1 args []) False st)"

definition interp_shift :: "int \<Rightarrow> ('a interp, int) act" where
  "interp_shift shift_number st =
     (if shift_number < 0 then (Inr 1, st)
      else case resolve_variable st ''*'' of
        None \<Rightarrow> (Inl (Undefined_behaviour ''shift: null parameters''), st)
      | Some parameters \<Rightarrow> (case var_shift parameters (word_of_int shift_number) of
          Inl e \<Rightarrow> (Inl e, st)
        | Inr (r, parameters') \<Rightarrow> (Inr r, assign_variable ''*'' parameters' st)))"

section \<open>Functions\<close>

definition forbidden_in_function_name :: "char set" where
  "forbidden_in_function_name =
     {CHR ''$'', CHR 0x27, CHR 0x22, CHR ''('', CHR '')'', CHR '' '', CHR 0x0A, CHR 0x0D}"

definition check_function_name :: "string \<Rightarrow> bool" where
  \<comment> \<open>the pattern \<open>!digit >> ~(digits or forbidden) >> *(~forbidden)\<close>, matched as a whole\<close>
  "check_function_name name =
     (let tail_ok = (\<lambda>s. s \<noteq> [] \<and> hd s \<notin> set ''0123456789'' \<and>
                         hd s \<notin> forbidden_in_function_name \<and>
                         list_all (\<lambda>c. c \<notin> forbidden_in_function_name) (tl s))
      in tail_ok name \<or> (name \<noteq> [] \<and> hd name \<in> set ''0123456789'' \<and> tail_ok (tl name)))"

definition has_function :: "string \<Rightarrow> 'a interp \<Rightarrow> bool" where
  "has_function name st = (map_of (function_table st) name \<noteq> None)"

definition define_function :: "string \<Rightarrow> nat \<Rightarrow> ('a interp, unit) act" where
  \<comment> \<open>\<open>std::unordered_map::insert\<close> leaves an existing entry as it is\<close>
  "define_function name body_index st =
     (if \<not> check_function_name name
      then (Inl (Parse_exception (''illegal function name: '' @ name)), st)
      else case ast_stack st of
        [] \<Rightarrow> (Inl (Undefined_behaviour ''top of an empty stack''), st)
      | ast # _ \<Rightarrow>
          (Inr (), if has_function name st then st
                   else st\<lparr>function_table := function_table st @
                              [(name, \<lparr>func_ast = ast, func_index = body_index\<rparr>)]\<rparr>))"

definition unset_function :: "string \<Rightarrow> 'a interp \<Rightarrow> 'a interp" where
  "unset_function name st =
     st\<lparr>function_table := filter (\<lambda>e. fst e \<noteq> name) (function_table st)\<rparr>"

definition get_all_function_names :: "'a interp \<Rightarrow> string list" where
  \<comment> \<open>C++ leaves the order of an \<open>unordered_map\<close> open; here it is the order of definition\<close>
  "get_all_function_names st = map fst (function_table st)"

definition push_current_ast :: "'a \<Rightarrow> 'a interp \<Rightarrow> 'a interp" where
  "push_current_ast ast st = st\<lparr>ast_stack := ast # ast_stack st\<rparr>"

definition pop_current_ast :: "'a interp \<Rightarrow> 'a interp" where
  "pop_current_ast st = st\<lparr>ast_stack := tl (ast_stack st)\<rparr>"

definition interpret_with ::
  "('a \<Rightarrow> ('a interp, 'r) act) \<Rightarrow> 'a \<Rightarrow> ('a interp, 'r) act" where
  \<comment> \<open>\<open>bash_ast::interpret_with\<close>: \<open>create_walker\<close> pushes the tree and the deleter pops it\<close>
  "interpret_with walk ast st = finally_do (walk ast) pop_current_ast (push_current_ast ast st)"

definition function_call ::
  "('a \<Rightarrow> nat \<Rightarrow> ('a interp, unit) act) \<Rightarrow> 'a func \<Rightarrow> ('a interp, unit) act" where
  \<comment> \<open>\<open>function::call\<close>; the walker that executes the body at an index is the argument\<close>
  "function_call walk_body f =
     interpret_with (\<lambda>ast. walk_body ast (func_index f)) (func_ast f)"

definition call ::
  "('a \<Rightarrow> nat \<Rightarrow> ('a interp, unit) act) \<Rightarrow> string \<Rightarrow> string list \<Rightarrow> ('a interp, unit) act"
  where
  "call walk_body name arguments st = (case local_members st of
       [] \<Rightarrow> (Inl (Undefined_behaviour ''back of an empty vector''), st)
     | frame # frames \<Rightarrow>
         (let st' = st\<lparr>local_members := define_function_arguments arguments frame # frames\<rparr>
          in case map_of (function_table st') name of
               Some f \<Rightarrow> function_call walk_body f st'
             | None \<Rightarrow> (Inl (Runtime_exception (name @ '' is not defined.'')), st')))"

end
