(* ===== verification/Interpreter_Laws.thy ===== *)
theory Interpreter_Laws
  imports Interpreter
begin

text \<open>
  The invariant of the class \<open>interpreter\<close> (\<open>interp_ok\<close>: every binding stores a well-formed
  variable under its own name, and the key sets of the two option tables are those of the
  constructor), its preservation by every operation, and the laws of the symbol table: what a
  lookup returns after an assignment, a definition, an unset, and in and after a local scope.
  The locale \<open>environment\<close> is the variable interface the builtins rely on.
\<close>

section \<open>The invariant\<close>

definition scope_ok :: "scope \<Rightarrow> bool" where
  "scope_ok sc \<longleftrightarrow> (\<forall>name v. sc name = Some v \<longrightarrow> var_name v = name \<and> variable_ok v)"

definition interp_ok :: "'a interp \<Rightarrow> bool" where
  "interp_ok st \<longleftrightarrow>
     scope_ok (members st) \<and> (\<forall>frame \<in> set (local_members st). scope_ok frame) \<and>
     smap_ok (options st) \<and> map fst (options st) = map fst (smap_of_list initial_options) \<and>
     smap_ok (additional_options st) \<and>
     map fst (additional_options st) = map fst (smap_of_list initial_additional_options) \<and>
     distinct (map fst (function_table st))"

lemma scope_ok_empty [simp]: "scope_ok Map.empty"
  by (simp add: scope_ok_def)

lemma scope_ok_upd:
  "scope_ok sc \<Longrightarrow> var_name v = name \<Longrightarrow> variable_ok v \<Longrightarrow> scope_ok (sc(name \<mapsto> v))"
  by (simp add: scope_ok_def)

lemma scope_ok_del: "scope_ok sc \<Longrightarrow> scope_ok (sc(name := None))"
  by (simp add: scope_ok_def)

lemma var_name_new [simp]:
  "var_name (new_variable name v ro i) = name" "var_name (new_array name m ro) = name"
  by (simp_all add: new_variable_def new_array_def)

lemma smap_ok_of_list: "smap_ok (smap_of_list kvs)"
  unfolding smap_of_list_def by (rule smap.ok_insert_all) simp

lemma interp_ok_new: "interp_ok new_interpreter"
  by (simp add: interp_ok_def new_interpreter_def Let_def define_var_def smap_ok_of_list
      scope_ok_upd)

lemma option_keys:
  "fst ` set (smap_of_list initial_options) = set ''abefhkmnptuvxBCEHPT''"
  by (auto simp: smap_of_list_def initial_options_def keys_smap_insert)

lemma map_of_option_key:
  "interp_ok st \<Longrightarrow> map_of (options st) c = None \<longleftrightarrow> c \<notin> set ''abefhkmnptuvxBCEHPT''"
  unfolding map_of_eq_None_iff interp_ok_def option_keys [symmetric] set_map [symmetric] by simp

lemma nounset_defined: "interp_ok st \<Longrightarrow> \<exists>u. interp_get_option CHR ''u'' st = Inr u"
  using map_of_option_key[of st "CHR ''u''"] by (auto simp: interp_get_option_def split: option.splits)

lemma interp_ok_scopes:
  "interp_ok st \<Longrightarrow> scope_ok (members st) \<and> (\<forall>frame \<in> set (local_members st). scope_ok frame)"
  by (simp add: interp_ok_def)

lemma find_local_ok:
  "\<forall>frame \<in> set frames. scope_ok frame \<Longrightarrow> find_local frames name = Some v \<Longrightarrow>
     var_name v = name \<and> variable_ok v"
  by (induction frames) (auto simp: scope_ok_def split: option.splits)

lemma resolve_variable_ok:
  "interp_ok st \<Longrightarrow> resolve_variable st name = Some v \<Longrightarrow> var_name v = name \<and> variable_ok v"
  using interp_ok_scopes[of st] find_local_ok[of "local_members st" name]
  by (auto simp: resolve_variable_def scope_ok_def split: if_splits option.splits)

lemma update_frames_ok:
  "\<forall>frame \<in> set frames. scope_ok frame \<Longrightarrow> var_name v = name \<Longrightarrow> variable_ok v \<Longrightarrow>
   update_frames name v frames = Some frames' \<Longrightarrow> \<forall>frame \<in> set frames'. scope_ok frame"
  by (induction frames arbitrary: frames') (auto simp: scope_ok_upd split: option.splits)

lemma interp_ok_members:
  "interp_ok st \<Longrightarrow> scope_ok g \<Longrightarrow> interp_ok (st\<lparr>members := g\<rparr>)"
  by (simp add: interp_ok_def)

lemma interp_ok_frames:
  "interp_ok st \<Longrightarrow> \<forall>frame \<in> set frames. scope_ok frame \<Longrightarrow>
     interp_ok (st\<lparr>local_members := frames\<rparr>)"
  by (simp add: interp_ok_def)

lemma interp_ok_assign:
  "interp_ok st \<Longrightarrow> var_name v = name \<Longrightarrow> variable_ok v \<Longrightarrow>
     interp_ok (assign_variable name v st)"
  using interp_ok_scopes[of st] update_frames_ok[of "local_members st" v name]
  by (auto simp: assign_variable_def scope_ok_upd
      intro!: interp_ok_members interp_ok_frames split: option.splits)

lemma interp_ok_define_var: "interp_ok st \<Longrightarrow> interp_ok (define_var name v ro i st)"
  using interp_ok_scopes[of st] by (simp add: define_var_def interp_ok_members scope_ok_upd)

lemma interp_ok_define_array:
  "interp_ok st \<Longrightarrow> smap_ok m \<Longrightarrow> interp_ok (define_array name m ro st)"
  using interp_ok_scopes[of st]
  by (simp add: define_array_def interp_ok_members scope_ok_upd variable_ok_new_array)

lemma smap_ok_positional_args: "smap_ok m \<Longrightarrow> smap_ok (positional_args i as m)"
  by (induction i "as" m rule: positional_args.induct) (auto simp: smap_ok_insert)

lemma keeps_set_value [keeps_intros]: "keeps interp_ok (set_value name v i)"
  unfolding keeps_def
proof (intro allI impI)
  fix st :: "'a interp"
  assume ok: "interp_ok st"
  show "interp_ok (snd (set_value name v i st))"
  proof (cases "resolve_variable st name")
    case None
    with ok show ?thesis by (simp add: set_value_def interp_ok_define_var)
  next
    case (Some var)
    with ok have "var_name var = name" "variable_ok var" by (auto dest: resolve_variable_ok)
    with ok Some show ?thesis
      using var_name_preserved(1) variable_ok_set
      by (fastforce simp: set_value_def intro!: interp_ok_assign split: sum.splits)
  qed
qed

lemma keeps_define_local [keeps_intros]: "keeps interp_ok (define_local name v ro i)"
  using interp_ok_scopes
  by (fastforce simp: keeps_def define_local_def scope_ok_upd
      intro!: interp_ok_frames split: list.splits)

lemma keeps_define_local_array [keeps_intros]:
  "smap_ok m \<Longrightarrow> keeps interp_ok (define_local_array name m ro)"
  using interp_ok_scopes
  by (fastforce simp: keeps_def define_local_array_def scope_ok_upd variable_ok_new_array
      intro!: interp_ok_frames split: list.splits)

lemma interp_ok_push: "interp_ok st \<Longrightarrow> interp_ok (push_scope st)"
  by (simp add: push_scope_def interp_ok_def)

lemma interp_ok_pop: "interp_ok st \<Longrightarrow> interp_ok (pop_scope st)"
  by (auto simp: pop_scope_def interp_ok_def dest: list.set_sel(2) [rotated])
     (metis list.set_sel(2) tl_Nil)

lemma keeps_with_local_scope [keeps_intros]:
  "keeps interp_ok m \<Longrightarrow> keeps interp_ok (with_local_scope m)"
  by (auto simp: keeps_def with_local_scope_def interp_ok_push interp_ok_pop)

lemma unset_in_scope_ok:
  "scope_ok sc \<Longrightarrow> unset_in_scope name sc = Inr (b, sc') \<Longrightarrow> scope_ok sc'"
  by (auto simp: unset_in_scope_def scope_ok_del split: option.splits if_splits)

lemma unset_in_frames_ok:
  "\<forall>frame \<in> set frames. scope_ok frame \<Longrightarrow> unset_in_frames name frames = Inr (b, frames') \<Longrightarrow>
     \<forall>frame \<in> set frames'. scope_ok frame"
proof (induction frames arbitrary: b frames')
  case Nil
  then show ?case by simp
next
  case (Cons frame frames)
  then show ?case
    by (auto split: if_splits prod.splits dest: unset_in_scope_ok)
qed

lemma keeps_unset [keeps_intros]: "keeps interp_ok (unset name)"
  unfolding keeps_def
proof (intro allI impI)
  fix st :: "'a interp"
  assume ok: "interp_ok st"
  show "interp_ok (snd (unset name st))"
  proof (cases "unset_in_frames name (local_members st)")
    case (Inl e)
    with ok show ?thesis by (simp add: unset_def split: sum.split)
  next
    case (Inr r)
    obtain found frames where r: "r = (found, frames)" by force
    have "\<forall>frame \<in> set frames. scope_ok frame"
      using interp_ok_scopes[OF ok] Inr r unset_in_frames_ok by blast
    with ok have frames_ok: "interp_ok (st\<lparr>local_members := frames\<rparr>)"
      by (simp add: interp_ok_frames)
    have "interp_ok (st\<lparr>members := g\<rparr>)" if "unset_in_scope name (members st) = Inr (b, g)" for b g
      using interp_ok_scopes[OF ok] unset_in_scope_ok that ok by (blast intro: interp_ok_members)
    with ok frames_ok Inr r show ?thesis
      by (simp add: unset_def split: sum.split prod.split bool.split)
  qed
qed

lemma keeps_unset_element [keeps_intros]: "keeps interp_ok (unset_element name i)"
  using resolve_variable_ok var_name_preserved(2) variable_ok_unset
  by (auto simp: keeps_def unset_element_def intro!: interp_ok_assign
      split: sum.split option.split) blast+

lemma keeps_define_positional [keeps_intros]:
  "keeps interp_ok (define_positional_arguments args)"
  unfolding define_positional_arguments_def keeps_def
  by (simp add: interp_ok_define_array smap_ok_positional_args
      keepsD[OF keeps_define_local_array])

lemma keeps_shift [keeps_intros]: "keeps interp_ok (interp_shift n)"
  using resolve_variable_ok var_name_preserved(3) variable_ok_shift
  by (auto simp: keeps_def interp_shift_def intro!: interp_ok_assign
      split: sum.split option.split prod.split) blast+

lemma keeps_interp_set_option [keeps_intros]: "keeps interp_ok (interp_set_option c b)"
proof -
  have "map fst (smap_insert c b m) = map fst m" if "smap_ok m" "map_of m c \<noteq> None" for m
    using that by (intro smap_insert_present_keys) (auto simp: map_of_eq_None_iff)
  then show ?thesis
    by (auto simp: keeps_def interp_set_option_def interp_ok_def smap_ok_insert split: option.splits)
qed

lemma keeps_set_additional_option [keeps_intros]: "keeps interp_ok (set_additional_option c b)"
proof -
  have "map fst (smap_insert c b m) = map fst m" if "smap_ok m" "map_of m c \<noteq> None" for m
    using that by (intro smap_insert_present_keys) (auto simp: map_of_eq_None_iff)
  then show ?thesis
    by (auto simp: keeps_def set_additional_option_def interp_ok_def smap_ok_insert
        split: option.splits)
qed

lemma keeps_define_function [keeps_intros]: "keeps interp_ok (define_function name i)"
  by (auto simp: keeps_def define_function_def has_function_def interp_ok_def
      map_of_eq_None_iff split: list.splits)

lemma interp_ok_unset_function: "interp_ok st \<Longrightarrow> interp_ok (unset_function name st)"
  by (simp add: interp_ok_def unset_function_def distinct_map_filter)

lemma interp_ok_ast_stack:
  "interp_ok st \<Longrightarrow> interp_ok (push_current_ast a st)"
  "interp_ok st \<Longrightarrow> interp_ok (pop_current_ast st)"
  by (simp_all add: interp_ok_def push_current_ast_def pop_current_ast_def)

lemmas stream_defs = set_status_def set_output_stream_def restore_output_stream_def
  set_error_stream_def set_input_stream_def emit_def

lemma interp_ok_streams:
  "interp_ok st \<Longrightarrow> interp_ok (set_status n st)"
  "interp_ok st \<Longrightarrow> interp_ok (set_output_stream o' st)"
  "interp_ok st \<Longrightarrow> interp_ok (restore_output_stream st)"
  "interp_ok st \<Longrightarrow> interp_ok (set_error_stream o' st)"
  "interp_ok st \<Longrightarrow> interp_ok (set_input_stream i' st)"
  "interp_ok st \<Longrightarrow> interp_ok (emit o' text st)"
  by (simp_all add: interp_ok_def stream_defs)

lemma keeps_emit [keeps_intros]: "keeps interp_ok (modify (emit o' text))"
  by (simp add: keeps_def interp_ok_streams)

lemma keeps_interpret_with [keeps_intros]:
  "keeps interp_ok (walk ast) \<Longrightarrow> keeps interp_ok (interpret_with walk ast)"
  by (auto simp: keeps_def interpret_with_def interp_ok_ast_stack)

lemma keeps_call [keeps_intros]:
  assumes "\<And>ast i. keeps interp_ok (walk ast i)"
  shows "keeps interp_ok (call walk name args)"
proof -
  have "interp_ok (st\<lparr>local_members := define_function_arguments args frame # frames\<rparr>)"
    if "interp_ok st" "local_members st = frame # frames" for st :: "'a interp" and frame frames
    using that
    by (auto simp: interp_ok_def define_function_arguments_def
        intro!: scope_ok_upd variable_ok_new_array smap_ok_positional_args)
  with assms show ?thesis
    unfolding call_def function_call_def
    by (auto simp: keeps_def Let_def interpret_with_def interp_ok_ast_stack
        split: list.splits option.splits)
qed

section \<open>Lookup after an assignment\<close>

lemma update_frames_None_iff:
  "update_frames name v frames = None \<longleftrightarrow> find_local frames name = None"
  by (induction frames) (auto split: option.splits)

lemma find_update_frames:
  "update_frames name v frames = Some frames' \<Longrightarrow>
     find_local frames' x = (if x = name then Some v else find_local frames x)"
  by (induction frames arbitrary: frames') (auto split: option.splits)

lemma length_update_frames:
  "update_frames name v frames = Some frames' \<Longrightarrow> length frames' = length frames"
  by (induction frames arbitrary: frames') (auto split: option.splits)

lemma resolve_assign:
  "name \<noteq> [] \<Longrightarrow> resolve_variable (assign_variable name v st) x =
     (if x = name then Some v else resolve_variable st x)"
  by (auto simp: resolve_variable_def assign_variable_def find_update_frames
      update_frames_None_iff split: option.splits)

lemma resolve_define_var:
  "resolve_variable st name = None \<Longrightarrow> name \<noteq> [] \<Longrightarrow>
     resolve_variable (define_var name v ro i st) x =
       (if x = name then Some (new_variable name v ro i) else resolve_variable st x)"
  by (auto simp: resolve_variable_def define_var_def split: if_splits option.splits)

lemma resolve_define_local:
  "define_local name v ro i st = (Inr (), st') \<Longrightarrow> name \<noteq> [] \<Longrightarrow>
     resolve_variable st' x =
       (if x = name then Some (new_variable name v ro i) else resolve_variable st x)"
  by (auto simp: resolve_variable_def define_local_def split: list.splits option.splits)

lemma resolve_empty [simp]: "resolve_variable st [] = None"
  by (simp add: resolve_variable_def)

lemma set_value_error:
  "set_value name v i st = (Inl e, t) \<Longrightarrow>
     t = st \<and> (\<exists>w. resolve_variable st name = Some w \<and> var_readonly w \<and> e = readonly_error w)"
  by (auto simp: set_value_def var_set_value_def split: option.splits if_splits)

lemma set_value_writable:
  "(\<forall>w. resolve_variable st name = Some w \<longrightarrow> \<not> var_readonly w) \<Longrightarrow>
     \<exists>t. set_value name v i st = (Inr v, t)"
  by (auto simp: set_value_def var_set_value_def split: option.splits)

lemma set_value_other:
  "set_value name v i st = (r, t) \<Longrightarrow> x \<noteq> name \<Longrightarrow> resolve_variable t x = resolve_variable st x"
proof (cases "name = []")
  case True
  assume "set_value name v i st = (r, t)" "x \<noteq> name"
  with True show ?thesis
    by (auto simp: set_value_def resolve_variable_def define_var_def split: option.split)
next
  case False
  assume "set_value name v i st = (r, t)" "x \<noteq> name"
  with False show ?thesis
    by (auto simp: set_value_def resolve_assign resolve_define_var
        split: option.splits sum.splits)
qed

lemma set_value_same:
  assumes "interp_ok st" "name \<noteq> []" "set_value name v i st = (Inr r, t)"
  shows "\<exists>w. resolve_variable t name = Some w \<and> \<not> var_readonly w \<and>
     (\<forall>j. map_of (var_value w) j =
        (if j = i then Some v
         else case resolve_variable st name of
                None \<Rightarrow> None | Some u \<Rightarrow> map_of (var_value u) j))"
proof (cases "resolve_variable st name")
  case None
  with assms show ?thesis
    by (auto simp: set_value_def resolve_define_var new_variable_def)
next
  case (Some u)
  with assms obtain w where w: "var_set_value u v i = Inr w" "t = assign_variable name w st"
    by (auto simp: set_value_def split: sum.splits)
  have "variable_ok u" using assms(1) Some by (auto dest: resolve_variable_ok)
  with w Some assms(2) show ?thesis
    by (auto simp: resolve_assign set_value_find dest: var_name_preserved(1))
qed

section \<open>The variable interface of the builtins\<close>

text \<open>
  What the builtins that write variables (read, printf -v, inherit, export) use: a lookup and an
  assignment, and what the one promises about the other.
\<close>

locale environment =
  fixes lookup :: "'s \<Rightarrow> string \<Rightarrow> variable option"
    and store :: "string \<Rightarrow> bvalue \<Rightarrow> uint \<Rightarrow> ('s, bvalue) act"
    and ok :: "'s \<Rightarrow> bool"
  assumes store_keeps: "keeps ok (store n v i)"
    and store_same: "ok s \<Longrightarrow> n \<noteq> [] \<Longrightarrow> store n v i s = (Inr r, t) \<Longrightarrow>
      \<exists>w. lookup t n = Some w \<and> \<not> var_readonly w \<and> map_of (var_value w) i = Some v"
    and store_other: "store n v i s = (q, t) \<Longrightarrow> x \<noteq> n \<Longrightarrow> lookup t x = lookup s x"
    and store_error: "store n v i s = (Inl e, t) \<Longrightarrow>
      t = s \<and> (\<exists>w. lookup s n = Some w \<and> var_readonly w \<and> e = readonly_error w)"
    and store_writable: "(\<forall>w. lookup s n = Some w \<longrightarrow> \<not> var_readonly w) \<Longrightarrow>
      \<exists>t. store n v i s = (Inr v, t)"
begin

lemma store_step:
  assumes "ok s" "n \<noteq> []" "\<forall>w. lookup s n = Some w \<longrightarrow> \<not> var_readonly w"
  obtains t w where "store n v i s = (Inr v, t)" "ok t" "lookup t n = Some w"
    "\<not> var_readonly w" "map_of (var_value w) i = Some v"
    "\<And>x. x \<noteq> n \<Longrightarrow> lookup t x = lookup s x"
proof -
  obtain t where t: "store n v i s = (Inr v, t)" using store_writable assms(3) by blast
  moreover have "ok t" using keepsD[OF store_keeps assms(1)] t by (metis snd_conv)
  ultimately show ?thesis using that store_same[OF assms(1,2) t] store_other[OF t] by blast
qed

lemma store_all:
  assumes "ok s"
    and "\<And>n. n \<in> fst ` set kvs \<Longrightarrow>
      n \<noteq> [] \<and> (\<forall>w. lookup s n = Some w \<longrightarrow> \<not> var_readonly w)"
  shows "\<exists>t. for_each kvs (\<lambda>(n, v). andthen (store n v 0) (\<lambda>_. ret ())) s = (Inr (), t) \<and> ok t \<and>
     (\<forall>x. case map_of (rev kvs) x of
            None \<Rightarrow> lookup t x = lookup s x
          | Some v \<Rightarrow> \<exists>w. lookup t x = Some w \<and> \<not> var_readonly w \<and>
                           map_of (var_value w) 0 = Some v)"
  using assms
proof (induction kvs arbitrary: s)
  case Nil
  then show ?case by simp
next
  case (Cons kv kvs)
  obtain n v where kv: "kv = (n, v)" by force
  from Cons.prems(2)[of n] kv have "n \<noteq> []" "\<forall>w. lookup s n = Some w \<longrightarrow> \<not> var_readonly w"
    by auto
  then obtain t w where t: "store n v 0 s = (Inr v, t)" "ok t" "lookup t n = Some w"
    "\<not> var_readonly w" "map_of (var_value w) 0 = Some v"
    "\<And>x. x \<noteq> n \<Longrightarrow> lookup t x = lookup s x"
    using store_step[OF Cons.prems(1)] by metis
  have "n' \<noteq> [] \<and> (\<forall>w. lookup t n' = Some w \<longrightarrow> \<not> var_readonly w)" if "n' \<in> fst ` set kvs" for n'
    using Cons.prems(2)[of n'] that t by (cases "n' = n") auto
  from Cons.IH[OF t(2) this] obtain t' where
    t': "for_each kvs (\<lambda>(n, v). andthen (store n v 0) (\<lambda>_. ret ())) t = (Inr (), t')" "ok t'"
      "\<And>x. case map_of (rev kvs) x of
            None \<Rightarrow> lookup t' x = lookup t x
          | Some v \<Rightarrow> \<exists>w. lookup t' x = Some w \<and> \<not> var_readonly w \<and>
                           map_of (var_value w) 0 = Some v"
    by blast
  have "for_each (kv # kvs) (\<lambda>(n, v). andthen (store n v 0) (\<lambda>_. ret ())) s = (Inr (), t')"
    using t(1) t'(1) by (simp add: kv andthen_def)
  moreover have "case map_of (rev (kv # kvs)) x of
            None \<Rightarrow> lookup t' x = lookup s x
          | Some v \<Rightarrow> \<exists>w. lookup t' x = Some w \<and> \<not> var_readonly w \<and>
                           map_of (var_value w) 0 = Some v" for x
    using t'(3)[of x] t by (auto simp: kv split: option.splits if_splits)
  ultimately show ?case using t'(2) by blast
qed

end

interpretation walker: environment resolve_variable set_value interp_ok
proof unfold_locales
  fix s t :: "'a interp" and n v i r
  assume "interp_ok s" "n \<noteq> []" "set_value n v i s = (Inr r, t)"
  then show "\<exists>w. resolve_variable t n = Some w \<and> \<not> var_readonly w \<and>
      map_of (var_value w) i = Some v"
    using set_value_same by fastforce
qed (use set_value_other set_value_error set_value_writable keeps_set_value in \<open>blast+\<close>)

end
