(* ===== verification/Bash_Ast.thy ===== *)
theory Bash_Ast
  imports Interpreter_Laws
begin

text \<open>
  src/core/bash_ast.h and bash_ast.cpp: from the text of a script to a syntax tree and its
  interpretation, and the token listing. The lexer, parser and tree walker that ANTLR generates
  from the grammars, and the files of the system, are the fields of the record \<open>antlr\<close>, the
  parameter \<open>W\<close> of what uses them. Running out of memory is not modelled.
\<close>

section \<open>Generated code\<close>

datatype parser_rule =
    Parser_start
  | Parser_arithmetics
  | Parser_all_expansions
  | Parser_builtin_variable_definitions bool

text \<open>
  \<^item> \<open>antlr_parse rule script\<close>: the syntax tree and the number of syntax errors;
  \<^item> \<open>walker_start\<close>, \<open>walker_arithmetics\<close>, \<open>walker_string_expr\<close>: the walker rules of
    those names on a tree;
  \<^item> \<open>walker_compound_command\<close>: the walker rule at the node with the given index
    (\<open>bash_ast::call_function\<close>);
  \<^item> \<open>file_text\<close>: the content of a file that can be opened.
\<close>

record 'a antlr =
  antlr_parse :: "parser_rule \<Rightarrow> string \<Rightarrow> ('a \<times> nat) res"
  walker_start :: "'a \<Rightarrow> ('a interp, unit) act"
  walker_arithmetics :: "'a \<Rightarrow> ('a interp, c_long) act"
  walker_string_expr :: "'a \<Rightarrow> ('a interp, string) act"
  walker_compound_command :: "'a \<Rightarrow> nat \<Rightarrow> ('a interp, unit) act"
  file_text :: "string \<Rightarrow> string option"

section \<open>Reading and parsing a script\<close>

definition read_script :: "boost \<Rightarrow> string \<Rightarrow> bool \<Rightarrow> string" where
  "read_script B source trim =
     (let script = erase_all B [CHR 0x5C, newline] source
      in if trim then trim_any B [CHR '' '', CHR 0x09, newline] script else script)"

definition init_parser :: "'a antlr \<Rightarrow> parser_rule \<Rightarrow> string \<Rightarrow> 'a res" where
  "init_parser W rule script =
     (if 2 ^ 32 \<le> length script then Inl Bad_numeric_cast
      else bind_res (antlr_parse W rule script) (\<lambda>(tree, errors).
        if errors \<noteq> 0
        then Inl (Parse_exception ''Something wrong happened while parsing'')
        else Inr tree))"

definition ast_of_stream ::
  "boost \<Rightarrow> 'a antlr \<Rightarrow> string \<Rightarrow> parser_rule \<Rightarrow> bool \<Rightarrow> 'a res" where
  "ast_of_stream B W source p trim = init_parser W p (read_script B source trim)"

definition ast_of_file ::
  "boost \<Rightarrow> 'a antlr \<Rightarrow> string \<Rightarrow> parser_rule \<Rightarrow> bool \<Rightarrow> 'a res" where
  "ast_of_file B W script_path p trim = (case file_text W script_path of
       None \<Rightarrow> Inl (Parse_exception (script_path @ '' can't be read''))
     | Some source \<Rightarrow> init_parser W p (read_script B source trim))"

definition interpret_ast :: "'a res \<Rightarrow> ('a \<Rightarrow> ('a interp, 'r) act) \<Rightarrow> ('a interp, 'r) act" where
  \<comment> \<open>\<open>bash_ast ast(...); ast.interpret_with(walker, walk)\<close>\<close>
  "interpret_ast made walk st = (case made of
       Inl e \<Rightarrow> (Inl e, st) | Inr ast \<Rightarrow> interpret_with walk ast st)"

definition eval_arithmetic :: "boost \<Rightarrow> 'a antlr \<Rightarrow> string \<Rightarrow> ('a interp, c_long) act" where
  "eval_arithmetic B W expression =
     interpret_ast (ast_of_stream B W expression Parser_arithmetics True) (walker_arithmetics W)"

definition walkers_keep :: "('a interp \<Rightarrow> bool) \<Rightarrow> 'a antlr \<Rightarrow> bool" where
  \<comment> \<open>an invariant that every rule of the generated walker keeps\<close>
  "walkers_keep I W \<longleftrightarrow>
     (\<forall>ast. keeps I (walker_start W ast)) \<and> (\<forall>ast. keeps I (walker_arithmetics W ast)) \<and>
     (\<forall>ast. keeps I (walker_string_expr W ast)) \<and>
     (\<forall>ast i. keeps I (walker_compound_command W ast i))"

lemma keeps_interpret_ast [keeps_intros]:
  "(\<And>ast. keeps interp_ok (walk ast)) \<Longrightarrow> keeps interp_ok (interpret_ast made walk)"
  using keeps_interpret_with[of walk]
  by (auto simp: keeps_def interpret_ast_def split: sum.split)

lemma keeps_eval_arithmetic [keeps_intros]:
  "walkers_keep interp_ok W \<Longrightarrow> keeps interp_ok (eval_arithmetic B W expression)"
  unfolding eval_arithmetic_def by (rule keeps_interpret_ast) (simp add: walkers_keep_def)

lemma interpret_ast_stack:
  "(\<And>ast s. ast_stack (snd (walk ast s)) = ast_stack s) \<Longrightarrow>
     ast_stack (snd (interpret_ast made walk st)) = ast_stack st"
  by (simp add: interpret_ast_def interpret_with_def push_current_ast_def pop_current_ast_def
      split: sum.split)

section \<open>The token listing\<close>

record token =
  token_type :: nat
  token_text :: string

definition print_line_counter :: "string \<Rightarrow> nat \<Rightarrow> nat \<Rightarrow> string \<times> nat" where
  \<comment> \<open>what is printed and the new counter, for each newline of the text from \<open>pos\<close> on\<close>
  "print_line_counter text line_counter pos =
     (let n = length (takeWhile (\<lambda>c. c = newline) (drop pos text))
      in (concat (map (\<lambda>k. [newline] @ decimal k @ [CHR 0x09])
            [line_counter ..< line_counter + n]), line_counter + n))"

fun print_tokens :: "(nat \<Rightarrow> string) \<Rightarrow> token list \<Rightarrow> nat \<Rightarrow> string" where
  "print_tokens token_map [] line_counter = []"
| "print_tokens token_map (t # ts) line_counter =
     (let name = token_map (token_type t)
      in if name \<noteq> ''EOL'' \<and> name \<noteq> ''COMMENT'' \<and> name \<noteq> ''CONTINUE_LINE''
         then name @ '' '' @ print_tokens token_map ts line_counter
         else if name = ''COMMENT''
         then (case print_line_counter (token_text t) line_counter 0 of (out, n) \<Rightarrow>
                 out @ name @ print_tokens token_map ts n)
         else if ts \<noteq> []
         then (case print_line_counter (token_text t) line_counter
                      (if name = ''CONTINUE_LINE'' then 1 else 0) of (out, n) \<Rightarrow>
                 name @ out @ print_tokens token_map ts n)
         else print_tokens token_map ts line_counter)"

definition get_parser_tokens :: "token list \<Rightarrow> (nat \<Rightarrow> string) \<Rightarrow> string" where
  "get_parser_tokens token_list token_map =
     decimal 1 @ [CHR 0x09] @ print_tokens token_map token_list 2"

datatype stream_token = Down | Up | Node nat

definition get_walker_tokens :: "stream_token list \<Rightarrow> (nat \<Rightarrow> string) \<Rightarrow> string" where
  \<comment> \<open>\<open>Down\<close> and \<open>Up\<close> are the token types 2 and 3 of the tree node stream\<close>
  "get_walker_tokens nodes token_map =
     concat (map (\<lambda>t. case t of Down \<Rightarrow> ''DOWN '' | Up \<Rightarrow> ''UP '' | Node k \<Rightarrow> token_map k @ '' '')
       nodes) @ [newline]"

fun numbered_from :: "nat \<Rightarrow> string \<Rightarrow> bool" where
  \<comment> \<open>every newline of the text starts a line that begins with its number and a tab\<close>
  "numbered_from n [] = True"
| "numbered_from n (c # cs) =
     (if c = newline
      then take (length (decimal n) + 1) cs = decimal n @ [CHR 0x09] \<and> numbered_from (n + 1) cs
      else numbered_from n cs)"

lemma numbered_plain: "newline \<notin> set s \<Longrightarrow> numbered_from n (s @ t) = numbered_from n t"
  by (induction s) auto

lemma numbered_counter:
  "numbered_from n (concat (map (\<lambda>k. [newline] @ decimal k @ [CHR 0x09]) [n ..< n + m]) @ t) =
     numbered_from (n + m) t"
proof (induction m arbitrary: n)
  case 0
  then show ?case by simp
next
  case (Suc m)
  have tab: "newline \<noteq> CHR 0x09" by (simp add: newline_def)
  have "[n ..< n + Suc m] = n # [n + 1 ..< n + 1 + m]" by (simp add: upt_conv_Cons)
  then show ?case
    using numbered_plain[of "decimal n @ [CHR 0x09]" "n + 1"] Suc[of "n + 1"] tab
    by (simp add: decimal_no_newline)
qed

lemma numbered_line_counter:
  "print_line_counter text n pos = (out, m) \<Longrightarrow> numbered_from n (out @ t) = numbered_from m t"
  unfolding print_line_counter_def Let_def by (elim Pair_inject, hypsubst) (rule numbered_counter)

lemma numbered_print_tokens:
  assumes plain: "\<And>k. newline \<notin> set (token_map k)"
  shows "numbered_from n (print_tokens token_map ts n)"
proof (induction ts arbitrary: n)
  case Nil
  then show ?case by simp
next
  case (Cons t ts)
  let ?name = "token_map (token_type t)"
  have name: "numbered_from m (?name @ u) = numbered_from m u" for m u
    using numbered_plain[OF plain] .
  consider (word) "?name \<notin> {''EOL'', ''COMMENT'', ''CONTINUE_LINE''}"
    | (comment) "?name = ''COMMENT''"
    | (eol) "?name \<noteq> ''COMMENT''" "?name \<in> {''EOL'', ''CONTINUE_LINE''}" by blast
  then show ?case
  proof cases
    case word
    then show ?thesis
      using numbered_plain[of "?name @ '' ''" n] plain Cons[of n] by (simp add: newline_def)
  next
    case comment
    obtain out m where c: "print_line_counter (token_text t) n 0 = (out, m)" by force
    have "print_tokens token_map (t # ts) n = out @ ?name @ print_tokens token_map ts m"
      using comment c by (simp add: Let_def)
    then show ?thesis using numbered_line_counter[OF c] name Cons by simp
  next
    case eol
    obtain out m where c: "print_line_counter (token_text t) n
        (if ?name = ''CONTINUE_LINE'' then 1 else 0) = (out, m)" by force
    then have "print_tokens token_map (t # ts) n =
        (if ts \<noteq> [] then ?name @ out @ print_tokens token_map ts m else [])"
      using eol by (auto simp: Let_def)
    then show ?thesis using numbered_line_counter[OF c] name Cons by simp
  qed
qed

text \<open>In the token listing of any script the lines are numbered 1, 2, 3, ...
  without a gap, each beginning with its number and a tab, whatever mixture of end-of-line,
  comment and line-continuation tokens breaks the lines.\<close>

theorem parser_tokens_numbered:
  assumes "\<And>k. newline \<notin> set (token_map k)"
  shows "numbered_from 1 (newline # get_parser_tokens token_list token_map)"
proof -
  have "newline \<notin> set (decimal 1 @ [CHR 0x09])" using decimal_no_newline by (simp add: newline_def)
  from numbered_plain[OF this, of 2] numbered_print_tokens[of token_map 2 token_list] assms
  show ?thesis by (simp add: get_parser_tokens_def numeral_2_eq_2)
qed

theorem parser_tokens_numbered_witness:
  "numbered_from 1 (newline # get_parser_tokens
     [\<lparr>token_type = 0, token_text = ''x''\<rparr>, \<lparr>token_type = 1, token_text = [newline, newline]\<rparr>,
      \<lparr>token_type = 0, token_text = ''y''\<rparr>] (\<lambda>k. if k = 0 then ''NAME'' else ''EOL''))"
  by (rule parser_tokens_numbered) (simp add: newline_def)

end
