(* ===== verification/Escapes.thy ===== *)
theory Escapes
  imports Prelude
begin

text \<open>
  src/cppbash_builtin.cpp: \<open>transform_escapes\<close>, the backslash escapes of echo, printf and
  read. The Spirit grammar in the source is an ordered choice at each position; \<open>escape_step\<close>
  is one round of it and \<open>transform_escapes\<close> its repetition. The semantic actions write to the
  output stream as each alternative succeeds, so the result is the text written and whether the
  repetition was left by \<open>suppress_output\<close>.
\<close>

section \<open>The grammar\<close>

definition backslash :: char where
  "backslash = CHR 0x5C"

definition digit_in_base :: "nat \<Rightarrow> char \<Rightarrow> nat option" where
  "digit_in_base base c =
     (let n = of_char c :: nat;
          d = (if 48 \<le> n \<and> n \<le> 57 then n - 48
               else if 97 \<le> n \<and> n \<le> 122 then n - 87
               else if 65 \<le> n \<and> n \<le> 90 then n - 55 else 36)
      in if d < base then Some d else None)"

definition uint_parser :: "nat \<Rightarrow> nat \<Rightarrow> string \<Rightarrow> (nat \<times> string) option" where
  \<comment> \<open>\<open>qi::uint_parser<unsigned, base, 1, max_digits>\<close>: the number and the rest of the input\<close>
  "uint_parser base max_digits s =
     (let ds = takeWhile (\<lambda>c. digit_in_base base c \<noteq> None) (take max_digits s)
      in if ds = [] then None
         else Some (foldl (\<lambda>n c. base * n + the (digit_in_base base c)) 0 ds, drop (length ds) s))"

definition simple_escape :: "bool \<Rightarrow> char \<Rightarrow> string option" where
  "simple_escape ansi_c c =
     map_of [(CHR ''a'', [CHR 0x07]), (CHR ''b'', [CHR 0x08]), (CHR ''e'', [CHR 0x1B]),
             (CHR ''E'', [CHR 0x1B]), (CHR ''f'', [CHR 0x0C]), (CHR ''n'', [CHR 0x0A]),
             (CHR ''r'', [CHR 0x0D]), (CHR ''t'', [CHR 0x09]), (CHR ''v'', [CHR 0x0B]),
             (CHR 0x27, if ansi_c then [CHR 0x27] else [backslash, CHR 0x27]),
             (CHR 0x22, if ansi_c then [CHR 0x22] else [backslash, CHR 0x22]),
             (backslash, [backslash])] c"

definition numeric_escape :: "char \<Rightarrow> string \<Rightarrow> (nat \<times> string) option" where
  "numeric_escape c cs =
     (if c = CHR ''0'' then uint_parser 8 3 cs
      else if c = CHR ''x'' then uint_parser 16 2 cs else None)"

definition escape_step :: "bool \<Rightarrow> char \<Rightarrow> string \<Rightarrow> (string \<times> string) option" where
  \<comment> \<open>what is written and what is left to parse; \<open>None\<close> when \<open>suppress_output\<close> is thrown\<close>
  "escape_step ansi_c c cs =
     (if c \<noteq> backslash \<or> cs = [] then Some ([c], cs)
      else (case simple_escape ansi_c (hd cs) of
          Some out \<Rightarrow> Some (out, tl cs)
        | None \<Rightarrow>
            if hd cs = CHR ''c'' then None
            else (case numeric_escape (hd cs) (tl cs) of
                Some (n, rest) \<Rightarrow> Some ([char_of n], rest)
              | None \<Rightarrow> Some ([c], cs))))"

lemma length_uint_parser: "uint_parser b m s = Some (n, rest) \<Longrightarrow> length rest \<le> length s"
  by (auto simp: uint_parser_def Let_def split: if_splits)

lemma length_escape_step: "escape_step a c cs = Some (out, rest) \<Longrightarrow> length rest \<le> length cs"
  by (auto simp: escape_step_def numeric_escape_def dest!: length_uint_parser
      split: if_splits option.splits)

function transform_escapes :: "bool \<Rightarrow> string \<Rightarrow> string \<times> bool" where
  "transform_escapes ansi_c [] = ([], False)"
| "transform_escapes ansi_c (c # cs) = (case escape_step ansi_c c cs of
       None \<Rightarrow> ([], True)
     | Some (out, rest) \<Rightarrow> (case transform_escapes ansi_c rest of (text, stop) \<Rightarrow> (out @ text, stop)))"
  by pat_completeness auto
termination
  by (relation "measure (\<lambda>(a, s). length s)") (auto dest: length_escape_step)

section \<open>Ways to write a character\<close>

definition octal_escape :: "char \<Rightarrow> string" where
  "octal_escape c = (let n = of_char c :: nat in
     [backslash, CHR ''0'', char_of (48 + n div 64), char_of (48 + n div 8 mod 8),
      char_of (48 + n mod 8)])"

definition hex_digit :: "nat \<Rightarrow> char" where
  "hex_digit d = char_of (if d < 10 then 48 + d else 87 + d)"

definition hex_escape :: "char \<Rightarrow> string" where
  "hex_escape c = (let n = of_char c :: nat in
     [backslash, CHR ''x'', hex_digit (n div 16), hex_digit (n mod 16)])"

definition double_backslash :: "char \<Rightarrow> string" where
  "double_backslash c = (if c = backslash then [backslash, backslash] else [c])"

lemma digit_octal: "d < 8 \<Longrightarrow> digit_in_base 8 (char_of (48 + d)) = Some d"
proof -
  assume d: "d < 8"
  then have "of_char (char_of (48 + d)) = 48 + d" by simp
  then show ?thesis using d unfolding digit_in_base_def Let_def by simp
qed

lemma digit_hex: "d < 16 \<Longrightarrow> digit_in_base 16 (hex_digit d) = Some d"
proof -
  assume d: "d < 16"
  then have "of_char (hex_digit d) = (if d < 10 then 48 + d else 87 + d)"
    by (simp add: hex_digit_def)
  then show ?thesis using d unfolding digit_in_base_def Let_def by simp
qed

lemma uint_octal:
  "p < 8 \<Longrightarrow> q < 8 \<Longrightarrow> r < 8 \<Longrightarrow>
     uint_parser 8 3 (char_of (48 + p) # char_of (48 + q) # char_of (48 + r) # t) =
       Some (64 * p + 8 * q + r, t)"
  by (simp add: uint_parser_def digit_octal Let_def)

lemma uint_hex:
  "p < 16 \<Longrightarrow> q < 16 \<Longrightarrow>
     uint_parser 16 2 (hex_digit p # hex_digit q # t) = Some (16 * p + q, t)"
  by (simp add: uint_parser_def digit_hex Let_def)

lemma step_numeric:
  assumes "numeric_escape d cs = Some (n, rest)" "d \<in> {CHR ''0'', CHR ''x''}"
  shows "escape_step a backslash (d # cs) = Some ([char_of n], rest)"
proof -
  have "simple_escape a CHR ''0'' = None" "simple_escape a CHR ''x'' = None"
    by (simp_all add: simple_escape_def backslash_def)
  then have "simple_escape a d = None" "d \<noteq> CHR ''c''" using assms(2) by fastforce+
  then show ?thesis using assms(1) by (simp add: escape_step_def)
qed

lemma step_octal: "escape_step a backslash (tl (octal_escape c) @ t) = Some ([c], t)"
proof -
  define n :: nat where "n = of_char c"
  have c: "c = char_of n" and "n < 256" using nat_of_char_less_256[of c] by (simp_all add: n_def)
  have "n div 64 < 8" "n div 8 mod 8 < 8" "n mod 8 < 8" using \<open>n < 256\<close> by simp_all
  from uint_octal[OF this, of t]
  have "uint_parser 8 3 (tl (tl (octal_escape c)) @ t) =
      Some (64 * (n div 64) + 8 * (n div 8 mod 8) + n mod 8, t)"
    unfolding octal_escape_def n_def [symmetric] Let_def list.sel append.simps .
  also have "64 * (n div 64) + 8 * (n div 8 mod 8) + n mod 8 =
      8 * (8 * (n div 8 div 8) + n div 8 mod 8) + n mod 8"
    by (simp add: div_mult2_eq [symmetric])
  also have "\<dots> = n" by (simp only: mult_div_mod_eq)
  finally have num: "numeric_escape CHR ''0'' (tl (tl (octal_escape c)) @ t) = Some (n, t)"
    by (simp add: numeric_escape_def)
  have "tl (octal_escape c) @ t = CHR ''0'' # tl (tl (octal_escape c)) @ t"
    by (simp only: octal_escape_def Let_def list.sel append.simps)
  then show ?thesis using step_numeric[OF num, of a] by (simp only: c [symmetric]) simp
qed

lemma step_hex: "escape_step a backslash (tl (hex_escape c) @ t) = Some ([c], t)"
proof -
  define n :: nat where "n = of_char c"
  have c: "c = char_of n" and "n < 256" using nat_of_char_less_256[of c] by (simp_all add: n_def)
  have "n div 16 < 16" "n mod 16 < 16" using \<open>n < 256\<close> by simp_all
  from uint_hex[OF this, of t]
  have "uint_parser 16 2 (tl (tl (hex_escape c)) @ t) = Some (16 * (n div 16) + n mod 16, t)"
    unfolding hex_escape_def n_def [symmetric] Let_def list.sel append.simps .
  also have "16 * (n div 16) + n mod 16 = n" by (rule mult_div_mod_eq)
  finally have num: "numeric_escape CHR ''x'' (tl (tl (hex_escape c)) @ t) = Some (n, t)"
    by (simp add: numeric_escape_def)
  have "tl (hex_escape c) @ t = CHR ''x'' # tl (tl (hex_escape c)) @ t"
    by (simp only: hex_escape_def Let_def list.sel append.simps)
  then show ?thesis using step_numeric[OF num, of a] by (simp only: c [symmetric]) simp
qed

lemma transform_octal:
  "transform_escapes a (octal_escape c @ t) = (c # fst (transform_escapes a t), snd (transform_escapes a t))"
  using step_octal[of a c t] by (simp add: octal_escape_def Let_def split: prod.split)

lemma transform_hex:
  "transform_escapes a (hex_escape c @ t) = (c # fst (transform_escapes a t), snd (transform_escapes a t))"
  using step_hex[of a c t] by (simp add: hex_escape_def Let_def split: prod.split)

lemma transform_double:
  "transform_escapes a (double_backslash c @ t) = (c # fst (transform_escapes a t), snd (transform_escapes a t))"
  by (simp add: double_backslash_def escape_step_def simple_escape_def backslash_def split: prod.split)

text \<open>C33 (roundtrip): every string can be written with escapes and comes out as it was: with each
  character as a three-digit octal escape, as a two-digit hexadecimal escape, or as itself with
  the backslashes doubled, in either quoting mode and without suppressing output.\<close>

theorem escapes_roundtrip:
  "transform_escapes a (concat (map octal_escape s)) = (s, False) \<and>
   transform_escapes a (concat (map hex_escape s)) = (s, False) \<and>
   transform_escapes a (concat (map double_backslash s)) = (s, False)"
  by (induction s) (simp_all add: transform_octal transform_hex transform_double)

lemma transform_double_append:
  "transform_escapes a (concat (map double_backslash s) @ t) =
     (s @ fst (transform_escapes a t), snd (transform_escapes a t))"
  by (induction s) (simp_all add: transform_double)

text \<open>A \<open>\c\<close> escape ends the output exactly where it stands, whatever follows it, and a
  backslash before a character that begins no escape is written out, as is a final one; nothing
  before them is affected.\<close>

theorem escapes_suppress:
  assumes "d \<notin> set ''abeEfnrtvc0x''" "d \<notin> {CHR 0x27, CHR 0x22, backslash}"
  shows "transform_escapes a (concat (map double_backslash s) @ [backslash, CHR ''c''] @ t) = (s, True) \<and>
     transform_escapes a (concat (map double_backslash s) @ [backslash]) = (s @ [backslash], False) \<and>
     transform_escapes a (concat (map double_backslash s) @ [backslash, d] @ t) =
       (s @ [backslash, d] @ fst (transform_escapes a t), snd (transform_escapes a t))"
  using assms
  by (auto simp: transform_double_append escape_step_def simple_escape_def numeric_escape_def
      backslash_def split: prod.split)

theorem escapes_suppress_witness:
  "transform_escapes False (concat (map double_backslash ''a'') @ [backslash, CHR ''q''] @ ''b'') =
     ([CHR ''a'', backslash, CHR ''q'', CHR ''b''], False)"
  using escapes_suppress[of "CHR ''q''" False "''a''" "''b''"]
  by (simp add: backslash_def escape_step_def)

end
