(* ===== verification/Boost_Reference.thy ===== *)
theory Boost_Reference
  imports Prelude
begin

text \<open>
  An instance of the third-party string services that behaves as their documentation says. It is
  no part of the model: it shows that the documented behaviours assumed of a \<open>boost\<close> record can
  hold together, and it is the record at which properties with such an assumption are witnessed.
\<close>

section \<open>Decimal numerals\<close>

definition digit_value :: "char \<Rightarrow> nat option" where
  "digit_value c = (if c \<in> set ''0123456789'' then Some (of_char c - 48) else None)"

fun parse_digits :: "nat \<Rightarrow> string \<Rightarrow> nat option" where
  "parse_digits acc [] = Some acc"
| "parse_digits acc (c # cs) = (case digit_value c of
       None \<Rightarrow> None | Some d \<Rightarrow> parse_digits (10 * acc + d) cs)"

definition parse_decimal :: "string \<Rightarrow> nat option" where
  "parse_decimal s = (if s = [] then None else parse_digits 0 s)"

lemma digit_value_char: "d < 10 \<Longrightarrow> digit_value (char_of (48 + d)) = Some d"
proof -
  assume "d < 10"
  then have "d \<in> {0, 1, 2, 3, 4, 5, 6, 7, 8, 9}" by auto
  then show ?thesis
    by (elim insertE) (simp_all add: digit_value_def char_of_def bit_numeral_rec of_char_def bit_0)
qed

lemma parse_digits_append:
  "parse_digits acc (s @ t) = (case parse_digits acc s of
       None \<Rightarrow> None | Some n \<Rightarrow> parse_digits n t)"
  by (induction s arbitrary: acc) (auto split: option.split)

lemma parse_digits_decimal: "parse_digits 0 (decimal n) = Some n"
proof (induction n rule: decimal.induct)
  case (1 n)
  show ?case
  proof (cases "n < 10")
    case True
    then show ?thesis by (subst decimal.simps) (simp add: digit_value_char)
  next
    case False
    with 1 show ?thesis
      by (subst decimal.simps) (simp add: parse_digits_append digit_value_char)
  qed
qed

lemma decimal_nonempty: "decimal n \<noteq> []"
  by (subst decimal.simps) simp

lemma decimal_hd: "hd (decimal n) \<in> set ''0123456789''"
proof -
  have "parse_digits 0 (decimal n) \<noteq> None" by (simp add: parse_digits_decimal)
  then show ?thesis
    using decimal_nonempty[of n]
    by (cases "decimal n") (auto simp: digit_value_def split: if_splits)
qed

definition show_int :: "int \<Rightarrow> string" where
  "show_int i = (if i < 0 then CHR ''-'' # decimal (nat (- i)) else decimal (nat i))"

definition parse_int :: "string \<Rightarrow> int option" where
  "parse_int s = (case s of
       [] \<Rightarrow> None
     | c # cs \<Rightarrow> if c = CHR ''-'' then map_option (\<lambda>n. - int n) (parse_decimal cs)
                 else if c = CHR ''+'' then map_option int (parse_decimal cs)
                 else map_option int (parse_decimal s))"

lemma parse_show_int: "parse_int (show_int i) = Some i"
proof (cases "i < 0")
  case True
  then show ?thesis
    by (simp add: show_int_def parse_int_def parse_decimal_def decimal_nonempty
        parse_digits_decimal)
next
  case False
  obtain c cs where d: "decimal (nat i) = c # cs" using decimal_nonempty by (cases "decimal (nat i)") auto
  with decimal_hd[of "nat i"] have "c \<noteq> CHR ''-''" "c \<noteq> CHR ''+''" by auto
  with False d show ?thesis
    using parse_digits_decimal[of "nat i"]
    by (simp add: show_int_def parse_int_def parse_decimal_def)
qed

section \<open>Lists of characters\<close>

fun join_ref :: "string list \<Rightarrow> string \<Rightarrow> string" where
  "join_ref [] d = []"
| "join_ref [x] d = x"
| "join_ref (x # y # zs) d = x @ d @ join_ref (y # zs) d"

definition trim_right_ref :: "string \<Rightarrow> string \<Rightarrow> string" where
  "trim_right_ref ds s = rev (dropWhile (\<lambda>c. c \<in> set ds) (rev s))"

function split_ref :: "string \<Rightarrow> bool \<Rightarrow> string \<Rightarrow> string list" where
  "split_ref ds c s =
     (let rest = dropWhile (\<lambda>x. x \<notin> set ds) s
      in if rest = [] then [s]
         else takeWhile (\<lambda>x. x \<notin> set ds) s #
              split_ref ds c (if c then dropWhile (\<lambda>x. x \<in> set ds) rest else tl rest))"
  by pat_completeness auto
termination
proof (relation "measure (\<lambda>(ds, c, s). length s)", goal_cases)
  case 1
  show ?case by simp
next
  case (2 ds c s rest)
  have "length rest \<le> length s" using 2(1) by (simp add: length_dropWhile_le)
  moreover have "length (dropWhile (\<lambda>x. x \<in> set ds) rest) < length rest"
  proof -
    have "hd rest \<in> set ds" using 2 hd_dropWhile by metis
    then show ?thesis using 2(2) by (cases rest) (auto simp: le_imp_less_Suc length_dropWhile_le)
  qed
  moreover have "length (tl rest) < length rest" using 2(2) by (cases rest) auto
  ultimately show ?case by simp
qed

declare split_ref.simps [simp del]

fun erase_all_ref :: "string \<Rightarrow> string \<Rightarrow> string" where
  "erase_all_ref pat [] = []"
| "erase_all_ref pat (c # cs) =
     (if pat \<noteq> [] \<and> take (length pat) (c # cs) = pat
      then erase_all_ref pat (drop (length pat - 1) cs) else c # erase_all_ref pat cs)"

definition boost_ref :: boost where
  "boost_ref = \<lparr>
     lex_long = (\<lambda>s. case parse_int s of
         Some i \<Rightarrow> if - (2 ^ 63) \<le> i \<and> i < 2 ^ 63 then Some (word_of_int i) else None
       | None \<Rightarrow> None),
     lex_int = (\<lambda>s. case parse_int s of
         Some i \<Rightarrow> if - (2 ^ 31) \<le> i \<and> i < 2 ^ 31 then Some i else None
       | None \<Rightarrow> None),
     lex_unsigned = (\<lambda>s. case parse_decimal s of
         Some n \<Rightarrow> if n < 2 ^ 32 then Some (of_nat n) else None
       | None \<Rightarrow> None),
     show_long = (\<lambda>n. show_int (sint n)),
     show_nat = decimal,
     join_with = join_ref,
     trim_any = (\<lambda>ds s. dropWhile (\<lambda>c. c \<in> set ds) (trim_right_ref ds s)),
     trim_right_any = trim_right_ref,
     split_any = split_ref,
     erase_all = erase_all_ref,
     karma_list = (\<lambda>xs. join_ref xs '' '')\<rparr>"

lemma boost_ref_lexical: "lexical_cast_documented boost_ref"
proof -
  have "- (2 ^ 63) \<le> sint n \<and> sint n < 2 ^ 63" for n :: c_long
    using sint_greater_eq[of n] sint_lt[of n] by simp
  then show ?thesis
    by (simp add: lexical_cast_documented_def boost_ref_def parse_show_int)
qed

lemma boost_ref_join: "join_documented boost_ref"
  by (simp add: join_documented_def boost_ref_def)

lemma boost_ref_karma: "karma_documented boost_ref"
  by (simp add: karma_documented_def boost_ref_def)

lemma boost_ref_trim: "trim_documented boost_ref"
  by (simp add: trim_documented_def boost_ref_def trim_right_ref_def)

lemma boost_ref_split: "split_documented boost_ref"
proof -
  have "split_any boost_ref = split_ref" by (simp add: boost_ref_def)
  then show ?thesis
    unfolding split_documented_def by (metis split_ref.simps)
qed

lemmas boost_ref_documented = boost_ref_lexical boost_ref_join boost_ref_karma boost_ref_trim boost_ref_split

end
