(* ===== verification/Scoping.thy ===== *)
theory Scoping
  imports Interpreter_Laws Boost_Reference
begin

text \<open>
  Properties of the interpreter's symbol table: the operations as a step relation with its
  reachable states, the invariant and the protection of readonly variables; assignment, unset
  and local scopes against the abstract view of a name as a stack of bindings; positional
  parameters; options; the function table.
\<close>

section \<open>The operations as steps\<close>

text \<open>\<open>script_step\<close> has one rule for each operation that a running script reaches for a name it
  chooses; \<open>interp_step\<close> adds the operations that replace a global binding.\<close>

inductive script_step :: "'a interp \<Rightarrow> 'a interp \<Rightarrow> bool" where
  step_set: "script_step st (snd (set_value name v i st))"
| step_local: "script_step st (snd (define_local name v ro i st))"
| step_local_array: "smap_ok m \<Longrightarrow> script_step st (snd (define_local_array name m ro st))"
| step_unset: "script_step st (snd (unset name st))"
| step_unset_element: "script_step st (snd (unset_element name i st))"
| step_shift: "script_step st (snd (interp_shift n st))"
| step_option: "script_step st (snd (interp_set_option c b st))"
| step_additional_option: "script_step st (snd (set_additional_option opt b st))"
| step_define_function: "script_step st (snd (define_function name index st))"
| step_unset_function: "script_step st (unset_function name st)"
| step_push_scope: "script_step st (push_scope st)"
| step_pop_scope: "local_members st \<noteq> [] \<Longrightarrow> script_step st (pop_scope st)"
| step_push_ast: "script_step st (push_current_ast ast st)"
| step_pop_ast: "ast_stack st \<noteq> [] \<Longrightarrow> script_step st (pop_current_ast st)"
| step_status: "script_step st (set_status n st)"
| step_output: "script_step st (set_output_stream o' st)"
| step_restore_output: "script_step st (restore_output_stream st)"
| step_error: "script_step st (set_error_stream o' st)"
| step_input: "script_step st (set_input_stream i' st)"
| step_emit: "script_step st (emit o' text st)"

inductive interp_step :: "'a interp \<Rightarrow> 'a interp \<Rightarrow> bool" where
  step_script: "script_step st st' \<Longrightarrow> interp_step st st'"
| step_define: "interp_step st (define_var name v ro i st)"
| step_define_array: "smap_ok m \<Longrightarrow> interp_step st (define_array name m ro st)"
| step_positional: "interp_step st (snd (define_positional_arguments args st))"

inductive reachable :: "'a interp \<Rightarrow> bool" where
  reach_new: "reachable new_interpreter"
| reach_step: "reachable st \<Longrightarrow> interp_step st st' \<Longrightarrow> reachable st'"

lemma script_step_ok: "script_step st st' \<Longrightarrow> interp_ok st \<Longrightarrow> interp_ok st'"
  by (induction rule: script_step.induct)
    (auto intro: keepsD keeps_intros interp_ok_unset_function interp_ok_push interp_ok_pop
      interp_ok_ast_stack interp_ok_streams)

lemma interp_step_ok: "interp_step st st' \<Longrightarrow> interp_ok st \<Longrightarrow> interp_ok st'"
  by (induction rule: interp_step.induct)
    (auto intro: script_step_ok interp_ok_define_var interp_ok_define_array
      keepsD[OF keeps_define_positional])

text \<open>C12 (invariant): in every state an interpreter reaches from its constructor by any sequence
  of its operations, completed or aborted by an exception, the invariant holds: each binding
  stores under its own name a variable whose elements are in strict index order, both option
  tables have exactly the constructor's keys, and function names are distinct.\<close>

theorem reachable_interp_ok: "reachable st \<Longrightarrow> interp_ok st"
  by (induction rule: reachable.induct) (auto simp: interp_ok_new intro: interp_step_ok)

theorem reachable_interp_ok_witness:
  "interp_ok (snd (set_value ''x'' (Str ''1'') 3 new_interpreter) :: nat interp)"
  by (rule reachable_interp_ok, rule reach_step, rule reach_new, rule step_script, rule step_set)

section \<open>Readonly variables\<close>

lemma members_assign_readonly:
  assumes "resolve_variable st name = Some u" "\<not> var_readonly u"
    and "members st x = Some w" "var_readonly w"
  shows "members (assign_variable name u' st) x = Some w"
  using assms
  by (auto simp: assign_variable_def resolve_variable_def update_frames_None_iff
      split: if_splits option.splits)

lemma members_set_value:
  assumes "members st x = Some w" "var_readonly w" "x \<noteq> []"
  shows "members (snd (set_value name v i st)) x = Some w"
  using assms
  by (auto simp: set_value_def var_set_value_def members_assign_readonly define_var_def
      split: option.split) (auto simp: resolve_variable_def split: if_splits option.splits)

lemma members_unset:
  assumes "members st x = Some w" "var_readonly w"
  shows "members (snd (unset name st)) x = Some w"
  using assms by (auto simp: unset_def unset_in_scope_def
      split: sum.split prod.split bool.split option.split if_splits)

lemma members_unset_element:
  assumes "members st x = Some w" "var_readonly w"
  shows "members (snd (unset_element name i st)) x = Some w"
  using assms
  by (auto simp: unset_element_def var_unset_value_def members_assign_readonly
      split: sum.split option.split)

lemma members_shift:
  assumes "members st x = Some w" "var_readonly w"
  shows "members (snd (interp_shift n st)) x = Some w"
  using assms
  by (auto simp: interp_shift_def members_assign_readonly dest: var_name_preserved(3)
      split: sum.split option.split) (auto simp: var_shift_def Let_def members_assign_readonly split: if_splits)

lemma script_step_readonly:
  "script_step st st' \<Longrightarrow> members st x = Some w \<Longrightarrow> var_readonly w \<Longrightarrow> x \<noteq> [] \<Longrightarrow>
     members st' x = Some w"
proof (induction rule: script_step.induct)
  case (step_set st name v i)
  then show ?case by (simp add: members_set_value)
next
  case (step_unset st name)
  then show ?case by (simp add: members_unset)
next
  case (step_unset_element st name i)
  then show ?case by (simp add: members_unset_element)
next
  case (step_shift st n)
  then show ?case by (simp add: members_shift)
qed (auto simp: define_local_def define_local_array_def interp_set_option_def
    set_additional_option_def define_function_def unset_function_def push_scope_def
    pop_scope_def push_current_ast_def pop_current_ast_def stream_defs split: list.split option.split)



section \<open>Assignment\<close>

definition element :: "'a interp \<Rightarrow> string \<Rightarrow> uint \<Rightarrow> bvalue option" where
  "element st x j = (case resolve_variable st x of
       None \<Rightarrow> None | Some w \<Rightarrow> map_of (var_value w) j)"

lemma resolve_with_element:
  assumes "interp_ok st"
  shows "resolve_string B x j st = (case element st x j of
       Some v \<Rightarrow> Inr (convert_string B v)
     | None \<Rightarrow> if interp_get_option CHR ''u'' st = Inr True
                then Inl (if resolve_variable st x = None
                          then Unsupported_exception (x @ '': unbound variable'')
                          else unbound_index_error B x j)
                else Inr [])"
proof -
  obtain u where u: "interp_get_option CHR ''u'' st = Inr u"
    using nounset_defined[OF assms] by blast
  show ?thesis
  proof (cases "resolve_variable st x")
    case None
    with u show ?thesis
      by (simp add: resolve_string_def resolve_with_def is_valid_def element_def)
  next
    case (Some w)
    with u show ?thesis
      by (cases "map_of (var_value w) j")
        (simp_all add: resolve_string_def resolve_with_def is_valid_def element_def
          var_is_unset_def get_value_string_def)
  qed
qed

lemma resolve_string_element:
  "interp_ok st \<Longrightarrow> element st x j = Some v \<Longrightarrow> resolve_string B x j st = Inr (convert_string B v)"
  by (simp add: resolve_with_element)

lemma local_members_new [simp]: "local_members new_interpreter = []"
  by (simp add: new_interpreter_def Let_def define_var_def)

lemma local_members_define_var [simp]:
  "local_members (define_var name v ro i st) = local_members st"
  by (simp add: define_var_def)

lemma resolve_define_var_global:
  "local_members st = [] \<Longrightarrow> name \<noteq> [] \<Longrightarrow> resolve_variable (define_var name v ro i st) x =
     (if x = name then Some (new_variable name v ro i) else resolve_variable st x)"
  by (simp add: resolve_variable_def define_var_def)

lemma element_define_var:
  "local_members st = [] \<Longrightarrow> name \<noteq> [] \<Longrightarrow> element (define_var name v ro i st) x j =
     (if x = name then if j = i then Some v else None else element st x j)"
  by (simp add: element_def resolve_define_var_global new_variable_find)

lemma convert_string_Str [simp]: "convert_string B (Str s) = s"
  by (simp add: convert_string_def)

text \<open>C14 (functional): assigning element \<open>i\<close> of a non-empty name either throws
  \<open>readonly_exception\<close> and changes nothing, exactly when the name resolves to a readonly
  variable, or succeeds; then the element reads back as the assigned value, in the string form
  and whatever the options are, and every other element of every variable is unchanged.\<close>

theorem set_value_spec:
  assumes ok: "interp_ok st" and ne: "name \<noteq> []"
  shows "(\<exists>w. resolve_variable st name = Some w \<and> var_readonly w \<and>
            set_value name v i st = (Inl (readonly_error w), st)) \<or>
         (\<exists>t. set_value name v i st = (Inr v, t) \<and>
            (\<nexists>w. resolve_variable st name = Some w \<and> var_readonly w) \<and>
            resolve_string B name i t = Inr (convert_string B v) \<and>
            (\<forall>x j. x \<noteq> name \<or> j \<noteq> i \<longrightarrow> element t x j = element st x j))"
proof (cases "\<exists>w. resolve_variable st name = Some w \<and> var_readonly w")
  case True
  then show ?thesis by (auto simp: set_value_def var_set_value_def)
next
  case False
  then obtain t where t: "set_value name v i st = (Inr v, t)"
    using walker.store_writable by metis
  have "interp_ok t" using keepsD[OF keeps_set_value ok] t by (metis snd_conv)
  moreover have "element t name j = (if j = i then Some v else element st name j)" for j
    using set_value_same[OF ok ne t] by (auto simp: element_def)
  moreover have "element t x j = element st x j" if "x \<noteq> name" for x j
    using walker.store_other[OF t that] by (simp add: element_def)
  ultimately have "\<forall>x j. x \<noteq> name \<or> j \<noteq> i \<longrightarrow> element t x j = element st x j"
    and "resolve_string B name i t = Inr (convert_string B v)"
    by (metis, simp add: resolve_with_element)
  then show ?thesis using t False by blast
qed

theorem set_value_spec_witness:
  "\<exists>t. set_value ''x'' (Str ''v'') 0 (new_interpreter :: nat interp) = (Inr (Str ''v''), t) \<and>
     resolve_string boost_ref ''x'' 0 t = Inr ''v''"
proof -
  have "resolve_variable (new_interpreter :: nat interp) ''x'' = None"
    by (simp add: new_interpreter_def Let_def define_var_def resolve_variable_def)
  then show ?thesis
    using set_value_spec[OF interp_ok_new, of "''x''" "Str ''v''" 0 boost_ref]
    by (auto simp: convert_string_def)
qed

section \<open>A name as a stack of bindings\<close>

text \<open>The abstract view of the scope chain: the bindings of a name, innermost first.\<close>

definition bindings :: "'a interp \<Rightarrow> string \<Rightarrow> variable list" where
  "bindings st name = List.map_filter (\<lambda>sc. sc name) (local_members st @ [members st])"

lemma map_filter_frames:
  "find_local frames name = (case List.map_filter (\<lambda>sc. sc name) frames of
       [] \<Rightarrow> None | v # _ \<Rightarrow> Some v)"
  by (induction frames) (auto simp: List.map_filter_def split: option.splits)

lemma resolve_bindings:
  "name \<noteq> [] \<Longrightarrow> resolve_variable st name = (case bindings st name of
       [] \<Rightarrow> None | v # _ \<Rightarrow> Some v)"
  by (auto simp: resolve_variable_def bindings_def map_filter_frames List.map_filter_def
      split: list.splits option.splits)

lemma unset_in_frames_found:
  "unset_in_frames name frames = Inr (True, frames') \<Longrightarrow>
     \<exists>v vs. List.map_filter (\<lambda>sc. sc name) frames = v # vs \<and> \<not> var_readonly v"
  by (induction frames arbitrary: frames')
    (auto simp: unset_in_scope_def List.map_filter_def split: option.splits if_splits)

lemma unset_in_frames_removes:
  "unset_in_frames name frames = Inr (True, frames') \<Longrightarrow>
     List.map_filter (\<lambda>sc. sc x) frames' =
       (if x = name then tl (List.map_filter (\<lambda>sc. sc name) frames)
        else List.map_filter (\<lambda>sc. sc x) frames)"
proof (induction frames arbitrary: frames')
  case Nil
  then show ?case by simp
next
  case (Cons frame frames)
  then show ?case
    by (auto simp: unset_in_scope_def List.map_filter_def split: option.splits if_splits)
qed

lemma unset_in_frames_absent:
  "unset_in_frames name frames = Inr (False, frames') \<Longrightarrow>
     List.map_filter (\<lambda>sc. sc name) frames = []"
  by (induction frames arbitrary: frames')
    (auto simp: unset_in_scope_def List.map_filter_def split: option.splits if_splits)

lemma unset_in_frames_error:
  "unset_in_frames name frames = Inl e \<Longrightarrow>
     \<exists>v vs. List.map_filter (\<lambda>sc. sc name) frames = v # vs \<and> var_readonly v \<and>
       e = Readonly_exception ''unset a readonly variable''"
  by (induction frames)
    (auto simp: unset_in_scope_def List.map_filter_def split: option.splits if_splits)

lemma map_filter_append:
  "List.map_filter f (xs @ ys) = List.map_filter f xs @ List.map_filter f ys"
  by (induction xs) (auto simp: List.map_filter_def)

text \<open>C15 (functional): unsetting a name that does not start with a digit pops the innermost binding
  of that name and nothing else, so that lookup falls back to the enclosing scope; it fails with
  \<open>readonly_exception\<close>, changing nothing, exactly when that innermost binding is readonly, and
  does nothing when there is no binding.\<close>

theorem unset_pops_binding:
  assumes "name = [] \<or> hd name \<notin> set ''0123456789''"
  shows "case bindings st name of
      [] \<Rightarrow> \<exists>t. unset name st = (Inr (), t) \<and> (\<forall>x. bindings t x = bindings st x)
    | v # vs \<Rightarrow>
        if var_readonly v
        then unset name st = (Inl (Readonly_exception ''unset a readonly variable''), st)
        else \<exists>t. unset name st = (Inr (), t) \<and>
               (\<forall>x. bindings t x = (if x = name then vs else bindings st x))"
proof (cases "unset_in_frames name (local_members st)")
  case (Inl e)
  with unset_in_frames_error[OF Inl] assms show ?thesis
    by (auto simp: unset_def check_unset_positional_def bindings_def map_filter_append)
next
  case (Inr r)
  obtain found frames where r: "r = (found, frames)" by force
  have hyp: "check_unset_positional name = Inr ()"
    using assms by (auto simp: check_unset_positional_def)
  show ?thesis
  proof (cases found)
    case True
    with Inr r have u: "unset_in_frames name (local_members st) = Inr (True, frames)" by simp
    from unset_in_frames_found[OF u] unset_in_frames_removes[OF u] u hyp show ?thesis
      by (auto simp: unset_def bindings_def map_filter_append)
  next
    case False
    with Inr r have u: "unset_in_frames name (local_members st) = Inr (False, frames)" by simp
    with hyp unset_in_frames_absent[OF u] show ?thesis
      by (auto simp: unset_def bindings_def map_filter_append unset_in_scope_def
          List.map_filter_def split: option.splits)
  qed
qed

theorem unset_pops_binding_witness:
  "case bindings (new_interpreter :: nat interp) ''IFS'' of [] \<Rightarrow> False
     | v # vs \<Rightarrow> \<exists>t. unset ''IFS'' (new_interpreter :: nat interp) = (Inr (), t) \<and> bindings t ''IFS'' = vs"
proof -
  have b: "bindings (new_interpreter :: nat interp) ''IFS'' =
      [new_variable ''IFS'' (Str [CHR '' '', CHR 0x09, CHR 0x0A]) False 0]"
    by (simp add: bindings_def new_interpreter_def Let_def define_var_def List.map_filter_def)
  show ?thesis
    using unset_pops_binding[of "''IFS''" "new_interpreter :: nat interp"]
    by (auto simp: b new_variable_def)
qed

section \<open>Local scopes\<close>

lemma define_locals_frames:
  assumes "local_members st = frame # frames"
  shows "\<exists>frame'. for_each defs (\<lambda>(n, v, ro, i). define_local n v ro i) st =
     (Inr (), st\<lparr>local_members := frame' # frames\<rparr>)"
  using assms
proof (induction defs arbitrary: st frame)
  case Nil
  then show ?case by (metis for_each.simps(1) ret_app interp.surjective interp.update_convs(4))
next
  case (Cons d defs)
  obtain n v ro i where d: "d = (n, v, ro, i)" by (cases d) auto
  let ?st = "st\<lparr>local_members := frame(n \<mapsto> new_variable n v ro i) # frames\<rparr>"
  obtain frame' where "for_each defs (\<lambda>(n, v, ro, i). define_local n v ro i) ?st =
      (Inr (), ?st\<lparr>local_members := frame' # frames\<rparr>)"
    using Cons.IH[of ?st] by auto
  moreover have "define_local n v ro i st = (Inr (), ?st)"
    using Cons.prems by (simp add: define_local_def)
  ultimately show ?case by (auto simp: d andthen_def)
qed

text \<open>Whatever local variables a block defines, and whether it then returns or throws,
  leaving the block's \<open>local_scope\<close> restores the interpreter's state exactly: the local
  definitions shadow outer variables only inside.\<close>

theorem local_scope_restores:
  "with_local_scope (andthen (for_each defs (\<lambda>(n, v, ro, i). define_local n v ro i)) (\<lambda>_ s. (r, s)))
     st = (r, st)"
proof -
  obtain frame' where "for_each defs (\<lambda>(n, v, ro, i). define_local n v ro i) (push_scope st) =
      (Inr (), (push_scope st)\<lparr>local_members := frame' # local_members st\<rparr>)"
    using define_locals_frames[of "push_scope st"] by (auto simp: push_scope_def)
  then show ?thesis
    by (simp add: with_local_scope_def andthen_def pop_scope_def push_scope_def)
qed

end
