(* ===== verification/Builtins.thy ===== *)
theory Builtins
  imports Bash_Ast Escapes Scoping
begin

text \<open>
  src/builtins: break, continue, return, shift, shopt, set, unset, let, echo, true and false, each
  class by the function \<open>..._exec\<close> of its method \<open>exec\<close>. The streams that \<open>BUILTIN_ARGS\<close>
  passes to the constructor are the record \<open>streams\<close>; the argument vector is a list.
\<close>

record streams =
  out_to :: ostream
  err_to :: ostream
  in_from :: istream

definition str_at :: "string \<Rightarrow> nat \<Rightarrow> char" where
  \<comment> \<open>\<open>operator[]\<close> of a \<open>std::string\<close>, which gives the terminating zero at the length\<close>
  "str_at s i = (s @ [CHR 0x00]) ! i"

section \<open>Leaving loops and functions\<close>

definition make_break :: "int \<Rightarrow> exn" where
  \<comment> \<open>\<open>throw break_exception(c)\<close>: the constructor throws another exception for \<open>c < 1\<close>\<close>
  "make_break c = (if c < 1
     then Illegal_argument_exception ''break: argument should be greater than or equal to 1''
     else Break_exception c)"

definition make_continue :: "int \<Rightarrow> exn" where
  "make_continue c = (if c < 1
     then Illegal_argument_exception ''continue: argument should be greater than or equal to 1''
     else Continue_exception c)"

definition rethrow_unless_correct_frame :: "exn \<Rightarrow> exn option" where
  \<comment> \<open>the exception thrown on from a frame that caught it, if any\<close>
  "rethrow_unless_correct_frame e = (case e of
       Break_exception count \<Rightarrow> if count \<noteq> 1 then Some (Break_exception (count - 1)) else None
     | Continue_exception count \<Rightarrow>
         if count \<noteq> 1 then Some (Continue_exception (count - 1)) else None
     | _ \<Rightarrow> Some e)"

definition break_exec :: "boost \<Rightarrow> string list \<Rightarrow> ('a interp, int) act" where
  "break_exec B args =
     (if length args > 1 then throw (Interpreter_exception ''break: too many arguments'')
      else if length args = 1
      then (case lex_int B (args ! 0) of
          None \<Rightarrow> throw (Interpreter_exception ''break: argument should be an integer'')
        | Some nth' \<Rightarrow> throw (make_break nth'))
      else throw (make_break 1))"

definition continue_exec :: "boost \<Rightarrow> string list \<Rightarrow> ('a interp, int) act" where
  "continue_exec B args =
     (if length args > 1 then throw (Illegal_argument_exception ''continue: too many arguments'')
      else if length args = 1
      then (case lex_int B (args ! 0) of
          None \<Rightarrow> throw (Illegal_argument_exception ''continue: argument should be an integer'')
        | Some nth' \<Rightarrow> throw (make_continue nth'))
      else throw (make_continue 1))"

definition return_exec :: "boost \<Rightarrow> string list \<Rightarrow> ('a interp, int) act" where
  "return_exec B args =
     (if length args > 1 then throw (Illegal_argument_exception ''return: too many arguments'')
      else if length args = 1
      then (case lex_int B (args ! 0) of
          None \<Rightarrow> throw Bad_lexical_cast
        | Some n \<Rightarrow> andthen (modify (set_status n)) (\<lambda>_. throw Return_exception))
      else throw Return_exception)"

section \<open>Parameters and options\<close>

definition shift_exec :: "boost \<Rightarrow> string list \<Rightarrow> ('a interp, int) act" where
  "shift_exec B args =
     (if args = [] then interp_shift 1
      else if length args \<noteq> 1
      then throw (Illegal_argument_exception ''shift: the number of arguments should be 1'')
      else (case lex_int B (args ! 0) of
          None \<Rightarrow> throw Bad_lexical_cast
        | Some n \<Rightarrow> interp_shift n))"

definition set_opt :: "string list \<Rightarrow> bool \<Rightarrow> ('a interp, unit) act" where
  "set_opt args b = for_each (tl args) (\<lambda>name. set_additional_option name b)"

definition print_opts :: "streams \<Rightarrow> ('a interp, unit) act" where
  "print_opts io st = for_each (additional_options st) (\<lambda>(name, on).
     modify (emit (out_to io)
       (''shopt '' @ (if on then ''-s '' else ''-u '') @ name @ [newline]))) st"

definition shopt_exec :: "streams \<Rightarrow> string list \<Rightarrow> ('a interp, int) act" where
  "shopt_exec io args =
     (if args = [] then throw (Illegal_argument_exception ''shopt: arguments required'')
      else if length (args ! 0) \<noteq> 2
      then throw (Unsupported_exception ''shopt: multiple arguments are not supported'')
      else let c = str_at (args ! 0) 1 in
        if c = CHR ''u'' then andthen (set_opt args False) (\<lambda>_. ret 0)
        else if c = CHR ''s'' then andthen (set_opt args True) (\<lambda>_. ret 0)
        else if c = CHR ''p'' then andthen (print_opts io) (\<lambda>_. ret 0)
        else if c = CHR ''q'' \<or> c = CHR ''o''
        then throw (Unsupported_exception (''shopt '' @ args ! 0 @ '' is not supported yet''))
        else throw (Illegal_argument_exception (''shopt: unrecognized option: '' @ args ! 0)))"

definition set_exec :: "string list \<Rightarrow> ('a interp, int) act" where
  \<comment> \<open>the labels \<open>a\<close> to \<open>t\<close> of the switch fall through to \<open>u\<close>, and \<open>v\<close> to \<open>P\<close> to \<open>T\<close>\<close>
  "set_exec args =
     (if args = []
      then throw (Unsupported_exception ''set: variables printing are not supported'')
      else let sign = str_at (args ! 0) 0 in
        if sign \<noteq> CHR ''-'' \<and> sign \<noteq> CHR ''+''
        then throw (Illegal_argument_exception ''set: invalid option'')
        else let c = str_at (args ! 0) 1 in
          if c = CHR ''-''
          then if sign \<noteq> CHR ''-'' then throw (Unsupported_exception ''set: invalid option'')
               else andthen (define_positional_arguments (tl args)) (\<lambda>_. ret 0)
          else if c \<in> set ''abefhkmnptu''
          then andthen (interp_set_option CHR ''u'' (sign = CHR ''-'')) (\<lambda>_. ret 0)
          else if c \<in> set ''vxBCEHPT''
          then throw (Unsupported_exception (''set '' @ args ! 0 @ '' is not supported yet''))
          else throw (Illegal_argument_exception (''set: unrecognized option: '' @ args ! 0)))"

section \<open>Unset\<close>

definition index_pattern :: "string \<Rightarrow> (string \<times> string) option" where
  \<comment> \<open>\<open>^(.*)\[(\d*)\]$\<close> matched against the whole name: the two groups\<close>
  "index_pattern name =
     (let r = rev name;
          ds = takeWhile (\<lambda>c. c \<in> set ''0123456789'') (tl r);
          rest = dropWhile (\<lambda>c. c \<in> set ''0123456789'') (tl r)
      in if r \<noteq> [] \<and> hd r = CHR '']'' \<and> rest \<noteq> [] \<and> hd rest = CHR ''[''
         then Some (rev (tl rest), rev ds) else None)"

definition unset_variable :: "boost \<Rightarrow> string \<Rightarrow> ('a interp, unit) act" where
  "unset_variable B name = (case index_pattern name of
       Some (array, index) \<Rightarrow> (case lex_unsigned B index of
           None \<Rightarrow> throw Bad_lexical_cast
         | Some i \<Rightarrow> unset_element array i)
     | None \<Rightarrow> unset name)"

definition unset_exec :: "boost \<Rightarrow> string list \<Rightarrow> ('a interp, int) act" where
  "unset_exec B args =
     (if args = [] then ret 0
      else if args ! 0 = ''-f''
      then andthen (for_each (tl args) (\<lambda>name. modify (unset_function name))) (\<lambda>_. ret 0)
      else andthen (for_each (if hd args = ''-v'' then tl args else args) (unset_variable B))
             (\<lambda>_. ret 0))"

section \<open>Let, true and false\<close>

definition let_exec :: "boost \<Rightarrow> 'a antlr \<Rightarrow> string list \<Rightarrow> ('a interp, int) act" where
  "let_exec B W args = andthen (eval_arithmetic B W (join_with B args '' '')) (\<lambda>_. ret 0)"

definition true_exec :: "string list \<Rightarrow> ('a interp, int) act" where
  "true_exec args = ret 0"

definition false_exec :: "string list \<Rightarrow> ('a interp, int) act" where
  "false_exec args = ret 1"

section \<open>Echo\<close>

fun option_letters :: "string \<Rightarrow> bool \<times> bool \<times> bool \<Rightarrow> (bool \<times> bool \<times> bool) \<times> string" where
  \<comment> \<open>the repetition over \<open>n\<close>, \<open>e\<close> and \<open>E\<close> with its semantic actions, and the rest\<close>
  "option_letters [] flags = (flags, [])"
| "option_letters (c # cs) (n, e, E) =
     (if c = CHR ''n'' then option_letters cs (True, e, E)
      else if c = CHR ''e'' then option_letters cs (n, True, False)
      else if c = CHR ''E'' then option_letters cs (n, False, True)
      else ((n, e, E), c # cs))"

definition determine_options :: "string \<Rightarrow> bool \<times> bool \<Rightarrow> bool \<times> bool \<times> bool" where
  \<comment> \<open>whether the options end before this string, and \<open>suppress_nl\<close>, \<open>enable_escapes\<close>; the
    parse that does not match leaves \<open>first\<close> where it was\<close>
  "determine_options s flags = (case flags of (suppress_nl, enable_escapes) \<Rightarrow>
     if s = [] then (False, suppress_nl, enable_escapes)
     else if hd s \<noteq> CHR ''-'' \<or> tl s = [] then (True, suppress_nl, enable_escapes)
     else case option_letters (tl s) (False, False, False) of ((n, e, E), rest) \<Rightarrow>
       if rest \<noteq> [] then (True, suppress_nl, enable_escapes)
       else (False, suppress_nl \<or> n, if E then False else if e then True else enable_escapes))"

fun echo_escaped :: "string list \<Rightarrow> string \<times> bool" where
  \<comment> \<open>what the loop over the words writes, and whether it was left by \<open>suppress_output\<close>\<close>
  "echo_escaped [] = ([], False)"
| "echo_escaped (w # ws) = (case transform_escapes False w of (text, stop) \<Rightarrow>
     if stop then (text, True)
     else case echo_escaped ws of (text', stop') \<Rightarrow> (text @ text', stop'))"

fun echo_words :: "boost \<Rightarrow> string list \<Rightarrow> bool \<times> bool \<Rightarrow> string" where
  \<comment> \<open>the loop of \<open>exec\<close>: the text written for these arguments\<close>
  "echo_words B [] flags = []"
| "echo_words B (w # ws) flags = (case determine_options w flags of
     (options_parsed, suppress_nl, enable_escapes) \<Rightarrow>
       if \<not> options_parsed then echo_words B ws (suppress_nl, enable_escapes)
       else if enable_escapes
       then (case echo_escaped (w # ws) of (text, stop) \<Rightarrow>
               if stop \<or> suppress_nl then text else text @ [newline])
       else karma_list B (w # ws) @ (if suppress_nl then [] else [newline]))"

definition echo_exec :: "boost \<Rightarrow> streams \<Rightarrow> string list \<Rightarrow> ('a interp, int) act" where
  "echo_exec B io args =
     andthen (modify (emit (out_to io)
         (if args = [] then [newline] else echo_words B args (False, False))))
       (\<lambda>_. ret 0)"

end
