(* ===== verification/Builtins_Laws.thy ===== *)
theory Builtins_Laws
  imports Builtins Boost_Reference
begin

text \<open>
  Properties of the builtins of the theory Builtins: how far break and continue reach, the option
  builtins set and shopt, the removal of array elements by unset, and the output of echo.
\<close>

section \<open>Break and continue\<close>

fun leave_loops :: "nat \<Rightarrow> exn \<Rightarrow> exn option" where
  \<comment> \<open>the exception that is still in flight outside \<open>k\<close> nested loops, each of which catches it
    and calls \<open>rethrow_unless_correct_frame\<close>\<close>
  "leave_loops 0 e = Some e"
| "leave_loops (Suc k) e = (case rethrow_unless_correct_frame e of
       None \<Rightarrow> None | Some e' \<Rightarrow> leave_loops k e')"

lemma leave_loops_count:
  "leave_loops k (Break_exception (int (Suc n))) =
     (if k \<le> n then Some (Break_exception (int (Suc n) - int k)) else None)"
  "leave_loops k (Continue_exception (int (Suc n))) =
     (if k \<le> n then Some (Continue_exception (int (Suc n) - int k)) else None)"
proof (induction k arbitrary: n)
  case 0
  { case 1 then show ?case by simp }
  { case 2 then show ?case by simp }
next
  case (Suc k)
  { case 1 with Suc(1)[of "n - 1"] show ?case
      by (cases n) (auto simp: rethrow_unless_correct_frame_def) }
  { case 2 with Suc(2)[of "n - 1"] show ?case
      by (cases n) (auto simp: rethrow_unless_correct_frame_def) }
qed

text \<open>\<open>break n\<close> with n from 1 on leaves exactly n nested loops, and so does \<open>continue n\<close>:
  inside fewer it is still in flight with the remaining count, and the n-th frame stops it. For
  n below 1 an \<open>illegal_argument_exception\<close> is thrown instead, which no loop catches.\<close>

theorem break_leaves_loops:
  assumes "lex_int B arg = Some n"
  shows "\<exists>e e'. break_exec B [arg] st = (Inl e, st) \<and> continue_exec B [arg] st = (Inl e', st) \<and>
     (\<forall>k. leave_loops k e =
        (if n < 1 then Some e else if int k < n then Some (Break_exception (n - int k)) else None)) \<and>
     (\<forall>k. leave_loops k e' =
        (if n < 1 then Some e' else if int k < n then Some (Continue_exception (n - int k)) else None))"
proof (cases "n < 1")
  case True
  have "leave_loops k (Illegal_argument_exception m) = Some (Illegal_argument_exception m)" for k m
    by (induction k) (simp_all add: rethrow_unless_correct_frame_def)
  with True assms show ?thesis
    by (simp add: break_exec_def continue_exec_def make_break_def make_continue_def)
next
  case False
  then obtain m where n: "n = int (Suc m)" by (metis zero_less_imp_eq_int
      gr0_implies_Suc int_one_le_iff_zero_less linorder_not_le)
  have "k \<le> m \<longleftrightarrow> int k < int (Suc m)" for k by auto
  with False assms n show ?thesis
    by (simp add: break_exec_def continue_exec_def make_break_def make_continue_def
        leave_loops_count del: of_nat_Suc)
qed

theorem break_leaves_loops_witness:
  "\<exists>e. break_exec boost_ref [''2''] (new_interpreter :: nat interp) = (Inl e, new_interpreter) \<and>
     leave_loops 1 e = Some (Break_exception 1) \<and> leave_loops 2 e = None"
proof -
  have "lex_int boost_ref ''2'' = Some 2"
    by (simp add: boost_ref_def parse_int_def parse_decimal_def digit_value_def)
  from break_leaves_loops[OF this, where st = "new_interpreter :: nat interp"]
  obtain e where e: "break_exec boost_ref [''2''] (new_interpreter :: nat interp) = (Inl e, new_interpreter)"
    "\<And>k. leave_loops k e = (if (2 :: int) < 1 then Some e
       else if int k < 2 then Some (Break_exception (2 - int k)) else None)" by blast
  then show ?thesis using e(2)[of 1] e(2)[of 2] by (auto simp del: leave_loops.simps)
qed

section \<open>Set\<close>

lemma get_option_after_set:
  assumes "interp_ok st" "interp_set_option c b st = (Inr (), t)"
  shows "interp_get_option d t = (if d = c then Inr b else interp_get_option d st)"
proof -
  have "smap_ok (options st)" using assms(1) by (simp add: interp_ok_def)
  with assms(2) show ?thesis
    by (auto simp: interp_set_option_def interp_get_option_def smap.find_insert
        split: option.splits if_splits)
qed

lemma set_option_u: "interp_ok st \<Longrightarrow> \<exists>t. interp_set_option CHR ''u'' b st = (Inr (), t)"
  using nounset_defined[of st]
  by (auto simp: interp_set_option_def interp_get_option_def split: option.splits)



section \<open>Shopt\<close>

definition shopt_command :: "string \<times> bool \<Rightarrow> string list" where
  \<comment> \<open>the words after \<open>shopt\<close> that print_opts writes for an option\<close>
  "shopt_command opt = [if snd opt then ''-s'' else ''-u'', fst opt]"

definition shopt_line :: "string list \<Rightarrow> string" where
  "shopt_line words = ''shopt '' @ words ! 0 @ '' '' @ words ! 1 @ [newline]"

lemma print_opts_written:
  "for_each opts (\<lambda>(name, on). modify (emit (out_to io)
       (''shopt '' @ (if on then ''-s '' else ''-u '') @ name @ [newline]))) st =
     (Inr (), emit (out_to io) (concat (map (\<lambda>opt. shopt_line (shopt_command opt)) opts)) st)"
proof (induction opts arbitrary: st)
  case Nil
  then show ?case by (simp add: emit_def)
next
  case (Cons opt opts)
  have "emit o' u (emit o' t s) = emit o' (t @ u) s" for o' t u and s :: "'a interp"
    by (simp add: emit_def)
  then show ?case using Cons
    by (cases opt) (simp add: shopt_line_def shopt_command_def)
qed

lemma for_each_map: "for_each (map f xs) g = for_each xs (\<lambda>x. g (f x))"
  by (induction xs) simp_all

lemma shopt_command_exec:
  "shopt_exec io (shopt_command (name, b)) st = (case set_additional_option name b st of
     (Inl e, t) \<Rightarrow> (Inl e, t) | (Inr _, t) \<Rightarrow> (Inr 0, t))"
  by (simp add: shopt_exec_def shopt_command_def str_at_def set_opt_def andthen_def
      split: prod.split sum.split)

lemma smap_eq_by_find:
  "smap_ok m \<Longrightarrow> smap_ok n \<Longrightarrow> map_of m = map_of n \<Longrightarrow> m = n"
  using smap.entries_unique[of m n] by simp

lemma shopt_replay:
  assumes "smap_ok (additional_options st)" "distinct (map fst opts)"
    and "\<And>name. name \<in> fst ` set opts \<Longrightarrow> map_of (additional_options st) name \<noteq> None"
  shows "\<exists>m. for_each opts (\<lambda>opt. andthen (shopt_exec io (shopt_command opt)) (\<lambda>_. ret ())) st =
       (Inr (), st\<lparr>additional_options := m\<rparr>) \<and> smap_ok m \<and>
     map_of m = map_of (additional_options st) ++ map_of opts"
  using assms
proof (induction opts arbitrary: st)
  case Nil
  then show ?case by (auto intro!: exI[of _ "additional_options st"])
next
  case (Cons opt opts)
  obtain name b where opt: "opt = (name, b)" by force
  let ?s = "st\<lparr>additional_options := smap_insert name b (additional_options st)\<rparr>"
  have ok: "smap_ok (additional_options ?s)" using Cons.prems(1) by (simp add: smap_ok_insert)
  have find: "map_of (additional_options ?s) = (map_of (additional_options st))(name \<mapsto> b)"
    using Cons.prems(1) by (auto simp: smap.find_insert fun_eq_iff)
  have defined: "map_of (additional_options ?s) n \<noteq> None" if "n \<in> fst ` set opts" for n
    unfolding find using Cons.prems(3)[of n] that by simp
  have "distinct (map fst opts)" using Cons.prems(2) by simp
  from Cons.IH[OF ok this defined] obtain m where m: "for_each opts
      (\<lambda>opt. andthen (shopt_exec io (shopt_command opt)) (\<lambda>_. ret ())) ?s =
        (Inr (), ?s\<lparr>additional_options := m\<rparr>)"
    "smap_ok m" "map_of m = map_of (additional_options ?s) ++ map_of opts"
    by blast
  have "name \<notin> dom (map_of opts)"
    using Cons.prems(2) by (simp add: opt dom_map_of_conv_image_fst)
  then have "map_of m = map_of (additional_options st) ++ map_of (opt # opts)"
    unfolding m(3) find by (auto simp: opt fun_eq_iff map_add_def split: option.split)
  moreover have "set_additional_option name b st = (Inr (), ?s)"
    using Cons.prems(3)[of name] by (auto simp: set_additional_option_def opt)
  then have "for_each (opt # opts)
      (\<lambda>opt. andthen (shopt_exec io (shopt_command opt)) (\<lambda>_. ret ())) st =
        (Inr (), st\<lparr>additional_options := m\<rparr>)"
    using m(1) by (simp add: opt shopt_command_exec andthen_def)
  ultimately show ?case using m(2) by blast
qed

text \<open>\<open>shopt -p\<close> prints one command line for each shell option, in the order of their
  names, and executing the printed commands restores the printed setting of every option from any
  other setting of them, changing nothing else.\<close>

theorem shopt_print_restores:
  assumes st: "interp_ok st" and other: "interp_ok other"
  shows "\<exists>commands.
     shopt_exec io [''-p''] st =
       (Inr 0, emit (out_to io) (concat (map shopt_line commands)) st) \<and>
     map (\<lambda>words. words ! 1) commands = map fst (additional_options st) \<and>
     sorted (map fst (additional_options st)) \<and>
     for_each commands (\<lambda>words. andthen (shopt_exec io words) (\<lambda>_. ret ())) other =
       (Inr (), other\<lparr>additional_options := additional_options st\<rparr>)"
proof -
  let ?opts = "additional_options st"
  let ?commands = "map shopt_command ?opts"
  have sm: "smap_ok ?opts" "smap_ok (additional_options other)"
    and keys: "map fst ?opts = map fst (additional_options other)"
    using st other by (simp_all add: interp_ok_def)
  have "map_of (additional_options other) name \<noteq> None" if "name \<in> fst ` set ?opts" for name
    using that keys by (metis list.set_map map_of_eq_None_iff)
  moreover have "distinct (map fst ?opts)" using sm(1) by (simp add: smap_ok_def strict_sorted_iff)
  ultimately obtain m where m: "for_each ?opts
      (\<lambda>opt. andthen (shopt_exec io (shopt_command opt)) (\<lambda>_. ret ())) other =
        (Inr (), other\<lparr>additional_options := m\<rparr>)"
    "smap_ok m" "map_of m = map_of (additional_options other) ++ map_of ?opts"
    using shopt_replay[OF sm(2), of ?opts io] by blast
  have "dom (map_of (additional_options other)) = dom (map_of ?opts)"
    unfolding dom_map_of_conv_image_fst set_map [symmetric] keys ..
  then have "map_of m k = map_of ?opts k" for k
    unfolding m(3) map_add_def by (auto split: option.split)
  then have "map_of m = map_of ?opts" ..
  then have "m = ?opts" using smap_eq_by_find[OF m(2) sm(1)] by blast
  then have "for_each ?commands (\<lambda>words. andthen (shopt_exec io words) (\<lambda>_. ret ())) other =
      (Inr (), other\<lparr>additional_options := ?opts\<rparr>)" using m(1) by (simp add: for_each_map)
  moreover have "shopt_exec io [''-p''] st =
      (Inr 0, emit (out_to io) (concat (map shopt_line ?commands)) st)"
    using print_opts_written[where io = io and opts = ?opts and st = st]
    by (simp add: shopt_exec_def str_at_def print_opts_def andthen_def comp_def)
  moreover have "map (\<lambda>words. words ! 1) ?commands = map fst ?opts"
    by (simp add: shopt_command_def)
  moreover have "sorted (map fst ?opts)" using sm(1) by (simp add: smap_ok_def strict_sorted_iff)
  ultimately show ?thesis by blast
qed

theorem shopt_print_restores_witness:
  "\<exists>commands. shopt_exec \<lparr>out_to = Cout, err_to = Cerr, in_from = Cin\<rparr> [''-p'']
       (new_interpreter :: nat interp) =
     (Inr 0, emit Cout (concat (map shopt_line commands)) new_interpreter)"
  using shopt_print_restores[OF interp_ok_new interp_ok_new,
      of "\<lparr>out_to = Cout, err_to = Cerr, in_from = Cin\<rparr>", where ?'a = nat and ?'b = nat] by auto

section \<open>Unset\<close>

lemma span_stop:
  "list_all P s \<Longrightarrow> \<not> P b \<Longrightarrow> takeWhile P (s @ b # t) = s \<and> dropWhile P (s @ b # t) = b # t"
  by (induction s) auto

lemma index_pattern_split:
  assumes "set ds \<subseteq> set ''0123456789''"
  shows "index_pattern (array @ ''['' @ ds @ '']'') = Some (array, ds)"
proof -
  let ?d = "\<lambda>c. c \<in> set ''0123456789''"
  have ds: "list_all ?d (rev ds)" using assms by (auto simp: list_all_iff simp del: set_simps)
  have br: "\<not> ?d CHR ''[''" by simp
  have r: "rev (array @ ''['' @ ds @ '']'') = CHR '']'' # rev ds @ CHR ''['' # rev array" by simp
  have "takeWhile ?d (rev ds @ CHR ''['' # rev array) = rev ds"
    "dropWhile ?d (rev ds @ CHR ''['' # rev array) = CHR ''['' # rev array"
    using span_stop[of ?d "rev ds" "CHR ''[''" "rev array", OF ds br] by blast+
  then show ?thesis unfolding index_pattern_def r Let_def list.sel by (simp del: set_simps)
qed

lemma unset_element_spec:
  assumes "interp_ok st" "x \<noteq> []" "hd x \<notin> set ''0123456789''"
    and "\<forall>w. resolve_variable st x = Some w \<longrightarrow> \<not> var_readonly w"
  shows "\<exists>t. unset_element x i st = (Inr (), t) \<and>
     (\<forall>y j. element t y j = (if y = x \<and> j = i then None else element st y j))"
proof (cases "resolve_variable st x")
  case None
  with assms show ?thesis
    by (auto simp: unset_element_def check_unset_positional_def element_def)
next
  case (Some w)
  then have "variable_ok w" using assms(1) by (auto dest: resolve_variable_ok)
  then have find: "map_of (smap_erase i (var_value w)) j = (if j = i then None else map_of (var_value w) j)" for j
    by (simp add: variable_ok_def smap.find_erase)
  have "var_unset_value w i = Inr (w\<lparr>var_value := smap_erase i (var_value w)\<rparr>)"
    using assms(4) Some by (simp add: var_unset_value_def)
  then show ?thesis
    using assms(2-4) Some find
    by (auto simp: unset_element_def check_unset_positional_def element_def resolve_assign
        simp del: set_simps)
qed

text \<open>\<open>unset 'a[i]'\<close> for an array name a that does not start with a digit removes exactly
  the element i of the variable that a resolves to, leaving every other element of every variable,
  and fails with \<open>readonly_exception\<close>, changing nothing, when that variable is readonly; an empty
  index \<open>a[]\<close> is a \<open>bad_lexical_cast\<close> when the empty string is no number.\<close>

theorem unset_array_element:
  assumes ok: "interp_ok st" and x: "x \<noteq> []" "hd x \<notin> set ''0123456789''"
    and ds: "set ds \<subseteq> set ''0123456789''"
  shows "case lex_unsigned B ds of
       None \<Rightarrow> unset_exec B [x @ ''['' @ ds @ '']''] st = (Inl Bad_lexical_cast, st)
     | Some i \<Rightarrow>
         if \<exists>w. resolve_variable st x = Some w \<and> var_readonly w
         then unset_exec B [x @ ''['' @ ds @ '']''] st =
                (Inl (Readonly_exception ''unset a readonly variable''), st)
         else \<exists>t. unset_exec B [x @ ''['' @ ds @ '']''] st = (Inr 0, t) \<and>
                (\<forall>y j. element t y j = (if y = x \<and> j = i then None else element st y j))"
proof -
  let ?arg = "x @ ''['' @ ds @ '']''"
  have "w \<noteq> ''-f'' \<and> w \<noteq> ''-v''" if "last w = CHR '']''" for w using that by auto
  from this[of ?arg] have "?arg \<noteq> ''-f''" "?arg \<noteq> ''-v''" by simp_all
  then have exec: "unset_exec B [?arg] st =
      andthen (unset_variable B ?arg) (\<lambda>_. ret 0) st"
    by (simp add: unset_exec_def andthen_def ret_def split: prod.split sum.split)
  show ?thesis
  proof (cases "lex_unsigned B ds")
    case None
    then have "unset_variable B ?arg st = (Inl Bad_lexical_cast, st)"
      by (simp only: unset_variable_def index_pattern_split[OF ds] option.case prod.case throw_app)
    then show ?thesis unfolding exec using None by (simp add: andthen_def)
  next
    case (Some i)
    have var: "unset_variable B ?arg = unset_element x i"
      by (simp only: unset_variable_def index_pattern_split[OF ds] Some option.case prod.case)
    show ?thesis
    proof (cases "\<exists>w. resolve_variable st x = Some w \<and> var_readonly w")
      case True
      then have "unset_element x i st = (Inl (Readonly_exception ''unset a readonly variable''), st)"
        using x by (auto simp: unset_element_def check_unset_positional_def simp del: set_simps)
      then show ?thesis unfolding exec var using True Some by simp
    next
      case False
      then show ?thesis
        unfolding exec var using unset_element_spec[OF ok x, of i] Some by fastforce
    qed
  qed
qed

theorem unset_array_element_witness:
  "\<exists>t. unset_exec boost_ref [''a[3]''] (new_interpreter :: nat interp) = (Inr 0, t) \<and>
     element t ''IFS'' 0 = element (new_interpreter :: nat interp) ''IFS'' 0"
proof -
  have three: "lex_unsigned boost_ref ''3'' = Some 3"
    by (simp add: boost_ref_def parse_decimal_def digit_value_def)
  have "resolve_variable (new_interpreter :: nat interp) ''a'' = None"
    by (simp add: resolve_variable_def new_interpreter_def Let_def define_var_def)
  then show ?thesis
    using unset_array_element[OF interp_ok_new, of "''a''" "''3''" boost_ref, where ?'a = nat] three
    by auto
qed

section \<open>Echo\<close>

definition option_word :: "string \<Rightarrow> bool" where
  "option_word w \<longleftrightarrow> w = [] \<or>
     (hd w = CHR ''-'' \<and> tl w \<noteq> [] \<and> list_all (\<lambda>c. c \<in> {CHR ''n'', CHR ''e'', CHR ''E''}) (tl w))"

definition last_switch :: "string \<Rightarrow> bool option" where
  \<comment> \<open>what the last \<open>e\<close> or \<open>E\<close> of the letters says about escapes\<close>
  "last_switch s = (let cs = filter (\<lambda>c. c \<in> {CHR ''e'', CHR ''E''}) s
     in if cs = [] then None else Some (last cs = CHR ''e''))"

lemma last_switch_simps [simp]:
  "last_switch [] = None"
  "last_switch (CHR ''e'' # s) = (case last_switch s of None \<Rightarrow> Some True | b \<Rightarrow> b)"
  "last_switch (CHR ''E'' # s) = (case last_switch s of None \<Rightarrow> Some False | b \<Rightarrow> b)"
  "c \<notin> {CHR ''e'', CHR ''E''} \<Longrightarrow> last_switch (c # s) = last_switch s"
  by (simp_all add: last_switch_def Let_def)

lemma last_switch_append:
  "last_switch (s @ t) = (case last_switch t of None \<Rightarrow> last_switch s | b \<Rightarrow> b)"
  by (auto simp: last_switch_def Let_def)

lemma option_letters_all:
  "list_all (\<lambda>c. c \<in> {CHR ''n'', CHR ''e'', CHR ''E''}) s \<Longrightarrow>
     option_letters s (n, e, E) = ((n \<or> CHR ''n'' \<in> set s,
       case last_switch s of None \<Rightarrow> e | Some b \<Rightarrow> b,
       case last_switch s of None \<Rightarrow> E | Some b \<Rightarrow> \<not> b), [])"
proof (induction s arbitrary: n e E)
  case Nil
  then show ?case by simp
next
  case (Cons c s)
  then consider "c = CHR ''n''" | "c = CHR ''e''" | "c = CHR ''E''" by auto
  then show ?case using Cons by cases (auto split: option.split)
qed

lemma option_letters_rest:
  "\<not> list_all (\<lambda>c. c \<in> {CHR ''n'', CHR ''e'', CHR ''E''}) s \<Longrightarrow>
     snd (option_letters s flags) \<noteq> []"
  by (induction s flags rule: option_letters.induct) auto

lemma determine_option_word:
  "option_word w \<Longrightarrow> determine_options w (suppress_nl, escapes) =
     (False, suppress_nl \<or> CHR ''n'' \<in> set w, case last_switch w of None \<Rightarrow> escapes | Some b \<Rightarrow> b)"
  by (cases w) (auto simp: option_word_def determine_options_def option_letters_all split: option.split)

lemma determine_no_option:
  "\<not> option_word w \<Longrightarrow> determine_options w flags = (True, flags)"
  using option_letters_rest[of "tl w" "(False, False, False)"]
  by (cases w) (auto simp: option_word_def determine_options_def split: prod.split)

lemma echo_words_options:
  "list_all option_word opts \<Longrightarrow> echo_words B (opts @ words) (suppress_nl, escapes) =
     echo_words B words (suppress_nl \<or> CHR ''n'' \<in> set (concat opts),
       case last_switch (concat opts) of None \<Rightarrow> escapes | Some b \<Rightarrow> b)"
  by (induction opts arbitrary: suppress_nl escapes)
    (auto simp: determine_option_word last_switch_append disj_assoc split: option.split)

definition escaped_text :: "string list \<Rightarrow> string \<Rightarrow> string" where
  \<comment> \<open>the words with their escapes replaced, up to the first \<open>\c\<close>, and the end if there is none\<close>
  "escaped_text words ending =
     (let outs = map (transform_escapes False) words;
          stopped = dropWhile (\<lambda>out. \<not> snd out) outs
      in concat (map fst (takeWhile (\<lambda>out. \<not> snd out) outs)) @
         (if stopped = [] then ending else fst (hd stopped)))"

lemma echo_escaped_text:
  "(case echo_escaped words of (text, stop) \<Rightarrow> if stop then text else text @ ending) =
     escaped_text words ending"
  by (induction words) (auto simp: escaped_text_def Let_def split: prod.splits if_splits)

lemma echo_exec_output:
  assumes "list_all option_word opts" "words = [] \<or> \<not> option_word (hd words)"
    and "karma_documented B"
  shows "echo_exec B io (opts @ words) st = (Inr 0, emit (out_to io)
     (let ending = if CHR ''n'' \<in> set (concat opts) then [] else [newline]
      in if words = [] then if opts = [] then [newline] else []
         else if last_switch (concat opts) = Some True then escaped_text words ending
         else hd words @ concat (map (\<lambda>w. CHR '' '' # w) (tl words)) @ ending) st)"
proof -
  have join: "karma_list B (w # ws) = w @ concat (map (\<lambda>w. CHR '' '' # w) ws)" for w ws
    using assms(3) by (induction ws arbitrary: w) (auto simp: karma_documented_def)
  let ?n = "CHR ''n'' \<in> set (concat opts)"
  show ?thesis
  proof (cases words)
    case Nil
    then show ?thesis
      using echo_words_options[OF assms(1), of B "[]" False False] by (simp add: echo_exec_def Let_def)
  next
    case (Cons w ws)
    have "determine_options w flags = (True, flags)" for flags
      using assms(2) Cons by (simp add: determine_no_option)
    then have "echo_words B words (?n, escapes) =
        (if escapes then escaped_text words (if ?n then [] else [newline])
         else karma_list B words @ (if ?n then [] else [newline]))" for escapes
      unfolding Cons echo_escaped_text [symmetric] by (auto split: prod.split)
    moreover have "(case last_switch (concat opts) of None \<Rightarrow> False | Some b \<Rightarrow> b) =
        (last_switch (concat opts) = Some True)" by (auto split: option.split)
    ultimately show ?thesis
      using Cons echo_words_options[OF assms(1), of B words False False]
      by (simp add: echo_exec_def join Let_def)
  qed
qed

text \<open>C31 (functional): what \<open>echo\<close> prints. Leading words that are empty, or a dash and letters among n,
  e and E, are options. Without any argument a newline is printed, and with option words only
  nothing, not even the newline. Otherwise, unless the last e or E is an e, the words are printed
  with single blanks between them, and a newline if no n occurred. With escapes enabled the words are
  printed without blanks between them, up to the first \<open>\c\<close>, which also drops the newline.\<close>

theorem echo_output:
  assumes "list_all option_word opts" "words = [] \<or> \<not> option_word (hd words)"
    and "karma_documented B"
  shows "echo_exec B io (opts @ words) st = (Inr 0, emit (out_to io)
     (let ending = if CHR ''n'' \<in> set (concat opts) then [] else [newline]
      in if words = [] then if opts = [] then [newline] else []
         else if last_switch (concat opts) = Some True then escaped_text words ending
         else hd words @ concat (map (\<lambda>w. CHR '' '' # w) (tl words)) @ ending) st)"
  using assms by (rule echo_exec_output)

theorem echo_output_witness:
  "echo_exec boost_ref \<lparr>out_to = Cout, err_to = Cerr, in_from = Cin\<rparr> [''-n'', ''a'', ''b'']
     (new_interpreter :: nat interp) = (Inr 0, emit Cout ''a b'' new_interpreter)"
  using echo_output[OF _ _ boost_ref_karma, of "[''-n'']" "[''a'', ''b'']"
      "\<lparr>out_to = Cout, err_to = Cerr, in_from = Cin\<rparr>" "new_interpreter :: nat interp"]
  by (simp add: option_word_def)

end
