(* ===== verification/Builtin_Read.thy ===== *)
theory Builtin_Read
  imports Builtins Boost_Reference
begin

text \<open>
  src/builtins/read_builtin.cpp: a logical line is read from the input stream, joining lines that
  end in a backslash, its escapes are replaced, and its words become the values of the named
  variables.
\<close>

section \<open>The builtin\<close>

fun rest_of_line :: "string list \<Rightarrow> string" where
  \<comment> \<open>the inner loop of \<open>process\<close> that collects the remaining words\<close>
  "rest_of_line [] = []"
| "rest_of_line [w] = w"
| "rest_of_line (w # w' # ws) = w @ '' '' @ rest_of_line (w' # ws)"

fun read_assignments :: "string list \<Rightarrow> string list \<Rightarrow> (string \<times> string) list" where
  \<comment> \<open>the loops of \<open>process\<close>: the calls of \<open>set_value\<close> in their order\<close>
  "read_assignments [] ws = []"
| "read_assignments (v # vs) [] = (v, []) # read_assignments vs []"
| "read_assignments (v # vs) (w # ws) =
     (if vs = [] then [(v, rest_of_line (w # ws))] else (v, w) # read_assignments vs ws)"

definition read_process :: "boost \<Rightarrow> string list \<Rightarrow> string \<Rightarrow> ('a interp, unit) act" where
  "read_process B args input =
     for_each (map (\<lambda>(n, v). (n, Str v)) (read_assignments args (split_any B '' '' False input)))
       (\<lambda>(n, v). andthen (set_value n v 0) (\<lambda>_. ret ()))"

lemma getline_from_length:
  "getline_from s = (line, s') \<Longrightarrow> length line + length (pending s') \<le> length (pending s)"
proof -
  assume g: "getline_from s = (line, s')"
  let ?t = "takeWhile (\<lambda>c. c \<noteq> newline) (pending s)" and ?d = "dropWhile (\<lambda>c. c \<noteq> newline) (pending s)"
  have "length ?t + length ?d = length (pending s)"
    by (metis length_append takeWhile_dropWhile_id)
  then show ?thesis using g by (auto simp: getline_from_def Let_def split: if_splits)
qed

function read_continued :: "string \<Rightarrow> instream \<Rightarrow> int \<Rightarrow> string option \<times> int \<times> instream" where
  \<comment> \<open>the loop \<open>while(input[input.length()-1] == '\\')\<close>; \<open>None\<close> when \<open>exec\<close> returns inside it\<close>
  "read_continued input s return_value =
     (if input \<noteq> [] \<and> last input = backslash
      then (case getline_from s of (input_line, s') \<Rightarrow>
        let r = (if eofbit s' then 1 else return_value)
        in if butlast input = [] then (None, r, s')
           else read_continued (butlast input @ input_line) s' r)
      else (Some input, return_value, s))"
  by pat_completeness auto
termination
  by (relation "measure (\<lambda>(input, s, r). length input + length (pending s))")
    (auto dest!: getline_from_length[OF sym] simp: length_greater_0_conv [symmetric]
      simp del: length_greater_0_conv)

declare read_continued.simps [simp del]

definition read_exec :: "boost \<Rightarrow> streams \<Rightarrow> string list \<Rightarrow> ('a interp, int) act" where
  "read_exec B io args st =
     (case getline_from (inputs st (in_from io)) of (input, s) \<Rightarrow>
        let return_value = (if eofbit s then 1 else 0)
        in if input = [] then (Inr return_value, st\<lparr>inputs := (inputs st)(in_from io := s)\<rparr>)
           else (case read_continued input s return_value of
               (None, r, s') \<Rightarrow> (Inr r, st\<lparr>inputs := (inputs st)(in_from io := s')\<rparr>)
             | (Some line, r, s') \<Rightarrow>
                 (case transform_escapes False line of (text, stop) \<Rightarrow>
                    (if stop then throw Suppress_output
                     else andthen (read_process B (if args = [] then [''REPLY''] else args) text)
                            (\<lambda>_. ret r))
                      (st\<lparr>inputs := (inputs st)(in_from io := s')\<rparr>))))"

section \<open>Reading a logical line\<close>

definition plain :: "string \<Rightarrow> bool" where
  "plain s \<longleftrightarrow> newline \<notin> set s \<and> backslash \<notin> set s"

lemma getline_line:
  assumes "newline \<notin> set line" "\<not> eofbit s" "\<not> failbit s" "pending s = line @ newline # rest"
  shows "getline_from s = (line, s\<lparr>pending := rest\<rparr>)"
proof -
  have "list_all (\<lambda>c. c \<noteq> newline) line" using assms(1) by (auto simp: list_all_iff)
  then have "takeWhile (\<lambda>c. c \<noteq> newline) (pending s) = line"
    "dropWhile (\<lambda>c. c \<noteq> newline) (pending s) = newline # rest"
    unfolding assms(4) by (induction line) auto
  then show ?thesis using assms(2,3) by (simp add: getline_from_def)
qed

lemma read_continued_lines:
  assumes "\<forall>l \<in> set ls. plain l" "plain line" "line \<noteq> []" "\<not> eofbit s" "\<not> failbit s"
    and "pending s = concat (map (\<lambda>l. l @ [backslash, newline]) (butlast ls)) @
      (if ls = [] then [] else last ls @ [newline]) @ rest"
  shows "read_continued (line @ (if ls = [] then [] else [backslash])) s 0 =
     (Some (line @ concat ls), 0, s\<lparr>pending := rest\<rparr>)"
  using assms
proof (induction ls arbitrary: line s)
  case Nil
  have "last line \<noteq> backslash" using Nil(2,3) by (metis last_in_set plain_def)
  then show ?case using Nil by (simp add: read_continued.simps)
next
  case (Cons l ls)
  have l: "newline \<notin> set l" "backslash \<notin> set l" using Cons.prems(1) by (simp_all add: plain_def)
  let ?l = "l @ (if ls = [] then [] else [backslash])"
  let ?pending = "concat (map (\<lambda>l. l @ [backslash, newline]) (butlast ls)) @
      (if ls = [] then [] else last ls @ [newline]) @ rest"
  let ?s = "s\<lparr>pending := ?pending\<rparr>"
  have "pending s = ?l @ newline # ?pending" using Cons.prems(6) by simp
  moreover have "newline \<notin> set ?l" using l(1) by (simp add: backslash_def newline_def)
  ultimately have "getline_from s = (?l, ?s)" using getline_line Cons.prems(4,5) by blast
  then have "read_continued (line @ [backslash]) s 0 =
      read_continued ((line @ l) @ (if ls = [] then [] else [backslash])) ?s 0"
    using Cons.prems(3,4) by (subst read_continued.simps) simp
  also have "\<dots> = (Some ((line @ l) @ concat ls), 0, ?s\<lparr>pending := rest\<rparr>)"
    by (rule Cons.IH) (use Cons.prems in \<open>auto simp: plain_def\<close>)
  finally show ?case by simp
qed

lemma transform_plain: "backslash \<notin> set s \<Longrightarrow> transform_escapes a s = (s, False)"
  by (induction s) (auto simp: escape_step_def)

section \<open>Splitting and assigning\<close>

lemma split_blank:
  assumes "split_documented B" "ws \<noteq> []" "\<forall>w \<in> set ws. CHR '' '' \<notin> set w"
  shows "split_any B '' '' False (rest_of_line ws) = ws"
  using assms(2,3)
proof (induction ws rule: rest_of_line.induct)
  case 1
  then show ?case by simp
next
  case (2 w)
  then have "dropWhile (\<lambda>x. x \<notin> set '' '') w = []" by (auto simp: dropWhile_eq_Nil_conv)
  then show ?case using assms(1)
    by (subst assms(1)[unfolded split_documented_def, rule_format]) (simp add: Let_def)
next
  case (3 w w' ws)
  have "list_all (\<lambda>x. x \<notin> set '' '') w" using 3(3) by (auto simp: list_all_iff)
  then have "takeWhile (\<lambda>x. x \<notin> set '' '') (rest_of_line (w # w' # ws)) = w"
    "dropWhile (\<lambda>x. x \<notin> set '' '') (rest_of_line (w # w' # ws)) = CHR '' '' # rest_of_line (w' # ws)"
    by (induction w) auto
  then show ?case using 3
    by (subst assms(1)[unfolded split_documented_def, rule_format]) (simp add: Let_def)
qed

lemma read_assignments_names: "map fst (read_assignments vs ws) = vs"
  by (induction vs ws rule: read_assignments.induct) auto

lemma read_assignments_nth:
  "i < length vs \<Longrightarrow> snd (read_assignments vs ws ! i) =
     (if i + 1 < length vs then (if i < length ws then ws ! i else [])
      else rest_of_line (drop i ws))"
proof (induction vs ws arbitrary: i rule: read_assignments.induct)
  case (1 ws)
  then show ?case by simp
next
  case (2 v vs)
  then show ?case by (cases i) auto
next
  case (3 v vs w ws)
  then show ?case by (cases i) auto
qed

lemma length_read_assignments: "length (read_assignments vs ws) = length vs"
  using arg_cong[OF read_assignments_names, of length vs ws] by simp

definition written_lines :: "string \<Rightarrow> string list \<Rightarrow> string" where
  \<comment> \<open>the physical lines of one logical line: all but the last end in a backslash\<close>
  "written_lines l ls = l @ concat (map (\<lambda>m. [backslash, newline] @ m) ls) @ [newline]"

lemma written_lines_cases:
  "written_lines l ls @ rest = (l @ (if ls = [] then [] else [backslash])) @ newline #
     concat (map (\<lambda>l. l @ [backslash, newline]) (butlast ls)) @
     (if ls = [] then [] else last ls @ [newline]) @ rest"
proof (cases ls rule: rev_cases)
  case Nil
  then show ?thesis by (simp add: written_lines_def)
next
  case (snoc ms m)
  have "concat (map (\<lambda>m. [backslash, newline] @ m) ms) @ [backslash, newline] =
      [backslash, newline] @ concat (map (\<lambda>l. l @ [backslash, newline]) ms)"
    by (induction ms) auto
  then show ?thesis by (simp add: written_lines_def snoc)
qed

lemma set_inputs:
  "interp_ok (st\<lparr>inputs := f\<rparr>) = interp_ok st"
  "resolve_variable (st\<lparr>inputs := f\<rparr>) x = resolve_variable st x"
  by (simp_all add: interp_ok_def resolve_variable_def split: option.split)

lemma set_value_inputs: "inputs (snd (set_value n v i st)) = inputs st"
  by (auto simp: set_value_def assign_variable_def define_var_def split: option.split sum.split)

lemma for_each_set_inputs:
  "inputs (snd (for_each kvs (\<lambda>(n, v). andthen (set_value n v i) (\<lambda>_. ret ())) st)) = inputs st"
proof (induction kvs arbitrary: st)
  case Nil
  then show ?case by simp
next
  case (Cons kv kvs)
  have "inputs (snd (andthen m f s)) = inputs s"
    if "inputs (snd (m s)) = inputs s" "\<And>x s. inputs (snd (f x s)) = inputs s"
    for m :: "('a interp, 'x) act" and f :: "'x \<Rightarrow> ('a interp, unit) act" and s
    using that by (simp add: andthen_app split: sum.split)
  then show ?case using Cons set_value_inputs by (auto simp: andthen_app split: prod.split sum.split)
qed



end
