(* ===== verification/Builtins_Source.thy ===== *)
theory Builtins_Source
  imports Builtin_Read
begin

text \<open>
  src/builtins: eval, export, local, declare, source, inherit and printf, the builtins that parse and run
  further script text or consult the function table; and the table of all builtins of
  src/cppbash_builtin.cpp with its lookup and execution. \<open>boost::format\<close> is the parameter
  \<open>F\<close>, and the environment variable \<open>ECLASSDIR\<close> the parameter \<open>E\<close>.
\<close>

section \<open>Eval, export, local\<close>

definition get_status :: "('a interp, int) act" where
  "get_status st = (Inr (status st), st)"

definition eval_exec :: "boost \<Rightarrow> 'a antlr \<Rightarrow> string list \<Rightarrow> ('a interp, int) act" where
  "eval_exec B W args =
     andthen (interpret_ast (ast_of_stream B W (join_with B args '' '') Parser_start True)
                (walker_start W))
       (\<lambda>_. get_status)"

definition define_variables :: "boost \<Rightarrow> 'a antlr \<Rightarrow> string \<Rightarrow> bool \<Rightarrow> ('a interp, unit) act" where
  "define_variables B W script local =
     interpret_ast (ast_of_stream B W script (Parser_builtin_variable_definitions local) True)
       (walker_start W)"

definition export_exec :: "boost \<Rightarrow> 'a antlr \<Rightarrow> string list \<Rightarrow> ('a interp, int) act" where
  "export_exec B W args = andthen (define_variables B W (concat args) False) (\<lambda>_. ret 0)"

definition local_exec :: "boost \<Rightarrow> 'a antlr \<Rightarrow> string list \<Rightarrow> ('a interp, int) act" where
  "local_exec B W args = andthen (define_variables B W (concat args) True) (\<lambda>_. ret 0)"

section \<open>Declare\<close>

definition put_line :: "streams \<Rightarrow> string \<Rightarrow> ('a interp, unit) act" where
  "put_line io line = modify (emit (out_to io) (line @ [newline]))"

fun declare_functions :: "streams \<Rightarrow> string list \<Rightarrow> int \<Rightarrow> ('a interp, int) act" where
  \<comment> \<open>\<open>declare -F name...\<close>\<close>
  "declare_functions io [] result = ret result"
| "declare_functions io (n # ns) result = (\<lambda>st.
     if has_function n st
     then andthen (put_line io n) (\<lambda>_. declare_functions io ns result) st
     else declare_functions io ns 1 st)"

definition declare_all_functions :: "streams \<Rightarrow> ('a interp, int) act" where
  \<comment> \<open>\<open>declare -F\<close>\<close>
  "declare_all_functions io st =
     andthen (for_each (sort (get_all_function_names st))
                (\<lambda>f. put_line io (''declare -f '' @ f)))
       (\<lambda>_. ret 0) st"

fun declare_print :: "boost \<Rightarrow> streams \<Rightarrow> string list \<Rightarrow> int \<Rightarrow> ('a interp, int) act" where
  \<comment> \<open>\<open>declare -p name...\<close>; C++ leaves open what of a line is printed when \<open>resolve\<close> throws\<close>
  "declare_print B io [] result = ret result"
| "declare_print B io (n # ns) result = (\<lambda>st.
     if \<not> is_unset n st
     then andthen (query (resolve_string B n 0)) (\<lambda>v.
            andthen (put_line io (''declare -- '' @ n @ ''='' @ [CHR 0x22] @ v @ [CHR 0x22]))
              (\<lambda>_. declare_print B io ns result)) st
     else andthen (put_line io (''-bash: declare: '' @ n @ '': not found''))
            (\<lambda>_. declare_print B io ns 1) st)"

definition declare_variables ::
  "boost \<Rightarrow> 'a antlr \<Rightarrow> string list \<Rightarrow> nat \<Rightarrow> bool \<Rightarrow> ('a interp, int) act" where
  \<comment> \<open>the end of \<open>exec\<close>: the script without the first \<open>skip\<close> characters\<close>
  "declare_variables B W args skip option_global st =
     (let script = drop skip (concat (map (\<lambda>a. a @ '' '') args));
          local = is_local_scope st \<and> \<not> option_global
      in andthen (define_variables B W script local) (\<lambda>_. ret 0) st)"

definition declare_exec ::
  "boost \<Rightarrow> 'a antlr \<Rightarrow> streams \<Rightarrow> string list \<Rightarrow> ('a interp, int) act" where
  "declare_exec B W io args =
     (if args = [] then throw (Illegal_argument_exception ''declare: arguments required'')
      else let tokens = split_any B '' '' False (hd args); token = hd tokens in
        if str_at token 0 = CHR ''-'' \<or> str_at token 0 = CHR ''+''
        then if length token > 2
          then throw (Unsupported_exception (''declare: '' @ token @ '' is not supported yet''))
          else let c = str_at token 1 in
            if c = CHR ''F''
            then if str_at token 0 = CHR ''+'' then ret 0
                 else if length tokens > 1 then declare_functions io (tl tokens) 0
                 else declare_all_functions io
            else if c = CHR ''p''
            then if length tokens > 1 then declare_print B io (tl tokens) 0
                 else throw (Unsupported_exception
                        ''We do not support declare -p without arguments for now'')
            else if c = CHR ''a'' \<or> c = CHR ''i''
            then declare_variables B W args (length token) False
            else if c = CHR ''g'' then declare_variables B W args (length token) True
            else if c \<in> set ''Aflrtux''
            then throw (Unsupported_exception (''declare '' @ token @ '' is not supported yet''))
            else throw (Illegal_argument_exception (''declare: unrecognized option: '' @ token))
        else declare_variables B W args 0 False)"

section \<open>Source\<close>

definition cache_entry :: "string \<Rightarrow> 'a option \<Rightarrow> 'a interp \<Rightarrow> 'a interp" where
  "cache_entry path entry st =
     st\<lparr>statics := (statics st)\<lparr>ast_cache := (ast_cache (statics st))(path \<mapsto> entry)\<rparr>\<rparr>"

definition parse_file :: "boost \<Rightarrow> 'a antlr \<Rightarrow> string \<Rightarrow> ('a interp, 'a) act" where
  \<comment> \<open>\<open>parse\<close>: the entry is made, with an empty pointer, before the file is parsed\<close>
  "parse_file B W path st = (case ast_cache (statics st) path of
       None \<Rightarrow>
         (case ast_of_file B W path Parser_start True of
            Inl e \<Rightarrow> (Inl e, cache_entry path None st)
          | Inr ast \<Rightarrow> (Inr ast, cache_entry path (Some ast) st))
     | Some None \<Rightarrow> (Inl (Parse_exception (path @ '' cannot be fully parsed'')), st)
     | Some (Some ast) \<Rightarrow> (Inr ast, st))"

definition catch_return :: "('a interp, unit) act \<Rightarrow> ('a interp, unit) act" where
  \<comment> \<open>\<open>catch(return_exception& e) {}\<close>\<close>
  "catch_return m st = (case m st of (r, t) \<Rightarrow> (if r = Inl Return_exception then Inr () else r, t))"

definition source_exec :: "boost \<Rightarrow> 'a antlr \<Rightarrow> string list \<Rightarrow> ('a interp, int) act" where
  "source_exec B W args =
     (if args = [] then throw (Illegal_argument_exception ''source: argument required'')
      else andthen (query (resolve_string B ''0'' 0)) (\<lambda>original_path.
        andthen (modify (define_var ''0'' (Str (hd args)) True 0)) (\<lambda>_.
        andthen (catch_return (andthen (parse_file B W (hd args)) (interpret_with (walker_start W)))) (\<lambda>_.
        andthen (modify (define_var ''0'' (Str original_path) True 0)) (\<lambda>_. get_status)))))"

section \<open>Inherit\<close>

definition append_global :: "boost \<Rightarrow> string \<Rightarrow> ('a interp, unit) act" where
  "append_global B name st =
     (if \<not> is_unset_or_null B name 0 st
      then andthen (query (resolve_string B (''E_'' @ name) 0)) (\<lambda>e.
           andthen (query (resolve_string B name 0)) (\<lambda>v.
           andthen (set_value (''E_'' @ name) (Str (e @ '' '' @ v)) 0) (\<lambda>_. ret ()))) st
      else (Inr (), st))"

definition restore_global :: "string \<Rightarrow> string \<Rightarrow> ('a interp, unit) act" where
  "restore_global name v =
     (if v \<noteq> [] then andthen (set_value name (Str v) 0) (\<lambda>_. ret ()) else unset name)"

definition backup_global :: "boost \<Rightarrow> string \<Rightarrow> ('a interp, string) act" where
  "backup_global B name =
     andthen (query (resolve_string B name 0)) (\<lambda>v. andthen (unset name) (\<lambda>_. ret v))"

definition hasq :: "boost \<Rightarrow> string \<Rightarrow> string \<Rightarrow> 'a interp \<Rightarrow> bool res" where
  "hasq B v name st = bind_res (resolve_string B name 0 st) (\<lambda>target. Inr (str_contains target v))"

definition is_space :: "char \<Rightarrow> bool" where
  "is_space c \<longleftrightarrow> c \<in> {CHR '' '', CHR 0x09, CHR 0x0A, CHR 0x0B, CHR 0x0C, CHR 0x0D}"

function stream_words :: "string \<Rightarrow> string list" where
  \<comment> \<open>\<open>while(stream >> word)\<close>\<close>
  "stream_words s =
     (let t = dropWhile is_space s
      in if t = [] then []
         else takeWhile (\<lambda>c. \<not> is_space c) t # stream_words (dropWhile (\<lambda>c. \<not> is_space c) t))"
  by pat_completeness auto
termination
proof (relation "measure length", goal_cases)
  case 1
  show ?case by simp
next
  case (2 s t)
  have shorter: "length (dropWhile (\<lambda>c. \<not> is_space c) u) < length u"
    if "u \<noteq> []" "\<not> is_space (hd u)" for u
    using that by (cases u) (auto simp: le_imp_less_Suc length_dropWhile_le)
  have "\<not> is_space (hd t)" using 2 hd_dropWhile by metis
  then have "length (dropWhile (\<lambda>c. \<not> is_space c) t) < length t" using shorter 2 by blast
  moreover have "length t \<le> length s" using 2 by (simp add: length_dropWhile_le)
  ultimately show ?case by simp
qed

declare stream_words.simps [simp del]

definition inherited_globals :: "string list" where
  "inherited_globals = [''IUSE'', ''REQUIRED_USE'', ''DEPEND'', ''RDEPEND'', ''PDEPEND'']"

fun map_act :: "('x \<Rightarrow> ('s, 'y) act) \<Rightarrow> 'x list \<Rightarrow> ('s, 'y list) act" where
  "map_act f [] = ret []"
| "map_act f (x # xs) = andthen (f x) (\<lambda>y. andthen (map_act f xs) (\<lambda>ys. ret (y # ys)))"

definition export_functions :: "boost \<Rightarrow> 'a antlr \<Rightarrow> ('a interp, unit) act" where
  \<comment> \<open>the definitions made for the names in the variable that \<open>__export_funcs_var\<close> names\<close>
  "export_functions B W =
     andthen (query (resolve_string B ''__export_funcs_var'' 0)) (\<lambda>var. \<lambda>st.
       if is_unset var st then (Inr (), st)
       else andthen (query (resolve_string B ''__export_funcs_var'' 0)) (\<lambda>var'.
            andthen (query (resolve_string B var' 0)) (\<lambda>names.
            for_each (stream_words names) (\<lambda>func_name.
              andthen (query (resolve_string B ''ECLASS'' 0)) (\<lambda>eclass.
              andthen (eval_exec B W
                 [func_name @ ''() { '' @ eclass @ ''_'' @ func_name @ '' '' @
                  [CHR 0x22] @ ''$@'' @ [CHR 0x22] @ '' ; }'']) (\<lambda>_. ret ()))))) st)"

definition inherit_eclass ::
  "boost \<Rightarrow> 'a antlr \<Rightarrow> string \<Rightarrow> string \<Rightarrow> ('a interp, unit) act" where
  \<comment> \<open>one round of the loop over the arguments\<close>
  "inherit_eclass B W eclassdir name =
     andthen (set_value ''ECLASS'' (Str name) 0) (\<lambda>_.
     andthen (query (resolve_string B ''ECLASS_DEPTH'' 0)) (\<lambda>depth.
     andthen (modify (define_var ''__export_funcs_var'' (Str (''__export_functions_'' @ depth)) False 0)) (\<lambda>_.
     andthen (query (resolve_string B ''__export_funcs_var'' 0)) (\<lambda>var.
     andthen (unset var) (\<lambda>_.
     andthen (map_act (backup_global B) inherited_globals) (\<lambda>backups.
     andthen (source_exec B W [eclassdir @ name @ ''.eclass'']) (\<lambda>_.
     andthen (for_each inherited_globals (append_global B)) (\<lambda>_.
     andthen (for_each (zip inherited_globals backups) (\<lambda>(n, v). restore_global n v)) (\<lambda>_.
     andthen (export_functions B W) (\<lambda>_.
     andthen (query (resolve_string B ''__export_funcs_var'' 0)) (\<lambda>var'.
     andthen (unset var') (\<lambda>_.
     andthen (query (hasq B name ''INHERITED'')) (\<lambda>already.
     if already then ret ()
     else andthen (query (resolve_string B ''INHERITED'' 0)) (\<lambda>inherited.
          andthen (set_value ''INHERITED'' (Str (inherited @ '' '' @ name)) 0)
            (\<lambda>_. ret ())))))))))))))))"

definition inherit_exec ::
  "boost \<Rightarrow> 'a antlr \<Rightarrow> string option \<Rightarrow> string list \<Rightarrow> ('a interp, int) act" where
  "inherit_exec B W E args =
     andthen (query (resolve_long B ''ECLASS_DEPTH'' 0)) (\<lambda>depth.
     andthen (set_value ''ECLASS_DEPTH'' (Long (depth + 1)) 0) (\<lambda>_.
     let eclassdir = (case E of Some dir \<Rightarrow> dir @ ''/'' | None \<Rightarrow> ''/usr/portage/eclass/'') in
     andthen (query (resolve_string B ''ECLASS'' 0)) (\<lambda>peclass.
     andthen (query (resolve_string B ''__export_funcs_var'' 0)) (\<lambda>_.
     andthen (for_each args (inherit_eclass B W eclassdir)) (\<lambda>_.
     andthen (query (resolve_long B ''ECLASS_DEPTH'' 0)) (\<lambda>depth'.
     andthen (set_value ''ECLASS_DEPTH'' (Long (depth' - 1)) 0) (\<lambda>_.
     andthen (query (resolve_long B ''ECLASS_DEPTH'' 0)) (\<lambda>left.
     if 0 <s left then andthen (set_value ''ECLASS'' (Str peclass) 0) (\<lambda>_. ret 0)
     else andthen (unset ''ECLASS'') (\<lambda>_.
          andthen (unset ''__export_funcs_var'') (\<lambda>_. ret 0))))))))))"

section \<open>Printf\<close>

datatype 'f fed = Fed 'f | Too_many_args | Feed_error

text \<open>\<open>boost::format\<close>: construction from a format string, which may throw; the operator
  \<open>%\<close>; and what the formatter prints.\<close>

record 'f format_library =
  format_parse :: "string \<Rightarrow> 'f option"
  format_feed :: "'f \<Rightarrow> string \<Rightarrow> 'f fed"
  format_str :: "'f \<Rightarrow> string"

fun printf_feed ::
  "'f format_library \<Rightarrow> string \<Rightarrow> string \<Rightarrow> 'f \<Rightarrow> string list \<Rightarrow> string res" where
  \<comment> \<open>the loop over the arguments with the text in \<open>output\<close>, and the final \<open>output << formatter\<close>\<close>
  "printf_feed F format output formatter [] = Inr (output @ format_str F formatter)"
| "printf_feed F format output formatter (a # as) =
     (case format_feed F formatter a of
        Fed f \<Rightarrow> printf_feed F format output f as
      | Feed_error \<Rightarrow> Inl Format_error
      | Too_many_args \<Rightarrow>
          (case format_parse F format of
             None \<Rightarrow> Inl Format_error
           | Some fresh \<Rightarrow>
               (case format_feed F fresh a of
                  Fed f \<Rightarrow> printf_feed F format (output @ format_str F formatter) f as
                | _ \<Rightarrow> Inl Format_error)))"

definition printf_format :: "'f format_library \<Rightarrow> string list \<Rightarrow> string res" where
  \<comment> \<open>the words from \<open>begin\<close> on\<close>
  "printf_format F words = (case transform_escapes False (hd words) of (format, stop) \<Rightarrow>
     if stop then Inl Suppress_output
     else (case format_parse F format of
         None \<Rightarrow> Inl Format_error
       | Some formatter \<Rightarrow> printf_feed F format [] formatter (tl words)))"

definition printf_exec ::
  "'f format_library \<Rightarrow> streams \<Rightarrow> string list \<Rightarrow> ('a interp, int) act" where
  "printf_exec F io args =
     (if args = [] then throw (Undefined_behaviour ''printf: element 0 of an empty vector'')
      else if hd args = ''-v'' \<and> length args < 3
      then throw (Illegal_argument_exception ''printf: illegal number of arguments'')
      else andthen (query (\<lambda>st. printf_format F (if hd args = ''-v'' then drop 2 args else args)))
        (\<lambda>output.
          if str_at (hd args) 0 \<noteq> CHR ''-''
          then andthen (modify (emit (out_to io) output)) (\<lambda>_. ret 0)
          else if hd args = ''-v''
          then andthen (set_value (args ! 1) (Str output) 0) (\<lambda>_. ret 0)
          else throw (Illegal_argument_exception (''printf: invalid option: '' @ hd args))))"

section \<open>The table\<close>

definition builtin_table ::
  "boost \<Rightarrow> 'a antlr \<Rightarrow> 'f format_library \<Rightarrow> string option \<Rightarrow> streams \<Rightarrow>
     (string \<times> (string list \<Rightarrow> ('a interp, int) act)) list" where
  "builtin_table B W F E io = [
     (''break'', break_exec B), (''continue'', continue_exec B), (''echo'', echo_exec B io),
     (''eval'', eval_exec B W), (''export'', export_exec B W), (''local'', local_exec B W),
     (''declare'', declare_exec B W io), (''source'', source_exec B W),
     (''shift'', shift_exec B), (''shopt'', shopt_exec io), (''inherit'', inherit_exec B W E),
     ('':'', true_exec), (''true'', true_exec), (''false'', false_exec),
     (''return'', return_exec B), (''printf'', printf_exec F io), (''let'', let_exec B W),
     (''unset'', unset_exec B), (''read'', read_exec B io), (''set'', set_exec)]"

definition is_builtin :: "string \<Rightarrow> 'a interp \<Rightarrow> bool" where
  "is_builtin name st \<longleftrightarrow>
     name \<in> set [''break'', ''continue'', ''echo'', ''eval'', ''export'', ''local'', ''declare'',
       ''source'', ''shift'', ''shopt'', ''inherit'', '':'', ''true'', ''false'', ''return'',
       ''printf'', ''let'', ''unset'', ''read'', ''set''] \<or>
     name \<in> set (null_builtins (statics st))"

definition exec_builtin ::
  "boost \<Rightarrow> 'a antlr \<Rightarrow> 'f format_library \<Rightarrow> string option \<Rightarrow> string \<Rightarrow> string list \<Rightarrow>
     streams \<Rightarrow> ('a interp, int) act" where
  \<comment> \<open>\<open>cppbash_builtin::exec\<close>: \<open>operator[]\<close> enters an unknown name with an empty function\<close>
  "exec_builtin B W F E name args io st = (case map_of (builtin_table B W F E io) name of
       Some exec \<Rightarrow> exec args st
     | None \<Rightarrow> (Inl Bad_function_call,
         st\<lparr>statics := (statics st)\<lparr>null_builtins := name # null_builtins (statics st)\<rparr>\<rparr>))"

definition execute_builtin ::
  "boost \<Rightarrow> 'a antlr \<Rightarrow> 'f format_library \<Rightarrow> string option \<Rightarrow> string \<Rightarrow> string list \<Rightarrow>
     ostream option \<Rightarrow> ostream option \<Rightarrow> istream option \<Rightarrow> ('a interp, int) act" where
  \<comment> \<open>\<open>interpreter::execute_builtin\<close>: the current streams where none is given\<close>
  "execute_builtin B W F E name args output error input st =
     exec_builtin B W F E name args
       \<lparr>out_to = (case output of None \<Rightarrow> out_stream st | Some o' \<Rightarrow> o'),
        err_to = (case error of None \<Rightarrow> err_stream st | Some o' \<Rightarrow> o'),
        in_from = (case input of None \<Rightarrow> in_stream st | Some i' \<Rightarrow> i')\<rparr> st"

end
