(* ===== verification/Antlr_Reference.thy ===== *)
theory Antlr_Reference
  imports Bash_Ast Scoping Boost_Reference
begin

text \<open>
  A concrete instance of the generated lexer, parser and tree walker. It is no part of the model:
  the properties that take the generated code as a parameter are witnessed at it.
\<close>

definition echoing_antlr :: "string antlr" where
  \<comment> \<open>a tree is the text of its script, and running it assigns that text to \<open>ran\<close>; the only file
    is \<open>/f\<close>, and scripts that begin with a question mark do not parse\<close>
  "echoing_antlr = \<lparr>
     antlr_parse = (\<lambda>rule script. Inr (script, if take 1 script = ''?'' then 1 else 0)),
     walker_start = (\<lambda>ast. andthen (set_value ''ran'' (Str ast) 0) (\<lambda>_. ret ())),
     walker_arithmetics = (\<lambda>ast. ret (of_nat (length ast))),
     walker_string_expr = ret,
     walker_compound_command = (\<lambda>ast i. ret ()),
     file_text = (\<lambda>path. if path = ''/f'' then Some ''x=1'' else None)\<rparr>"

lemma echoing_antlr_keeps: "walkers_keep interp_ok echoing_antlr"
  by (auto simp: walkers_keep_def echoing_antlr_def intro!: keeps_intros)

lemma echoing_antlr_steps: "script_step\<^sup>*\<^sup>* s (snd (walker_start echoing_antlr ast s))"
proof -
  have "snd (walker_start echoing_antlr ast s) = snd (set_value ''ran'' (Str ast) 0 s)"
    by (simp add: echoing_antlr_def andthen_app split: sum.split)
  then show ?thesis using step_set[of s "''ran''" "Str ast" 0] by (metis r_into_rtranclp)
qed

lemma eval_arithmetic_echoing:
  assumes "read_script boost_ref s True = t" "length t < 2 ^ 32" "take 1 t \<noteq> ''?''"
  shows "eval_arithmetic boost_ref echoing_antlr s st = (Inr (of_nat (length t)), st)"
  using assms
  by (simp add: eval_arithmetic_def interpret_ast_def ast_of_stream_def init_parser_def
      echoing_antlr_def interpret_with_def push_current_ast_def pop_current_ast_def)

end
