(* ===== verification/Condition.thy ===== *)
theory Condition
  imports Antlr_Reference
begin

text \<open>
  src/core/bash_condition.cpp: the operators of the conditional expressions. The system calls on
  files and terminals are the parameter \<open>OS\<close>; a call that fails is \<open>None\<close>.
\<close>

section \<open>The system\<close>

datatype file_type =
  Block_device | Character_device | Directory | Regular | Fifo | Symbolic_link | Socket

datatype access_mode = F_OK | R_OK | W_OK | X_OK

record stat_info =
  st_type :: file_type
  st_setuid :: bool
  st_setgid :: bool
  st_sticky :: bool
  st_size :: int
  st_uid :: nat
  st_gid :: nat
  st_mtime :: int
  st_atime :: int
  st_dev :: nat
  st_ino :: nat

record system =
  os_stat :: "string \<Rightarrow> stat_info option"
  os_lstat :: "string \<Rightarrow> stat_info option"
  os_access :: "string \<Rightarrow> access_mode \<Rightarrow> bool"
  os_isatty :: "int \<Rightarrow> bool"
  os_geteuid :: nat
  os_getegid :: nat

section \<open>Unary operators\<close>

definition file_test :: "system \<Rightarrow> string \<Rightarrow> stat_info \<Rightarrow> (char \<times> bool) list" where
  \<comment> \<open>the switch of \<open>test_file_stat\<close>: the result of each operator\<close>
  "file_test OS path info = [
     (CHR ''a'', True), (CHR ''e'', True),
     (CHR ''b'', st_type info = Block_device),
     (CHR ''c'', st_type info = Character_device),
     (CHR ''d'', st_type info = Directory),
     (CHR ''f'', st_type info = Regular),
     (CHR ''g'', st_setgid info),
     (CHR ''k'', st_sticky info),
     (CHR ''p'', st_type info = Fifo),
     (CHR ''r'', os_access OS path R_OK),
     (CHR ''s'', st_size info > 0),
     (CHR ''u'', st_setuid info),
     (CHR ''w'', os_access OS path W_OK),
     (CHR ''x'', os_access OS path X_OK),
     (CHR ''O'', os_geteuid OS = st_uid info),
     (CHR ''G'', os_getegid OS = st_gid info),
     (CHR ''S'', st_type info = Socket),
     (CHR ''N'', st_mtime info \<ge> st_atime info)]"

definition test_file_stat :: "system \<Rightarrow> char \<Rightarrow> string \<Rightarrow> bool res" where
  "test_file_stat OS op path =
     (if op = CHR ''L'' \<or> op = CHR ''h''
      then Inr (case os_lstat OS path of None \<Rightarrow> False | Some info \<Rightarrow> st_type info = Symbolic_link)
      else (case os_stat OS path of
          None \<Rightarrow> Inr False
        | Some info \<Rightarrow>
            if \<not> os_access OS path F_OK then Inr False
            else (case map_of (file_test OS path info) op of
                Some b \<Rightarrow> Inr b
              | None \<Rightarrow> Inl (Illegal_argument_exception (''Unrecognized test operator -'' @ [op])))))"

definition test_unary :: "boost \<Rightarrow> system \<Rightarrow> char \<Rightarrow> string \<Rightarrow> bool res" where
  "test_unary B OS op target =
     (if op = CHR ''z'' then Inr (target = [])
      else if op = CHR ''n'' then Inr (target \<noteq> [])
      else if op = CHR ''o''
      then Inl (Unsupported_exception ''Shell option test is not supported'')
      else if op = CHR ''t''
      then Inr (case lex_int B target of None \<Rightarrow> False | Some fd \<Rightarrow> os_isatty OS fd)
      else test_file_stat OS op target)"

section \<open>Binary operators\<close>

definition file_comp :: "system \<Rightarrow> char \<Rightarrow> string \<Rightarrow> string \<Rightarrow> bool res" where
  "file_comp OS op lhs rhs =
     (let lst = os_stat OS lhs; rst = os_stat OS rhs;
          lstatus = (if lst = None then - 1 else 0 :: int);
          rstatus = (if rst = None then - 1 else 0 :: int)
      in if op = CHR ''e'' \<and> (lstatus < 0 \<or> rstatus < 0) then Inr False
         else if op = CHR ''n''
         then Inr (lstatus > rstatus \<or> (lstatus = 0 \<and> st_mtime (the lst) > st_mtime (the rst)))
         else if op = CHR ''o''
         then Inr (lstatus < rstatus \<or> (rstatus = 0 \<and> st_mtime (the lst) < st_mtime (the rst)))
         else if op = CHR ''e''
         then Inr (st_dev (the lst) = st_dev (the rst) \<and> st_ino (the lst) = st_ino (the rst))
         else Inl (Illegal_argument_exception (''Unrecognized option for file test '' @ [op])))"

definition compare_values ::
  "boost \<Rightarrow> 'a antlr \<Rightarrow> (c_long \<Rightarrow> c_long \<Rightarrow> bool) \<Rightarrow> string \<Rightarrow> string \<Rightarrow> ('a interp, bool) act" where
  \<comment> \<open>C++ leaves the order of the two evaluations open; here the left one is first\<close>
  "compare_values B W cmp lhs rhs =
     andthen (eval_arithmetic B W lhs) (\<lambda>a.
     andthen (eval_arithmetic B W rhs) (\<lambda>b. ret (cmp a b)))"

definition test_binary_body ::
  "boost \<Rightarrow> 'a antlr \<Rightarrow> system \<Rightarrow> string \<Rightarrow> string \<Rightarrow> string \<Rightarrow> ('a interp, bool) act" where
  "test_binary_body B W OS op lhs rhs =
     (if op = ''nt'' then query (\<lambda>_. file_comp OS CHR ''n'' lhs rhs)
      else if op = ''ot'' then query (\<lambda>_. file_comp OS CHR ''o'' lhs rhs)
      else if op = ''ef'' then query (\<lambda>_. file_comp OS CHR ''e'' lhs rhs)
      else if op = ''eq'' then compare_values B W (=) lhs rhs
      else if op = ''ne'' then compare_values B W (\<noteq>) lhs rhs
      else if op = ''lt'' then compare_values B W (<s) lhs rhs
      else if op = ''le'' then compare_values B W (\<le>s) lhs rhs
      else if op = ''gt'' then compare_values B W (\<lambda>a b. b <s a) lhs rhs
      else if op = ''ge'' then compare_values B W (\<lambda>a b. b \<le>s a) lhs rhs
      else throw (Illegal_argument_exception (''Unrecognized operator '' @ op)))"

definition test_binary ::
  "boost \<Rightarrow> 'a antlr \<Rightarrow> system \<Rightarrow> string \<Rightarrow> string \<Rightarrow> string \<Rightarrow> ('a interp, bool) act" where
  "test_binary B W OS op lhs rhs st =
     (if length op \<noteq> 2
      then (Inl (Illegal_argument_exception (''Unrecognized operator '' @ op)), st)
      else (case test_binary_body B W OS op lhs rhs st of
          (Inl Bad_lexical_cast, t) \<Rightarrow> (Inr False, t)
        | r \<Rightarrow> r))"

lemma keeps_test_binary [keeps_intros]:
  assumes "walkers_keep interp_ok W"
  shows "keeps interp_ok (test_binary B W OS op lhs rhs)"
proof -
  have c: "keeps interp_ok (compare_values B W cmp lhs rhs)" for cmp
    unfolding compare_values_def by (intro keeps_intros assms)
  have "keeps interp_ok (test_binary_body B W OS op lhs rhs)"
    unfolding test_binary_body_def by (intro keeps_intros c)
  then show ?thesis
    by (auto simp: keeps_def test_binary_def split: prod.split sum.split exn.split)
qed

section \<open>Properties\<close>

definition newer :: "system \<Rightarrow> string \<Rightarrow> string \<Rightarrow> bool" where
  "newer OS f g \<longleftrightarrow> file_comp OS CHR ''n'' f g = Inr True"

text \<open>The file comparisons never fail, and order files: \<open>-nt\<close> is irreflexive and
  transitive with a missing file older than every existing one, \<open>-ot\<close> is its converse, and
  \<open>-ef\<close> is symmetric, transitive, and reflexive exactly on the files that exist.\<close>

theorem file_comparisons_order:
  "(file_comp OS CHR ''n'' f g = Inr True \<or> file_comp OS CHR ''n'' f g = Inr False) \<and>
   file_comp OS CHR ''o'' f g = file_comp OS CHR ''n'' g f \<and>
   \<not> newer OS f f \<and> (newer OS f g \<longrightarrow> newer OS g h \<longrightarrow> newer OS f h) \<and>
   (newer OS f g \<longleftrightarrow> (case (os_stat OS f, os_stat OS g) of
      (Some a, Some b) \<Rightarrow> st_mtime b < st_mtime a | (Some a, None) \<Rightarrow> True | _ \<Rightarrow> False)) \<and>
   file_comp OS CHR ''e'' f f = Inr (os_stat OS f \<noteq> None) \<and>
   file_comp OS CHR ''e'' f g = file_comp OS CHR ''e'' g f \<and>
   (file_comp OS CHR ''e'' f g = Inr True \<longrightarrow> file_comp OS CHR ''e'' g h = Inr True \<longrightarrow>
      file_comp OS CHR ''e'' f h = Inr True)"
  by (auto simp: newer_def file_comp_def Let_def split: option.splits)

definition example_system :: system where
  "example_system = \<lparr>
     os_stat = (\<lambda>p. if p = ''a'' then Some \<lparr>st_type = Regular, st_setuid = False, st_setgid = False,
         st_sticky = False, st_size = 1, st_uid = 0, st_gid = 0, st_mtime = 5, st_atime = 6,
         st_dev = 1, st_ino = 2\<rparr> else None),
     os_lstat = (\<lambda>p. None), os_access = (\<lambda>p m. True), os_isatty = (\<lambda>fd. fd = 0),
     os_geteuid = 0, os_getegid = 0\<rparr>"

theorem file_comparisons_order_witness:
  "newer example_system ''a'' ''b'' \<and> \<not> newer example_system ''b'' ''a''"
  using file_comparisons_order[of example_system "''a''" "''b''" "''a''"]
    file_comparisons_order[of example_system "''b''" "''a''" "''b''"]
  by (auto simp: example_system_def)

text \<open>When both operands evaluate, the arithmetic tests compare their values as signed
  64-bit integers, exactly one of lt, eq and gt being true, with ne, le and ge their negations; an
  operator that is none of the nine is an \<open>illegal_argument_exception\<close>.\<close>

theorem test_binary_compares:
  assumes "eval_arithmetic B W lhs st = (Inr a, s)" "eval_arithmetic B W rhs s = (Inr b, t)"
  shows "test_binary B W OS ''eq'' lhs rhs st = (Inr (sint a = sint b), t) \<and>
     test_binary B W OS ''ne'' lhs rhs st = (Inr (sint a \<noteq> sint b), t) \<and>
     test_binary B W OS ''lt'' lhs rhs st = (Inr (sint a < sint b), t) \<and>
     test_binary B W OS ''ge'' lhs rhs st = (Inr (\<not> sint a < sint b), t) \<and>
     test_binary B W OS ''gt'' lhs rhs st = (Inr (sint b < sint a), t) \<and>
     test_binary B W OS ''le'' lhs rhs st = (Inr (\<not> sint b < sint a), t) \<and>
     (op \<notin> {''nt'', ''ot'', ''ef'', ''eq'', ''ne'', ''lt'', ''le'', ''gt'', ''ge''} \<longrightarrow>
        test_binary B W OS op lhs rhs st =
          (Inl (Illegal_argument_exception (''Unrecognized operator '' @ op)), st))"
proof -
  have "compare_values B W cmp lhs rhs st = (Inr (cmp a b), t)" for cmp
    using assms by (simp add: compare_values_def andthen_def)
  moreover have "(a = b) = (sint a = sint b)" using signed_word_eqI by blast
  ultimately show ?thesis
    by (simp add: test_binary_def test_binary_body_def word_sless_alt word_sle_eq not_less)
qed

theorem test_binary_compares_witness:
  "test_binary boost_ref echoing_antlr example_system ''lt'' ''abc'' ''abcd'' new_interpreter =
     (Inr True, new_interpreter)"
proof -
  have "read_script boost_ref s True = s" if "s \<in> {''abc'', ''abcd''}" for s
    using that by (auto simp: read_script_def boost_ref_def trim_right_ref_def newline_def Let_def)
  then have "eval_arithmetic boost_ref echoing_antlr ''abc'' new_interpreter = (Inr 3, new_interpreter)"
    "eval_arithmetic boost_ref echoing_antlr ''abcd'' new_interpreter = (Inr 4, new_interpreter)"
    using eval_arithmetic_echoing[of "''abc''" "''abc''"] eval_arithmetic_echoing[of "''abcd''" "''abcd''"]
    by simp_all
  from test_binary_compares[OF this, of example_system] show ?thesis by simp
qed

end
