(* ===== verification/Step_Relation.thy ===== *)
theory Step_Relation
  imports Builtins_Source Condition
begin

text \<open>
  Two things at once about every builtin and every condition. What relates the state after it to the
  state before it: a relation that is reflexive and transitive and that holds across each primitive
  operation of the interpreter (locale \<open>step_relation\<close>) holds across the builtins too; the
  invariant of the interpreter is one such relation, and that the scopes, the streams and the stack
  of syntax trees are balanced is another. And what more fuel changes: when the walker \<open>W'\<close>
  gives the results of \<open>W\<close> wherever \<open>W\<close> does not run out of fuel, so do the builtins.
\<close>

section \<open>Actions and relations\<close>

definition obeys :: "('s \<Rightarrow> 's \<Rightarrow> bool) \<Rightarrow> ('s, 'r) act \<Rightarrow> bool" where
  "obeys R m \<longleftrightarrow> (\<forall>s. R s (snd (m s)))"

named_theorems obeys_intros \<open>structural rules and facts on relations across actions\<close>

lemma obeysI: "(\<And>s. R s (snd (m s))) \<Longrightarrow> obeys R m"
  by (simp add: obeys_def)

lemma obeysD: "obeys R m \<Longrightarrow> R s (snd (m s))"
  by (simp add: obeys_def)

lemma obeys_weaken: "(\<And>s t. R s t \<Longrightarrow> Q s t) \<Longrightarrow> obeys R m \<Longrightarrow> obeys Q m"
  by (simp add: obeys_def)

lemma obeys_at: "(\<And>s. \<exists>m. f s = m s \<and> obeys R m) \<Longrightarrow> obeys R f"
  by (metis obeys_def)

lemma keeps_obeys: "keeps I m \<longleftrightarrow> obeys (\<lambda>s t. I s \<longrightarrow> I t) m"
  by (simp add: keeps_def obeys_def)

lemma obeys_if [obeys_intros]:
  "(b \<Longrightarrow> obeys R m) \<Longrightarrow> (\<not> b \<Longrightarrow> obeys R n) \<Longrightarrow> obeys R (if b then m else n)"
  by simp

lemma obeys_if_state [obeys_intros]:
  "obeys R m \<Longrightarrow> obeys R n \<Longrightarrow> obeys R (\<lambda>s. if b s then m s else n s)"
  by (simp add: obeys_def)

lemma obeys_case_option [obeys_intros]:
  "(x = None \<Longrightarrow> obeys R m) \<Longrightarrow> (\<And>y. x = Some y \<Longrightarrow> obeys R (f y)) \<Longrightarrow>
     obeys R (case x of None \<Rightarrow> m | Some y \<Rightarrow> f y)"
  by (cases x) simp_all

lemma obeys_case_prod [obeys_intros]:
  "(\<And>a b. x = (a, b) \<Longrightarrow> obeys R (f a b)) \<Longrightarrow> obeys R (case x of (a, b) \<Rightarrow> f a b)"
  by (cases x) simp

definition simulates ::
  "('s \<Rightarrow> 's \<Rightarrow> bool) \<Rightarrow> ('s, 'r) act \<Rightarrow> ('s, 'r) act \<Rightarrow> bool" where
  \<comment> \<open>\<open>R\<close> holds across the first action, and unless it runs out of fuel the second is like it\<close>
  "simulates R m m' \<longleftrightarrow>
     (\<forall>s. R s (snd (m s)) \<and> (fst (m s) = Inl Out_of_fuel \<or> m' s = m s))"

named_theorems simulates_intros \<open>structural rules and facts on simulations\<close>

lemma simulatesI:
  "(\<And>s. R s (snd (m s))) \<Longrightarrow> (\<And>s. fst (m s) \<noteq> Inl Out_of_fuel \<Longrightarrow> m' s = m s) \<Longrightarrow> simulates R m m'"
  by (auto simp: simulates_def)

lemma simulates_obeys: "simulates R m m' \<Longrightarrow> obeys R m"
  by (simp add: simulates_def obeys_def)

lemma simulates_same: "obeys R m \<Longrightarrow> simulates R m m"
  by (simp add: simulates_def obeys_def)

lemma simulates_more: "simulates R m m' \<Longrightarrow> fst (m s) \<noteq> Inl Out_of_fuel \<Longrightarrow> m' s = m s"
  by (auto simp: simulates_def)

lemma simulates_cases:
  assumes "simulates R m m'"
  obtains r t where "m s = (r, t)" "R s t" "r = Inl Out_of_fuel \<or> m' s = (r, t)"
  using assms by (metis prod.collapse fst_conv simulates_def)

lemma simulates_weaken:
  "(\<And>s t. R s t \<Longrightarrow> Q s t) \<Longrightarrow> simulates R m m' \<Longrightarrow> simulates Q m m'"
  by (auto simp: simulates_def)

lemma simulates_at:
  "(\<And>s. \<exists>m m'. f s = m s \<and> f' s = m' s \<and> simulates R m m') \<Longrightarrow> simulates R f f'"
  unfolding simulates_def by metis

lemma simulates_if [simulates_intros]:
  "(b \<Longrightarrow> simulates R m m') \<Longrightarrow> (\<not> b \<Longrightarrow> simulates R n n') \<Longrightarrow>
     simulates R (if b then m else n) (if b then m' else n')"
  by simp

lemma simulates_if_state [simulates_intros]:
  "simulates R m m' \<Longrightarrow> simulates R n n' \<Longrightarrow>
     simulates R (\<lambda>s. if b s then m s else n s) (\<lambda>s. if b s then m' s else n' s)"
  by (auto simp: simulates_def)

lemma simulates_case_option [simulates_intros]:
  "(x = None \<Longrightarrow> simulates R m m') \<Longrightarrow> (\<And>y. x = Some y \<Longrightarrow> simulates R (f y) (f' y)) \<Longrightarrow>
     simulates R (case x of None \<Rightarrow> m | Some y \<Rightarrow> f y) (case x of None \<Rightarrow> m' | Some y \<Rightarrow> f' y)"
  by (cases x) simp_all

lemma simulates_case_prod [simulates_intros]:
  "(\<And>a b. x = (a, b) \<Longrightarrow> simulates R (f a b) (f' a b)) \<Longrightarrow>
     simulates R (case x of (a, b) \<Rightarrow> f a b) (case x of (a, b) \<Rightarrow> f' a b)"
  by (cases x) simp

locale preorder_relation =
  fixes R :: "'s \<Rightarrow> 's \<Rightarrow> bool"
  assumes R_refl: "R s s"
    and R_trans: "R s t \<Longrightarrow> R t u \<Longrightarrow> R s u"
begin

lemma obeys_ret [obeys_intros]: "obeys R (ret x)"
  by (simp add: obeys_def R_refl)

lemma obeys_throw [obeys_intros]: "obeys R (throw e)"
  by (simp add: obeys_def R_refl)

lemma obeys_query [obeys_intros]: "obeys R (query q)"
  by (simp add: obeys_def R_refl)

lemma obeys_Inr [obeys_intros]: "obeys R (\<lambda>s. (Inr x, s))"
  by (simp add: obeys_def R_refl)

lemma obeys_modify: "(\<And>s. R s (f s)) \<Longrightarrow> obeys R (modify f)"
  by (simp add: obeys_def)

lemma obeys_andthen_post:
  "obeys R m \<Longrightarrow> (\<And>x s t. m s = (Inr x, t) \<Longrightarrow> obeys R (f x)) \<Longrightarrow> obeys R (andthen m f)"
  unfolding obeys_def andthen_def
  by (auto split: prod.split sum.split) (metis R_trans snd_conv)+

lemma obeys_andthen [obeys_intros]:
  "obeys R m \<Longrightarrow> (\<And>x. obeys R (f x)) \<Longrightarrow> obeys R (andthen m f)"
  by (rule obeys_andthen_post)

lemma simulates_andthen_post:
  assumes m: "simulates R m m'"
    and f: "\<And>x s t. m s = (Inr x, t) \<Longrightarrow> simulates R (f x) (f' x)"
  shows "simulates R (andthen m f) (andthen m' f')"
proof (rule simulatesI)
  fix s
  have step: "R t (snd (f x t)) \<and> (fst (f x t) = Inl Out_of_fuel \<or> f' x t = f x t)"
    if "m s = (Inr x, t)" for x t
    using f[OF that] by (auto simp: simulates_def)
  obtain r t where mst: "m s = (r, t)" and Rst: "R s t"
    and m's: "r = Inl Out_of_fuel \<or> m' s = (r, t)"
    using m by (rule simulates_cases)
  show "R s (snd (andthen m f s))"
    using mst Rst step by (cases r) (auto simp: andthen_def intro: R_trans)
  assume more: "fst (andthen m f s) \<noteq> Inl Out_of_fuel"
  then show "andthen m' f' s = andthen m f s"
    using mst m's step by (cases r) (auto simp: andthen_def)
qed

lemma simulates_andthen [simulates_intros]:
  "simulates R m m' \<Longrightarrow> (\<And>x. simulates R (f x) (f' x)) \<Longrightarrow> simulates R (andthen m f) (andthen m' f')"
  by (rule simulates_andthen_post)

lemmas simulates_leaves [simulates_intros] =
  simulates_same[OF obeys_ret] simulates_same[OF obeys_throw] simulates_same[OF obeys_query]
  simulates_same[OF obeys_Inr]

lemma simulates_for_each_in:
  "(\<And>x. x \<in> set xs \<Longrightarrow> simulates R (f x) (f' x)) \<Longrightarrow> simulates R (for_each xs f) (for_each xs f')"
  by (induction xs) (auto intro!: simulates_intros)

lemma simulates_for_each [simulates_intros]:
  "(\<And>x. simulates R (f x) (f' x)) \<Longrightarrow> simulates R (for_each xs f) (for_each xs f')"
  by (rule simulates_for_each_in)

lemma simulates_map_act:
  "list_all2 (\<lambda>x y. simulates R (f x) (f' y)) xs ys \<Longrightarrow> simulates R (map_act f xs) (map_act f' ys)"
  by (induction rule: list_all2_induct) (auto intro!: simulates_intros)

lemma obeys_for_each_in:
  "(\<And>x. x \<in> set xs \<Longrightarrow> obeys R (f x)) \<Longrightarrow> obeys R (for_each xs f)"
  by (induction xs) (auto intro: obeys_intros)

lemma obeys_for_each [obeys_intros]:
  "(\<And>x. obeys R (f x)) \<Longrightarrow> obeys R (for_each xs f)"
  by (rule obeys_for_each_in)

lemma obeys_map_act_in:
  "(\<And>x. x \<in> set xs \<Longrightarrow> obeys R (f x)) \<Longrightarrow> obeys R (map_act f xs)"
  by (induction xs) (auto intro!: obeys_intros)

lemma obeys_map_act [obeys_intros]:
  "(\<And>x. obeys R (f x)) \<Longrightarrow> obeys R (map_act f xs)"
  by (rule obeys_map_act_in)

end

section \<open>The primitive operations\<close>

locale step_relation = preorder_relation R
  for R :: "'a interp \<Rightarrow> 'a interp \<Rightarrow> bool" +
  assumes R_set_value: "obeys R (set_value name v i)"
    and R_define_var: "R s (define_var name v ro i s)"
    and R_define_array: "smap_ok values \<Longrightarrow> R s (define_array name values ro s)"
    and R_define_local: "obeys R (define_local name v ro i)"
    and R_define_local_array: "smap_ok values \<Longrightarrow> obeys R (define_local_array name values ro)"
    and R_unset: "obeys R (unset name)"
    and R_unset_element: "obeys R (unset_element name i)"
    and R_shift: "obeys R (interp_shift n)"
    and R_define_positional: "obeys R (define_positional_arguments args)"
    and R_set_option: "obeys R (interp_set_option c b)"
    and R_set_additional_option: "obeys R (set_additional_option opt b)"
    and R_define_function: "obeys R (define_function name index)"
    and R_unset_function: "R s (unset_function name s)"
    and R_set_status: "R s (set_status k s)"
    and R_emit: "R s (emit stream text' s)"
    and R_inputs: "R s (s\<lparr>inputs := f\<rparr>)"
    and R_statics: "R s (s\<lparr>statics := p\<rparr>)"
    and R_arguments: "local_members s = frame # frames \<Longrightarrow>
          R s (s\<lparr>local_members := define_function_arguments args frame # frames\<rparr>)"
    and R_current_ast: "R (push_current_ast ast s) t \<Longrightarrow> R s (pop_current_ast t)"
    and R_local_scope: "R (push_scope s) t \<Longrightarrow> R s (pop_scope t)"
begin

lemmas primitives [obeys_intros] =
  R_set_value R_define_local R_define_local_array R_unset R_unset_element R_shift
  R_define_positional R_set_option R_set_additional_option R_define_function
  obeys_modify[OF R_define_var] obeys_modify[OF R_unset_function] obeys_modify[OF R_set_status]
  obeys_modify[OF R_emit]

lemma obeys_define_array [obeys_intros]:
  "smap_ok values \<Longrightarrow> obeys R (modify (define_array name values ro))"
  by (simp add: obeys_modify R_define_array)

lemma simulates_interpret_with [simulates_intros]:
  assumes "\<And>ast. simulates R (walk ast) (walk' ast)"
  shows "simulates R (interpret_with walk ast) (interpret_with walk' ast)"
proof (rule simulatesI)
  fix s
  obtain r t where "walk ast (push_current_ast ast s) = (r, t)" "R (push_current_ast ast s) t"
    "r = Inl Out_of_fuel \<or> walk' ast (push_current_ast ast s) = (r, t)"
    using assms by (rule simulates_cases)
  then show "R s (snd (interpret_with walk ast s))"
    and "fst (interpret_with walk ast s) \<noteq> Inl Out_of_fuel \<Longrightarrow>
      interpret_with walk' ast s = interpret_with walk ast s"
    by (auto simp: interpret_with_def intro: R_current_ast)
qed

lemma simulates_interpret_ast [simulates_intros]:
  assumes "\<And>ast. simulates R (walk ast) (walk' ast)"
  shows "simulates R (interpret_ast made walk) (interpret_ast made walk')"
  using simulates_interpret_with[of walk walk', OF assms]
  by (cases made) (auto simp: simulates_def interpret_ast_def R_refl)

lemma simulates_local_scope [simulates_intros]:
  assumes "simulates R m m'"
  shows "simulates R (with_local_scope m) (with_local_scope m')"
proof (rule simulatesI)
  fix s
  obtain r t where "m (push_scope s) = (r, t)" "R (push_scope s) t"
    "r = Inl Out_of_fuel \<or> m' (push_scope s) = (r, t)"
    using assms by (rule simulates_cases)
  then show "R s (snd (with_local_scope m s))"
    and "fst (with_local_scope m s) \<noteq> Inl Out_of_fuel \<Longrightarrow> with_local_scope m' s = with_local_scope m s"
    by (auto simp: with_local_scope_def intro: R_local_scope)
qed

lemma simulates_call [simulates_intros]:
  assumes "\<And>ast i. simulates R (walk ast i) (walk' ast i)"
  shows "simulates R (call walk name args) (call walk' name args)"
proof -
  have f: "simulates R (function_call walk g) (function_call walk' g)" for g
    unfolding function_call_def by (rule simulates_interpret_with) (rule assms)
  have "R s (snd (call walk name args s)) \<and>
      (fst (call walk name args s) = Inl Out_of_fuel \<or> call walk' name args s = call walk name args s)" for s
  proof (cases "local_members s")
    case Nil
    then show ?thesis by (simp add: call_def R_refl)
  next
    case (Cons frame frames)
    let ?s = "s\<lparr>local_members := define_function_arguments args frame # frames\<rparr>"
    have Rs: "R s ?s" using Cons by (rule R_arguments)
    have "R ?s (snd (function_call walk g ?s)) \<and> (fst (function_call walk g ?s) = Inl Out_of_fuel \<or>
        function_call walk' g ?s = function_call walk g ?s)" for g
      using f[of g] unfolding simulates_def by blast
    with Cons Rs show ?thesis
      by (auto simp: call_def Let_def intro: R_trans split: option.split)
  qed
  then show ?thesis by (simp add: simulates_def)
qed

section \<open>The rules of the walker as hypothesis\<close>

definition walkers_simulate :: "'a antlr \<Rightarrow> 'a antlr \<Rightarrow> bool" where
  "walkers_simulate W W' \<longleftrightarrow> antlr_parse W' = antlr_parse W \<and> file_text W' = file_text W \<and>
     (\<forall>ast. simulates R (walker_start W ast) (walker_start W' ast)) \<and>
     (\<forall>ast. simulates R (walker_arithmetics W ast) (walker_arithmetics W' ast)) \<and>
     (\<forall>ast. simulates R (walker_string_expr W ast) (walker_string_expr W' ast)) \<and>
     (\<forall>ast i. simulates R (walker_compound_command W ast i) (walker_compound_command W' ast i))"

lemma walkersD [simulates_intros]:
  "walkers_simulate W W' \<Longrightarrow> simulates R (walker_start W ast) (walker_start W' ast)"
  "walkers_simulate W W' \<Longrightarrow> simulates R (walker_arithmetics W ast) (walker_arithmetics W' ast)"
  "walkers_simulate W W' \<Longrightarrow> simulates R (walker_string_expr W ast) (walker_string_expr W' ast)"
  "walkers_simulate W W' \<Longrightarrow>
     simulates R (walker_compound_command W ast i) (walker_compound_command W' ast i)"
  by (simp_all add: walkers_simulate_def)

lemma same_files: "walkers_simulate W W' \<Longrightarrow> file_text W' = file_text W"
  by (simp add: walkers_simulate_def)

lemma same_asts:
  assumes "walkers_simulate W W'"
  shows "ast_of_stream B W' script p trim = ast_of_stream B W script p trim"
    and "ast_of_file B W' path p trim = ast_of_file B W path p trim"
  using assms
  by (simp_all add: walkers_simulate_def ast_of_stream_def ast_of_file_def init_parser_def
      split: option.split)

lemma simulates_script [simulates_intros]:
  assumes "walkers_simulate W W'" "\<And>ast. simulates R (walk ast) (walk' ast)"
  shows "simulates R (interpret_ast (ast_of_stream B W script p trim) walk)
           (interpret_ast (ast_of_stream B W' script p trim) walk')"
  unfolding same_asts[OF assms(1)] by (intro simulates_intros assms(2))

lemma simulates_eval_arithmetic [simulates_intros]:
  "walkers_simulate W W' \<Longrightarrow>
     simulates R (eval_arithmetic B W expression) (eval_arithmetic B W' expression)"
  unfolding eval_arithmetic_def by (intro simulates_intros)

section \<open>Builtins\<close>

lemma obeys_get_status [obeys_intros]: "obeys R get_status"
  by (simp add: obeys_def get_status_def R_refl)

lemma simulates_catch_return [simulates_intros]:
  assumes "simulates R m m'"
  shows "simulates R (catch_return m) (catch_return m')"
proof (rule simulatesI)
  fix s
  obtain r t where "m s = (r, t)" "R s t" "r = Inl Out_of_fuel \<or> m' s = (r, t)"
    using assms by (rule simulates_cases)
  then show "R s (snd (catch_return m s))"
    and "fst (catch_return m s) \<noteq> Inl Out_of_fuel \<Longrightarrow> catch_return m' s = catch_return m s"
    by (auto simp: catch_return_def)
qed

lemma obeys_put_line [obeys_intros]: "obeys R (put_line io line)"
  unfolding put_line_def by (intro obeys_intros)

lemma obeys_control [obeys_intros]:
  "obeys R (break_exec B args)" "obeys R (continue_exec B args)"
  "obeys R (return_exec B args)" "obeys R (shift_exec B args)"
  unfolding break_exec_def continue_exec_def return_exec_def shift_exec_def
  by (intro obeys_intros)+

lemma obeys_print_opts [obeys_intros]: "obeys R (print_opts io)"
  by (rule obeys_at, rule exI, rule conjI, rule print_opts_def) (intro obeys_intros)

lemma obeys_unset_variable [obeys_intros]: "obeys R (unset_variable B name)"
  unfolding unset_variable_def by (intro obeys_intros)

lemma obeys_option_builtins [obeys_intros]:
  "obeys R (set_opt args b)" "obeys R (shopt_exec io args)"
  "obeys R (set_exec args)" "obeys R (unset_exec B args)"
  unfolding set_opt_def shopt_exec_def set_exec_def unset_exec_def Let_def
  by (intro obeys_intros)+

lemma obeys_simple_builtins [obeys_intros]:
  "obeys R (true_exec args)" "obeys R (false_exec args)"
  "obeys R (echo_exec B io args)" "obeys R (printf_exec F io args)"
  unfolding true_exec_def false_exec_def echo_exec_def printf_exec_def by (intro obeys_intros)+

lemma obeys_read_process [obeys_intros]: "obeys R (read_process B args input)"
  unfolding read_process_def by (intro obeys_intros)

lemma obeys_read_exec [obeys_intros]: "obeys R (read_exec B io args)"
proof -
  have "R s (snd (andthen (read_process B vs line) (\<lambda>_. ret r) (s\<lparr>inputs := f\<rparr>)))"
    for s :: "'a interp" and vs line r f
  proof -
    have "obeys R (andthen (read_process B vs line) (\<lambda>_. ret r))" by (intro obeys_intros)
    from obeysD[OF this] show ?thesis using R_inputs R_trans by blast
  qed
  then show ?thesis
    by (auto simp: obeys_def read_exec_def Let_def R_inputs split: prod.split option.split)
qed

lemma obeys_parse_file [obeys_intros]: "obeys R (parse_file B W path)"
  by (auto simp: obeys_def parse_file_def cache_entry_def R_refl R_statics
      split: sum.split option.split)

lemma obeys_declare_functions [obeys_intros]: "obeys R (declare_functions io ns r)"
  by (induction ns arbitrary: r) (auto intro!: obeys_intros)

lemma obeys_declare_all [obeys_intros]: "obeys R (declare_all_functions io)"
  by (rule obeys_at, rule exI, rule conjI, rule declare_all_functions_def) (intro obeys_intros)

lemma obeys_declare_print [obeys_intros]: "obeys R (declare_print B io ns r)"
  by (induction ns arbitrary: r) (auto intro!: obeys_intros)

lemma obeys_inherit_helpers [obeys_intros]:
  "obeys R (append_global B name)" "obeys R (restore_global name v)" "obeys R (backup_global B name)"
  unfolding append_global_def restore_global_def backup_global_def by (intro obeys_intros)+

lemma simulates_parse_file [simulates_intros]:
  "walkers_simulate W W' \<Longrightarrow> simulates R (parse_file B W path) (parse_file B W' path)"
proof -
  assume "walkers_simulate W W'"
  then have "parse_file B W' path = parse_file B W path"
    by (intro ext) (simp only: parse_file_def same_asts)
  then show ?thesis by (simp add: simulates_same obeys_parse_file)
qed

lemma simulates_define_variables [simulates_intros]:
  "walkers_simulate W W' \<Longrightarrow>
     simulates R (define_variables B W script local) (define_variables B W' script local)"
  unfolding define_variables_def by (intro simulates_intros)

lemmas simulates_plain_builtins [simulates_intros] =
  primitives[THEN simulates_same] obeys_get_status[THEN simulates_same]
  obeys_control[THEN simulates_same] obeys_option_builtins[THEN simulates_same]
  obeys_simple_builtins[THEN simulates_same] obeys_read_exec[THEN simulates_same]
  obeys_declare_functions[THEN simulates_same] obeys_declare_all[THEN simulates_same]
  obeys_declare_print[THEN simulates_same] obeys_inherit_helpers[THEN simulates_same]

lemma simulates_map_act_same [simulates_intros]:
  "(\<And>x. obeys R (f x)) \<Longrightarrow> simulates R (map_act f xs) (map_act f xs)"
  by (simp add: simulates_same obeys_map_act)

lemma simulates_declare_variables [simulates_intros]:
  assumes "walkers_simulate W W'"
  shows "simulates R (declare_variables B W args n g) (declare_variables B W' args n g)"
  by (rule simulates_at, intro exI conjI, (rule declare_variables_def [unfolded Let_def])+)
    (intro simulates_intros assms)

lemma simulates_run_builtins [simulates_intros]:
  assumes "walkers_simulate W W'"
  shows "simulates R (source_exec B W args) (source_exec B W' args)"
    "simulates R (eval_exec B W args) (eval_exec B W' args)"
    "simulates R (let_exec B W args) (let_exec B W' args)"
    "simulates R (export_exec B W args) (export_exec B W' args)"
    "simulates R (local_exec B W args) (local_exec B W' args)"
    "simulates R (declare_exec B W io args) (declare_exec B W' io args)"
  unfolding source_exec_def eval_exec_def let_exec_def export_exec_def local_exec_def
    declare_exec_def Let_def
  by (intro simulates_intros assms)+

lemma simulates_inherit [simulates_intros]:
  assumes "walkers_simulate W W'"
  shows "simulates R (inherit_exec B W E args) (inherit_exec B W' E args)"
proof -
  have e: "simulates R (export_functions B W) (export_functions B W')"
    unfolding export_functions_def by (intro simulates_intros assms)
  have "simulates R (inherit_eclass B W dir name) (inherit_eclass B W' dir name)" for dir name
    unfolding inherit_eclass_def by (intro simulates_intros obeys_intros assms e)
  then show ?thesis unfolding inherit_exec_def Let_def by (intro simulates_intros)
qed

lemma simulates_table:
  assumes "walkers_simulate W W'"
  shows "list_all2 (\<lambda>e e'. fst e = fst e' \<and> (\<forall>args. simulates R (snd e args) (snd e' args)))
    (builtin_table B W F E io) (builtin_table B W' F E io)"
  unfolding builtin_table_def by (auto intro: simulates_intros assms)

lemma simulates_lookup:
  assumes "list_all2 (\<lambda>e e'. fst e = fst e' \<and> (\<forall>args. simulates R (snd e args) (snd e' args))) t t'"
  shows "rel_option (\<lambda>f f'. \<forall>args. simulates R (f args) (f' args)) (map_of t name) (map_of t' name)"
  using assms by (induction rule: list_all2_induct) auto

lemma simulates_exec_builtin [simulates_intros]:
  assumes "walkers_simulate W W'"
  shows "simulates R (exec_builtin B W F E name args io) (exec_builtin B W' F E name args io)"
proof -
  have "rel_option (\<lambda>f f'. \<forall>args. simulates R (f args) (f' args))
      (map_of (builtin_table B W F E io) name) (map_of (builtin_table B W' F E io) name)"
    by (rule simulates_lookup[OF simulates_table[OF assms]])
  then show ?thesis
  proof cases
    case None
    then show ?thesis by (simp add: exec_builtin_def simulates_def R_statics)
  next
    case (Some f f')
    then show ?thesis by (simp add: exec_builtin_def simulates_def)
  qed
qed

lemma simulates_execute_builtin [simulates_intros]:
  assumes "walkers_simulate W W'"
  shows "simulates R (execute_builtin B W F E name args output' error' input)
    (execute_builtin B W' F E name args output' error' input)"
  using simulates_exec_builtin[OF assms] unfolding execute_builtin_def simulates_def by blast

section \<open>Conditions\<close>

lemma simulates_test_binary [simulates_intros]:
  assumes "walkers_simulate W W'"
  shows "simulates R (test_binary B W OS op lhs rhs) (test_binary B W' OS op lhs rhs)"
proof -
  have body: "simulates R (test_binary_body B W OS op lhs rhs) (test_binary_body B W' OS op lhs rhs)"
    unfolding test_binary_body_def compare_values_def by (intro simulates_intros assms)
  show ?thesis
  proof (cases "length op = 2")
    case True
    have "R s (snd (test_binary B W OS op lhs rhs s)) \<and>
        (fst (test_binary B W OS op lhs rhs s) = Inl Out_of_fuel \<or>
         test_binary B W' OS op lhs rhs s = test_binary B W OS op lhs rhs s)" for s
      using body[unfolded simulates_def, rule_format, of s] True
      by (cases "test_binary_body B W OS op lhs rhs s")
        (auto simp: test_binary_def split: sum.split exn.split)
    then show ?thesis by (simp add: simulates_def)
  qed (simp add: simulates_def test_binary_def R_refl)
qed

end

section \<open>The invariant of the interpreter\<close>

interpretation invariant: step_relation "\<lambda>s t. interp_ok s \<longrightarrow> interp_ok t"
proof
  show "interp_ok s \<longrightarrow> interp_ok (s\<lparr>inputs := f\<rparr>)" for s :: "'a interp" and f
    by (simp add: interp_ok_def)
  show "interp_ok s \<longrightarrow> interp_ok (s\<lparr>statics := p\<rparr>)" for s :: "'a interp" and p
    by (simp add: interp_ok_def)
  show "interp_ok s \<longrightarrow>
      interp_ok (s\<lparr>local_members := define_function_arguments args frame # frames\<rparr>)"
    if "local_members s = frame # frames" for s :: "'a interp" and frame frames args
    using that by (auto simp: interp_ok_def define_function_arguments_def
        intro!: scope_ok_upd variable_ok_new_array smap_ok_positional_args)
qed (auto simp: keeps_obeys [symmetric] interp_ok_define_var interp_ok_define_array
    interp_ok_unset_function interp_ok_streams interp_ok_push interp_ok_pop interp_ok_ast_stack
    intro: keeps_intros)

lemma walkers_keep_simulate: "walkers_keep interp_ok W \<Longrightarrow> invariant.walkers_simulate W W"
  by (simp add: walkers_keep_def invariant.walkers_simulate_def keeps_obeys simulates_same)

section \<open>Balance\<close>

text \<open>The current streams, the syntax trees being walked and the number of local scopes.\<close>

definition frame :: "'a interp \<Rightarrow> (ostream \<times> ostream \<times> istream) \<times> 'a list \<times> nat" where
  "frame s = ((out_stream s, err_stream s, in_stream s), ast_stack s, length (local_members s))"

lemma frame_assign [simp]: "frame (assign_variable name v s) = frame s"
  by (auto simp: frame_def assign_variable_def dest: length_update_frames split: option.split)

lemma unset_in_frames_length:
  "unset_in_frames name frames = Inr (b, frames') \<Longrightarrow> length frames' = length frames"
  by (induction frames arbitrary: b frames') (auto split: if_splits)

lemma frame_simps [simp]:
  "frame (define_var name v ro i s) = frame s"
  "frame (define_array name values ro s) = frame s"
  "frame (unset_function name s) = frame s"
  "frame (set_status n s) = frame s"
  "frame (emit stream text' s) = frame s"
  "frame (s\<lparr>inputs := f\<rparr>) = frame s"
  "frame (s\<lparr>statics := p\<rparr>) = frame s"
  "frame (s\<lparr>members := g\<rparr>) = frame s"
  by (simp_all add: frame_def define_var_def define_array_def unset_function_def stream_defs)

lemma frame_frames: "length fs = length (local_members s) \<Longrightarrow> frame (s\<lparr>local_members := fs\<rparr>) = frame s"
  by (simp add: frame_def)

interpretation balance: step_relation "\<lambda>s t. frame s = frame t"
proof
  show "obeys (\<lambda>s t. frame s = frame t) (unset name)" for name
    by (auto simp: obeys_def unset_def dest: unset_in_frames_length intro!: frame_frames[symmetric]
        split: sum.split prod.split bool.split)
  show "obeys (\<lambda>s t. frame s = frame t) (define_function name index)" for name index
    by (auto simp: obeys_def define_function_def frame_def split: list.split)
qed (auto simp: obeys_def set_value_def define_local_def define_local_array_def unset_element_def
    interp_shift_def define_positional_arguments_def interp_set_option_def set_additional_option_def
    frame_frames push_scope_def pop_scope_def push_current_ast_def pop_current_ast_def
    split: option.split sum.split list.split prod.split,
    auto simp: frame_def dest: arg_cong[where f = tl])

end
