(* ===== verification/Builtin_Table.thy ===== *)
theory Builtin_Table
  imports Step_Relation
begin

text \<open>
  Properties of the builtins that run further scripts and of the builtin table: the invariant of
  the interpreter, the cache and the \<open>$0\<close> of source, the listings of declare, the reuse of a
  printf format.
\<close>

section \<open>The invariant\<close>

text \<open>Every builtin, whatever its arguments and streams and whether it returns or throws,
  keeps the invariant of the interpreter, provided the script text it runs does; and so does the
  attempt to execute a name that is no builtin.\<close>

theorem builtins_keep_interp_ok:
  assumes "walkers_keep interp_ok W" "interp_ok st"
  shows "interp_ok (snd (execute_builtin B W F E name args output error input st))"
  using obeysD[OF simulates_obeys, OF invariant.simulates_execute_builtin, OF walkers_keep_simulate[OF assms(1)]]
    assms(2) by blast

theorem builtins_keep_interp_ok_witness:
  "interp_ok (snd (execute_builtin boost_ref echoing_antlr
     (\<lparr>format_parse = Some, format_feed = (\<lambda>f a. Fed f), format_str = id\<rparr> :: string format_library)
     None ''eval'' [''x=1''] None None None new_interpreter))"
  by (rule builtins_keep_interp_ok[OF echoing_antlr_keeps interp_ok_new])

section \<open>Source\<close>

lemma script_steps_readonly:
  "script_step\<^sup>*\<^sup>* st st' \<Longrightarrow> members st x = Some w \<Longrightarrow> var_readonly w \<Longrightarrow> x \<noteq> [] \<Longrightarrow>
     members st' x = Some w"
  by (induction rule: rtranclp_induct) (auto intro: script_step_readonly)

lemma members_interpret_with:
  assumes "\<And>ast s. script_step\<^sup>*\<^sup>* s (snd (walk ast s))"
    and "members st x = Some w" "var_readonly w" "x \<noteq> []"
  shows "members (snd (interpret_with walk ast st)) x = Some w"
proof -
  have "members (push_current_ast ast st) x = Some w" using assms(2) by (simp add: push_current_ast_def)
  from script_steps_readonly[OF assms(1) this assms(3,4)] show ?thesis
    by (simp add: interpret_with_def pop_current_ast_def)
qed

lemma parse_file_members: "members (snd (parse_file B W path st)) = members st"
  by (simp add: parse_file_def cache_entry_def split: sum.split option.split)


lemma resolve_zero_new: "resolve_string B ''0'' 0 (new_interpreter :: 'a interp) = Inr []"
proof -
  have "resolve_variable (new_interpreter :: 'a interp) ''0'' = None"
    by (simp add: resolve_variable_def new_interpreter_def Let_def define_var_def)
  moreover have "interp_get_option CHR ''u'' (new_interpreter :: 'a interp) = Inr False"
    by (simp add: interp_get_option_def new_interpreter_def Let_def define_var_def
        smap_of_list_def initial_options_def)
  ultimately show ?thesis
    by (simp add: resolve_with_element[OF interp_ok_new] element_def)
qed

lemma source_unparsed:
  assumes "resolve_string B ''0'' 0 st = Inr original" "e \<noteq> Return_exception"
    and "fst (parse_file B W path (define_var ''0'' (Str path) True 0 st)) = Inl e"
  shows "source_exec B W (path # args) st =
    (Inl e, snd (parse_file B W path (define_var ''0'' (Str path) True 0 st)))"
  using assms by (simp add: source_exec_def andthen_app catch_return_def split: prod.split)

lemma ast_cache_simps [simp]:
  "ast_cache (statics (new_interpreter :: 'a interp)) = Map.empty"
  "statics (define_var n v ro i st) = statics st"
  by (simp_all add: new_interpreter_def Let_def define_var_def)




section \<open>Declare\<close>

lemma put_lines:
  "for_each xs (\<lambda>x. put_line io (g x)) st =
     (Inr (), emit (out_to io) (concat (map (\<lambda>x. g x @ [newline]) xs)) st)"
proof (induction xs arbitrary: st)
  case Nil
  then show ?case by (simp add: emit_def)
next
  case (Cons x xs)
  have "emit o' v (emit o' t s) = emit o' (t @ v) s" for o' t v and s :: "'a interp"
    by (simp add: emit_def)
  then show ?case using Cons by (simp add: put_line_def)
qed

text \<open>\<open>declare -F\<close> prints one line for each defined function, in the order of the
  names, independent of the order in which the hash table enumerates its entries, and changes
  nothing else.\<close>

theorem declare_F_lists_functions:
  assumes ok: "interp_ok st" and split: "split_documented B"
  shows "\<exists>!fs. sorted fs \<and> distinct fs \<and> set fs = {f. has_function f st} \<and>
     declare_exec B W io [''-F''] st =
       (Inr 0, emit (out_to io) (concat (map (\<lambda>f. ''declare -f '' @ f @ [newline]) fs)) st)"
proof -
  let ?fs = "sort (get_all_function_names st)"
  have fs: "sorted ?fs \<and> distinct ?fs \<and> set ?fs = {f. has_function f st}"
    using ok by (auto simp: get_all_function_names_def has_function_def interp_ok_def
        map_of_eq_None_iff image_iff)
  have "split_any B '' '' False ''-F'' = [''-F'']"
    by (subst split[unfolded split_documented_def, rule_format]) (simp add: Let_def)
  then have "declare_exec B W io [''-F''] st = declare_all_functions io st"
    by (simp add: declare_exec_def str_at_def)
  also have "\<dots> = (Inr 0, emit (out_to io) (concat (map (\<lambda>f. ''declare -f '' @ f @ [newline]) ?fs)) st)"
    by (simp add: declare_all_functions_def andthen_def put_lines)
  finally show ?thesis
    using fs by (intro ex1I[of _ ?fs]) (auto intro: sorted_distinct_set_unique)
qed

theorem declare_F_lists_functions_witness:
  "\<exists>fs. set fs = {f. has_function f (new_interpreter :: string interp)} \<and>
     declare_exec boost_ref echoing_antlr \<lparr>out_to = Cout, err_to = Cerr, in_from = Cin\<rparr> [''-F'']
       new_interpreter =
       (Inr 0, emit Cout (concat (map (\<lambda>f. ''declare -f '' @ f @ [newline]) fs)) new_interpreter)"
  using declare_F_lists_functions[OF interp_ok_new boost_ref_split, of echoing_antlr
      "\<lparr>out_to = Cout, err_to = Cerr, in_from = Cin\<rparr>"]
  by auto

section \<open>Printf\<close>

fun feed_all :: "'f format_library \<Rightarrow> 'f \<Rightarrow> string list \<Rightarrow> 'f option" where
  "feed_all F f [] = Some f"
| "feed_all F f (a # as) = (case format_feed F f a of Fed g \<Rightarrow> feed_all F g as | _ \<Rightarrow> None)"

definition format_documented ::
  "'f format_library \<Rightarrow> string \<Rightarrow> nat \<Rightarrow> (string list \<Rightarrow> string) \<Rightarrow> bool" where
  \<comment> \<open>a format string with \<open>k\<close> directives takes up to \<open>k\<close> arguments, prints as \<open>render\<close> says
    also with fewer, and refuses one more\<close>
  "format_documented F format k render \<longleftrightarrow>
     (\<exists>f0. format_parse F format = Some f0 \<and>
       (\<forall>as. length as \<le> k \<longrightarrow>
          (\<exists>f. feed_all F f0 as = Some f \<and> format_str F f = render as \<and>
               (length as = k \<longrightarrow> (\<forall>a. format_feed F f a = Too_many_args)))))"

function chunks :: "nat \<Rightarrow> 'x list \<Rightarrow> 'x list list" where
  "chunks k as = (if k = 0 \<or> length as \<le> k then [as] else take k as # chunks k (drop k as))"
  by pat_completeness auto
termination by (relation "measure (\<lambda>(k, as). length as)") auto

declare chunks.simps [simp del]

lemma feed_all_append:
  "feed_all F f (as @ bs) = (case feed_all F f as of None \<Rightarrow> None | Some g \<Rightarrow> feed_all F g bs)"
  by (induction F f as rule: feed_all.induct) (auto split: fed.split)

lemma printf_feed_fed:
  "feed_all F f as = Some g \<Longrightarrow>
     printf_feed F format out f (as @ bs) = printf_feed F format out g bs"
  by (induction as arbitrary: f) (auto split: fed.splits)

lemma printf_feed_chunks:
  assumes doc: "format_documented F format k render" and k: "0 < k"
    and f0: "format_parse F format = Some f0"
  shows "printf_feed F format out f0 xs = Inr (out @ concat (map render (chunks k xs)))"
proof (induction "length xs" arbitrary: xs out rule: less_induct)
  case less
  have fed: "\<exists>f. feed_all F f0 bs = Some f \<and> format_str F f = render bs \<and>
      (length bs = k \<longrightarrow> (\<forall>a. format_feed F f a = Too_many_args))" if "length bs \<le> k" for bs
    using doc f0 that by (auto simp: format_documented_def)
  show ?case
  proof (cases "length xs \<le> k")
    case True
    then obtain f where "feed_all F f0 xs = Some f" "format_str F f = render xs" using fed by blast
    then show ?thesis
      using True printf_feed_fed[of F f0 xs f format out "[]"] by (simp add: chunks.simps)
  next
    case False
    define bs cs where "bs = take k xs" and "cs = drop k xs"
    have xs: "xs = bs @ cs" "length bs = k" "length cs < length xs" "cs \<noteq> []"
      using False k by (simp_all add: bs_def cs_def)
    obtain f where f: "feed_all F f0 bs = Some f" "format_str F f = render bs"
      "\<And>a. format_feed F f a = Too_many_args" using fed[of bs] xs(2) by auto
    obtain c cs' where cs: "cs = c # cs'" using xs(4) by (cases cs) auto
    obtain g where g: "format_feed F f0 c = Fed g"
      using fed[of "[c]"] k by (auto split: fed.splits)
    have "printf_feed F format out f0 xs = printf_feed F format out f cs"
      unfolding xs(1) by (rule printf_feed_fed[OF f(1)])
    also have "\<dots> = printf_feed F format (out @ render bs) f0 cs"
      using f g f0 by (simp add: cs)
    also have "\<dots> = Inr ((out @ render bs) @ concat (map render (chunks k cs)))"
      by (rule less) (rule xs(3))
    also have "chunks k xs = bs # chunks k cs"
      using False k by (subst chunks.simps) (simp add: bs_def cs_def)
    ultimately show ?thesis by simp
  qed
qed


definition append_format :: "(string \<times> string list) format_library" where
  \<comment> \<open>every format has one directive, at its end\<close>
  "append_format = \<lparr>format_parse = (\<lambda>s. Some (s, [])),
     format_feed = (\<lambda>(s, as) a. if as = [] then Fed (s, [a]) else Too_many_args),
     format_str = (\<lambda>(s, as). s @ concat as)\<rparr>"


section \<open>The table\<close>

lemma exec_unknown_registers:
  assumes "\<not> is_builtin name st"
  shows "\<exists>t. exec_builtin B W F E name args io st = (Inl Bad_function_call, t) \<and> is_builtin name t"
  using assms by (auto simp: exec_builtin_def is_builtin_def builtin_table_def)

lemma hasq_substring:
  "hasq B v name st = (case resolve_string B name 0 st of
     Inl e \<Rightarrow> Inl e | Inr s \<Rightarrow> Inr (\<exists>pre post. s = pre @ v @ post))"
  by (simp add: hasq_def str_contains_iff bind_res_def)

end
