(* ===== verification/Parameters.thy ===== *)
theory Parameters
  imports Scoping Boost_Reference
begin

text \<open>
  Properties of the interpreter's parameters, options and functions: positional parameters and
  \<open>shift\<close>, the \<open>nounset\<close> option, the option tables, function names and the function table, and
  the scope a function body sees.
\<close>

section \<open>Positional parameters\<close>

lemma positional_args_map:
  assumes "smap_ok m" "\<forall>k \<in> fst ` set m. unat k < n" "n + length as \<le> 2 ^ 32"
  shows "map (\<lambda>(i, s). (i, Str s)) (positional_args (of_nat n) as m) =
     map (\<lambda>(i, s). (i, Str s)) m @ args_map n as"
  using assms
proof (induction "as" arbitrary: n m)
  case Nil
  then show ?case by simp
next
  case (Cons a "as")
  have n: "unat (of_nat n :: uint) = n" using Cons.prems by (simp add: unat_of_nat32)
  have snoc: "smap_insert (of_nat n) a m = m @ [(of_nat n, a)]"
    using Cons.prems n by (intro smap_insert_snoc) (auto simp: word_less_nat_alt)
  have "map (\<lambda>(i, s). (i, Str s)) (positional_args (of_nat (Suc n)) as (m @ [(of_nat n, a)])) =
      map (\<lambda>(i, s). (i, Str s)) (m @ [(of_nat n, a)]) @ args_map (Suc n) as"
  proof (rule Cons.IH)
    show "smap_ok (m @ [(of_nat n, a)])"
      using smap_ok_insert[OF Cons.prems(1), of "of_nat n" a] snoc by simp
  qed (use Cons.prems n in \<open>auto simp: less_Suc_eq\<close>)
  then show ?case by (simp add: snoc add.commute)
qed

lemma new_array_positional:
  "length args < 2 ^ 32 \<Longrightarrow> new_array name (positional_args 1 args []) ro =
     \<lparr>var_name = name, var_value = args_map 1 args, var_readonly = ro\<rparr>"
  using positional_args_map[of "[]" 1 args] by (simp add: new_array_def)

lemma get_all_values_args:
  "get_all_values B \<lparr>var_name = name, var_value = args_map i args, var_readonly = ro\<rparr> acc =
     acc @ args"
proof -
  have "map (convert_string B \<circ> snd) (args_map i args) = map (convert_string B) (map Str args)"
    by (metis args_map_values map_map)
  then show ?thesis by (simp add: get_all_values_def comp_def convert_string_def)
qed

definition positional_variable :: "string list \<Rightarrow> variable" where
  "positional_variable args =
     \<lparr>var_name = ''*'', var_value = args_map 1 args, var_readonly = False\<rparr>"

lemma define_positional_resolves:
  assumes "length args < 2 ^ 32"
  obtains t where "define_positional_arguments args st = (Inr (), t)"
    "resolve_variable t ''*'' = Some (positional_variable args)"
    "\<And>x. x \<noteq> ''*'' \<Longrightarrow> resolve_variable t x = resolve_variable st x"
proof (cases "local_members st")
  case Nil
  with assms that show thesis
    by (simp add: define_positional_arguments_def define_array_def resolve_variable_def
        new_array_positional positional_variable_def)
next
  case (Cons frame frames)
  with assms that show thesis
    by (simp add: define_positional_arguments_def define_local_array_def resolve_variable_def
        new_array_positional positional_variable_def split: option.splits)
qed

lemma resolve_array_positional:
  "resolve_variable t ''*'' = Some (positional_variable args) \<Longrightarrow>
     resolve_array B ''*'' [] t = Inr (True, args)"
  by (simp add: resolve_array_def is_valid_def positional_variable_def get_all_values_args)

lemma element_positional:
  "length args < 2 ^ 32 \<Longrightarrow> resolve_variable t ''*'' = Some (positional_variable args) \<Longrightarrow>
     element t ''*'' i =
       (if 1 \<le> unat i \<and> unat i \<le> length args then Some (Str (args ! (unat i - 1))) else None)"
  by (auto simp: element_def positional_variable_def map_of_args_map)

text \<open>The positional parameters defined from an argument vector read back as that
  vector through \<open>$*\<close>, as its i-th element through \<open>$i\<close>, and as its length through \<open>$#\<close>,
  in the global scope and in a function's scope alike; no other variable is affected.\<close>

theorem positional_roundtrip:
  assumes "length args < 2 ^ 32" and ok: "interp_ok st"
  shows "\<exists>t. define_positional_arguments args st = (Inr (), t) \<and>
     resolve_array B ''*'' [] t = Inr (True, args) \<and>
     interp_get_array_length ''*'' t = Inr (length args) \<and>
     (\<forall>i. 1 \<le> unat i \<and> unat i \<le> length args \<longrightarrow>
        resolve_string B ''*'' i t = Inr (args ! (unat i - 1))) \<and>
     (\<forall>x. x \<noteq> ''*'' \<longrightarrow> resolve_variable t x = resolve_variable st x)"
proof -
  obtain t where t: "define_positional_arguments args st = (Inr (), t)"
    "resolve_variable t ''*'' = Some (positional_variable args)"
    "\<And>x. x \<noteq> ''*'' \<Longrightarrow> resolve_variable t x = resolve_variable st x"
    using define_positional_resolves[OF assms(1)] by blast
  have "interp_ok t" using keepsD[OF keeps_define_positional ok] t(1) by (metis snd_conv)
  then have "\<forall>i. 1 \<le> unat i \<and> unat i \<le> length args \<longrightarrow>
      resolve_string B ''*'' i t = Inr (args ! (unat i - 1))"
    using element_positional[OF assms(1) t(2)]
    by (simp add: resolve_with_element convert_string_def)
  moreover have "interp_get_array_length ''*'' t = Inr (length args)"
    using t(2) by (simp add: interp_get_array_length_def is_valid_def positional_variable_def
        var_get_array_length_def)
  ultimately show ?thesis using t resolve_array_positional[OF t(2)] by blast
qed

theorem positional_roundtrip_witness:
  "\<exists>t. define_positional_arguments [''a'', ''b''] (new_interpreter :: nat interp) = (Inr (), t) \<and>
     resolve_array boost_ref ''*'' [] t = Inr (True, [''a'', ''b''])"
  using positional_roundtrip[OF _ interp_ok_new, of "[''a'', ''b'']" boost_ref] by auto

section \<open>Shift\<close>

lemma shift_resolved:
  assumes "length args < 2 ^ 32 - 1" "resolve_variable t ''*'' = Some (positional_variable args)"
    and "0 \<le> n" "n \<le> 2 ^ 31 - 1"
  shows "interp_shift n t =
     (if int (length args) < n then (Inr 1, assign_variable ''*'' (positional_variable args) t)
      else (Inr 0, assign_variable ''*'' (positional_variable (drop (nat n) args)) t))"
proof -
  have u: "unat (word_of_int n :: uint) = nat n"
    using assms(3,4) by (cases n) (simp_all add: unat_of_nat32)
  have "var_shift (positional_variable args) (word_of_int n) =
      (if length args < nat n then Inr (1, positional_variable args)
       else Inr (0, positional_variable (drop (nat n) args)))"
    using assms(1) shift_args_map[OF assms(1), of "nat n"]
    by (auto simp: var_shift_def u Let_def positional_variable_def)
  then show ?thesis using assms(2,3) by (auto simp: interp_shift_def nat_less_iff not_less)
qed



lemma shift_without_parameters:
  "interp_shift 1 (new_interpreter :: nat interp) =
     (Inl (Undefined_behaviour ''shift: null parameters''), new_interpreter)"
  by (simp add: interp_shift_def new_interpreter_def Let_def define_var_def resolve_variable_def)

section \<open>The nounset option\<close>

text \<open>Reading an element never throws while the \<open>u\<close> option is off, and gives the empty string
  for an unset one; while it is on, reading throws \<open>unsupported_exception\<close> exactly for an
  element that is unset.\<close>

theorem resolve_nounset:
  assumes "interp_ok st"
  shows "if interp_get_option CHR ''u'' st = Inr False
     then resolve_string B x j st =
       Inr (case element st x j of None \<Rightarrow> [] | Some v \<Rightarrow> convert_string B v)
     else (case element st x j of
             Some v \<Rightarrow> resolve_string B x j st = Inr (convert_string B v)
           | None \<Rightarrow> \<exists>msg. resolve_string B x j st = Inl (Unsupported_exception msg))"
  using nounset_defined[OF assms]
  by (auto simp: resolve_with_element[OF assms] unbound_index_error_def split: option.splits)

theorem resolve_nounset_witness:
  "interp_ok (new_interpreter :: nat interp) \<and>
   resolve_string boost_ref ''x'' 0 (new_interpreter :: nat interp) = Inr []"
proof -
  have "interp_get_option CHR ''u'' (new_interpreter :: nat interp) = Inr False"
    by (simp add: interp_get_option_def new_interpreter_def Let_def define_var_def smap_of_list_def
        initial_options_def)
  moreover have "element (new_interpreter :: nat interp) ''x'' 0 = None"
    by (simp add: element_def new_interpreter_def Let_def define_var_def resolve_variable_def)
  ultimately show ?thesis
    using resolve_nounset[OF interp_ok_new, of boost_ref "''x''" 0, where ?'a = nat] interp_ok_new by simp
qed

section \<open>Option tables\<close>

text \<open>A single-letter option of bash can be set and reads back as set, every other option
  keeping its value; for a character that is not an option \<open>get_option\<close> throws
  \<open>illegal_argument_exception\<close>, and \<open>set_option\<close> changes nothing but, from character 28 on and so
  for every printable one, builds its message from a pointer outside the literal.\<close>

theorem option_set_get:
  assumes ok: "interp_ok st"
  shows "if c \<in> set ''abefhkmnptuvxBCEHPT''
     then \<exists>t. interp_set_option c b st = (Inr (), t) \<and>
            (\<forall>d. interp_get_option d t = (if d = c then Inr b else interp_get_option d st))
     else (\<exists>e. interp_set_option c b st = (Inl e, st) \<and>
             (if of_char c < (28 :: nat) then \<exists>msg. e = Illegal_argument_exception msg
              else \<exists>msg. e = Undefined_behaviour msg)) \<and>
          (\<exists>msg. interp_get_option c st = Inl (Illegal_argument_exception msg))"
proof -
  have sm: "smap_ok (options st)" using ok by (simp add: interp_ok_def)
  show ?thesis
    using map_of_option_key[OF ok, of c] sm
    by (auto simp: interp_set_option_def interp_get_option_def smap.find_insert bad_option_error_def
        Let_def simp del: set_simps split: option.splits)
qed

theorem option_set_get_witness:
  "interp_ok (new_interpreter :: nat interp) \<and>
   (\<exists>t. interp_set_option CHR ''u'' True (new_interpreter :: nat interp) = (Inr (), t) \<and>
        interp_get_option CHR ''u'' t = Inr True)"
proof -
  have "CHR ''u'' \<in> set ''abefhkmnptuvxBCEHPT''" by simp
  then show ?thesis
    using option_set_get[OF interp_ok_new, of "CHR ''u''" True, where ?'a = nat]
    by (auto simp: interp_ok_new)
qed

section \<open>Functions\<close>

text \<open>A name is accepted as a function name exactly when it is at most one digit, then a
  character that is neither a digit nor one of dollar, quotes, parentheses, blank, newline and
  carriage return, then any characters outside that second set.\<close>

theorem check_function_name_pattern:
  "check_function_name name \<longleftrightarrow>
     (\<exists>d c s. name = d @ [c] @ s \<and> (d = [] \<or> (\<exists>x \<in> set ''0123456789''. d = [x])) \<and>
        c \<notin> set ''0123456789'' \<and> c \<notin> forbidden_in_function_name \<and>
        set s \<inter> forbidden_in_function_name = {})"
  (is "_ \<longleftrightarrow> ?R")
proof
  assume "check_function_name name"
  then consider
      c s where "name = c # s" "c \<notin> set ''0123456789''" "c \<notin> forbidden_in_function_name"
        "\<forall>x \<in> set s. x \<notin> forbidden_in_function_name"
    | d c s where "name = d # c # s" "d \<in> set ''0123456789''" "c \<notin> set ''0123456789''"
        "c \<notin> forbidden_in_function_name" "\<forall>x \<in> set s. x \<notin> forbidden_in_function_name"
    by (auto simp: check_function_name_def Let_def neq_Nil_conv list_all_iff simp del: set_simps)
  then show ?R
  proof cases
    case 1
    then show ?thesis by (intro exI[of _ "[]"] exI[of _ c] exI[of _ s]) auto
  next
    case 2
    then show ?thesis by (intro exI[of _ "[d]"] exI[of _ c] exI[of _ s]) auto
  qed
next
  assume ?R
  then obtain d c s where "name = d @ [c] @ s"
      "d = [] \<or> (\<exists>x \<in> set ''0123456789''. d = [x])" "c \<notin> set ''0123456789''"
      "c \<notin> forbidden_in_function_name" "set s \<inter> forbidden_in_function_name = {}"
    by blast
  then show "check_function_name name"
    by (auto simp: check_function_name_def Let_def list_all_iff simp del: set_simps)
qed

theorem check_function_name_pattern_witness:
  "check_function_name ''1abb'' \<and> \<not> check_function_name ''333''"
proof -
  have "check_function_name ''1abb''"
    unfolding check_function_name_pattern
    by (intro exI[of _ "''1''"] exI[of _ "CHR ''a''"] exI[of _ "''bb''"])
      (simp add: forbidden_in_function_name_def)
  moreover have "\<not> check_function_name ''333''"
    by (simp add: check_function_name_def Let_def)
  ultimately show ?thesis by simp
qed



text \<open>C18 (functional): calling a defined function from a local scope runs its body in a state where
  \<open>$*\<close> is exactly the argument vector, every other variable resolves as at the call, and the
  syntax tree of the definition is the current one; when the body leaves the syntax tree stack as
  it found it, so does the call, whether the body returns or throws.\<close>

theorem call_binds_arguments:
  assumes "map_of (function_table st) name = Some f" "is_local_scope st"
    and len: "length args < 2 ^ 32"
  shows "\<exists>s. resolve_array B ''*'' [] s = Inr (True, args) \<and>
     (\<forall>x. x \<noteq> ''*'' \<longrightarrow> resolve_variable s x = resolve_variable st x) \<and>
     ast_stack s = func_ast f # ast_stack st \<and>
     call walk name args st =
       finally_do (walk (func_ast f) (func_index f)) pop_current_ast s \<and>
     (ast_stack (snd (walk (func_ast f) (func_index f) s)) = ast_stack s \<longrightarrow>
        ast_stack (snd (call walk name args st)) = ast_stack st)"
proof -
  from assms(2) obtain frame frames where fr: "local_members st = frame # frames"
    by (auto simp: is_local_scope_def neq_Nil_conv)
  let ?s = "push_current_ast (func_ast f)
    (st\<lparr>local_members := define_function_arguments args frame # frames\<rparr>)"
  have "resolve_variable ?s ''*'' = Some (positional_variable args)"
    using len by (simp add: resolve_variable_def push_current_ast_def define_function_arguments_def
        new_array_positional positional_variable_def)
  moreover have "call walk name args st =
      finally_do (walk (func_ast f) (func_index f)) pop_current_ast ?s"
    using assms(1) by (simp add: call_def fr function_call_def interpret_with_def Let_def)
  moreover have "resolve_variable ?s x = resolve_variable st x" if "x \<noteq> ''*''" for x
    using that fr by (simp add: resolve_variable_def push_current_ast_def
        define_function_arguments_def split: option.split)
  ultimately show ?thesis
    by (intro exI[of _ ?s])
      (simp add: resolve_array_positional push_current_ast_def pop_current_ast_def)
qed

theorem call_binds_arguments_witness:
  "\<exists>s. resolve_array boost_ref ''*'' [] s = Inr (True, [''x'']) \<and>
     call (\<lambda>ast i. ret ()) ''f'' [''x'']
       (push_scope (new_interpreter\<lparr>function_table := [(''f'', \<lparr>func_ast = (0 :: nat), func_index = 1\<rparr>)]\<rparr>))
       = finally_do (ret ()) pop_current_ast s"
proof -
  let ?st = "push_scope (new_interpreter\<lparr>function_table := [(''f'', \<lparr>func_ast = (0 :: nat), func_index = 1\<rparr>)]\<rparr>)"
  have "map_of (function_table ?st) ''f'' = Some \<lparr>func_ast = (0 :: nat), func_index = 1\<rparr>"
    and "is_local_scope ?st"
    by (simp_all add: push_scope_def is_local_scope_def)
  from call_binds_arguments[OF this, of "[''x'']" boost_ref "\<lambda>ast i. ret ()"] show ?thesis by auto
qed

end
