(* ===== verification/Expansion.thy ===== *)
theory Expansion
  imports Parameters Boost_Reference
begin

text \<open>
  src/core/interpreter.h and interpreter.cpp: the parameter expansions (defaults, substrings,
  subarrays, replacement), joining of array elements and word splitting, with their properties.
  The replacers, which the walker builds from compiled patterns, are functions on strings.
\<close>

section \<open>Expansions\<close>

definition numeric_cast_unsigned :: "nat \<Rightarrow> nat res" where
  \<comment> \<open>\<open>boost::numeric_cast<unsigned>\<close> throws when the value does not fit\<close>
  "numeric_cast_unsigned n = (if n < 2 ^ 32 then Inr n else Inl Bad_numeric_cast)"

definition unsigned_max :: nat where
  "unsigned_max = 2 ^ 32 - 1"

definition get_real_offset :: "int \<Rightarrow> nat \<Rightarrow> bool \<times> int" where
  \<comment> \<open>the result and the new value of \<open>offset\<close>\<close>
  "get_real_offset offset sz =
     (let offset' = (if 0 \<le> offset then offset else int sz + offset)
      in (\<not> (offset' < 0 \<or> int sz \<le> offset'), offset'))"

definition get_substring ::
  "boost \<Rightarrow> string \<Rightarrow> int \<Rightarrow> nat \<Rightarrow> uint \<Rightarrow> 'a interp \<Rightarrow> string res" where
  "get_substring B name offset len index st =
     bind_res (resolve_string B name index st) (\<lambda>value.
     bind_res (numeric_cast_unsigned (length value)) (\<lambda>sz.
       let (in_range, offset') = get_real_offset offset sz
       in if \<not> in_range then Inr [] else Inr (take len (drop (nat offset') value))))"

definition do_substring_expansion ::
  "boost \<Rightarrow> string \<Rightarrow> int \<Rightarrow> uint \<Rightarrow> 'a interp \<Rightarrow> string res" where
  "do_substring_expansion B name offset index = get_substring B name offset unsigned_max index"

definition negative_length_error :: exn where
  "negative_length_error = Illegal_argument_exception
     ''length of substring expression should be greater or equal to zero''"

definition do_substring_expansion_length ::
  "boost \<Rightarrow> string \<Rightarrow> int \<Rightarrow> int \<Rightarrow> uint \<Rightarrow> 'a interp \<Rightarrow> string res" where
  "do_substring_expansion_length B name offset len index st =
     (if len < 0 then Inl negative_length_error
      else get_substring B name offset (nat len) index st)"

definition first_of_IFS :: "boost \<Rightarrow> 'a interp \<Rightarrow> string res" where
  \<comment> \<open>\<open>resolve<std::string>("IFS").substr(0, 1)\<close>\<close>
  "first_of_IFS B st = bind_res (resolve_string B ''IFS'' 0 st) (\<lambda>ifs. Inr (take 1 ifs))"

definition get_subarray :: "boost \<Rightarrow> string \<Rightarrow> int \<Rightarrow> nat \<Rightarrow> 'a interp \<Rightarrow> string res" where
  "get_subarray B name offset len st =
     (let positional = (name = ''*'' \<or> name = ''@'');
          offset1 = (if positional \<and> 0 < offset then offset - 1 else offset)
      in bind_res (if positional \<and> offset = 0
                   then bind_res (resolve_string B ''0'' 0 st) (\<lambda>s. Inr [s]) else Inr [])
           (\<lambda>array0.
         bind_res (resolve_array B name array0 st) (\<lambda>(found, array).
           if \<not> found then Inr []
           else bind_res (numeric_cast_unsigned (length array)) (\<lambda>sz.
             let (in_range, offset2) = get_real_offset offset1 sz
             in if \<not> in_range then Inr []
                else let max_length = sz - nat offset2;
                         len' = (if max_length < len then max_length else len)
                     in bind_res (first_of_IFS B st) (\<lambda>d.
                          Inr (join_with B (take len' (drop (nat offset2) array)) d))))))"

definition do_subarray_expansion :: "boost \<Rightarrow> string \<Rightarrow> int \<Rightarrow> 'a interp \<Rightarrow> string res" where
  "do_subarray_expansion B name offset = get_subarray B name offset unsigned_max"

definition do_subarray_expansion_length ::
  "boost \<Rightarrow> string \<Rightarrow> int \<Rightarrow> int \<Rightarrow> 'a interp \<Rightarrow> string res" where
  "do_subarray_expansion_length B name offset len st =
     (if len < 0 then Inl negative_length_error
      else get_subarray B name offset (nat len) st)"

definition do_replace_expansion ::
  "boost \<Rightarrow> string \<Rightarrow> (string \<Rightarrow> string) \<Rightarrow> uint \<Rightarrow> 'a interp \<Rightarrow> string res" where
  "do_replace_expansion B name replacer index st =
     bind_res (resolve_string B name index st) (\<lambda>value. Inr (replacer value))"

definition do_array_replace_expansion ::
  "boost \<Rightarrow> string \<Rightarrow> (string \<Rightarrow> string) \<Rightarrow> 'a interp \<Rightarrow> string res" where
  "do_array_replace_expansion B name replacer st =
     bind_res (resolve_array B name [] st) (\<lambda>(found, array).
     bind_res (first_of_IFS B st) (\<lambda>d. Inr (join_with B (map replacer array) d)))"

definition do_default_expansion ::
  "boost \<Rightarrow> bool \<Rightarrow> string \<Rightarrow> string \<Rightarrow> uint \<Rightarrow> 'a interp \<Rightarrow> string res" where
  "do_default_expansion B cond name value index st =
     (if cond then Inr value else resolve_string B name index st)"

definition do_assign_expansion ::
  "boost \<Rightarrow> bool \<Rightarrow> string \<Rightarrow> string \<Rightarrow> uint \<Rightarrow> ('a interp, string) act" where
  "do_assign_expansion B cond name value index =
     (if cond then andthen (set_value name (Str value) index) (\<lambda>_. ret value)
      else query (resolve_string B name index))"

definition do_alternate_expansion :: "bool \<Rightarrow> string \<Rightarrow> string" where
  "do_alternate_expansion cond value = (if cond then [] else value)"

section \<open>Joining and splitting\<close>

definition get_all_elements_joined ::
  "boost \<Rightarrow> string \<Rightarrow> string \<Rightarrow> 'a interp \<Rightarrow> string res" where
  "get_all_elements_joined B name delim st =
     bind_res (resolve_array B name [] st) (\<lambda>(found, array).
       Inr (if found then join_with B array delim else []))"

definition get_all_elements :: "boost \<Rightarrow> string \<Rightarrow> 'a interp \<Rightarrow> string res" where
  "get_all_elements B name st = get_all_elements_joined B name '' '' st"

definition get_all_elements_IFS_joined :: "boost \<Rightarrow> string \<Rightarrow> 'a interp \<Rightarrow> string res" where
  "get_all_elements_IFS_joined B name st =
     bind_res (first_of_IFS B st) (\<lambda>d. get_all_elements_joined B name d st)"

definition split_word :: "boost \<Rightarrow> string \<Rightarrow> string list \<Rightarrow> 'a interp \<Rightarrow> string list res" where
  \<comment> \<open>the vector \<open>output\<close> after the call\<close>
  "split_word B word output st =
     bind_res (resolve_string B ''IFS'' 0 st) (\<lambda>delimeter.
       let trimmed = trim_any B delimeter word
       in if trimmed = [] then Inr output
          else Inr (output @ split_any B delimeter True trimmed))"

definition trim_trailing_eols :: "boost \<Rightarrow> string \<Rightarrow> string" where
  "trim_trailing_eols B value = trim_right_any B [CHR 0x0A] value"

section \<open>Substrings\<close>

lemma get_substring_in_range:
  assumes "resolve_string B name i st = Inr v" "length v < 2 ^ 32" "0 \<le> k"
  shows "get_substring B name k len i st = Inr (take len (drop (nat k) v))"
  using assms by (auto simp: get_substring_def numeric_cast_unsigned_def get_real_offset_def Let_def)

text \<open>C29 (functional): for a value shorter than 2^32 characters, the offset and length expansions cut it
  where they should: \<open>${x:0:k}\<close> followed by \<open>${x:k}\<close> is the value for every k from 0 on,
  a negative offset -k with k up to the length gives the last k characters, and beyond either end
  the expansion is empty rather than an out-of-range access.\<close>

theorem substring_expansion_cuts:
  assumes v: "resolve_string B name i st = Inr v" and len: "length v < 2 ^ 32"
  shows "(\<forall>k \<ge> 0. \<exists>p s. do_substring_expansion_length B name 0 k i st = Inr p \<and>
           do_substring_expansion B name k i st = Inr s \<and> p @ s = v \<and>
           int (length p) = min k (int (length v))) \<and>
     (\<forall>n > 0. do_substring_expansion B name (- int n) i st =
           Inr (if n \<le> length v then drop (length v - n) v else []))"
proof -
  have all: "take unsigned_max (drop m v) = drop m v" for m
    using len by (simp add: unsigned_max_def)
  have "\<exists>p s. do_substring_expansion_length B name 0 k i st = Inr p \<and>
           do_substring_expansion B name k i st = Inr s \<and> p @ s = v \<and>
           int (length p) = min k (int (length v))" if "0 \<le> k" for k
    using that get_substring_in_range[OF v len]
    by (auto simp: do_substring_expansion_length_def do_substring_expansion_def all)
  moreover have "do_substring_expansion B name (- int n) i st =
           Inr (if n \<le> length v then drop (length v - n) v else [])" if "0 < n" for n
    using that v len
    by (auto simp: do_substring_expansion_def get_substring_def numeric_cast_unsigned_def
        get_real_offset_def Let_def all nat_diff_distrib)
  ultimately show ?thesis by blast
qed

theorem substring_expansion_cuts_witness:
  "do_substring_expansion boost_ref ''x'' (- 2) 0
     (define_var ''x'' (Str ''hello'') False 0 (new_interpreter :: nat interp)) = Inr ''lo''"
proof -
  have "resolve_string boost_ref ''x'' 0 (define_var ''x'' (Str ''hello'') False 0
      (new_interpreter :: nat interp)) = Inr ''hello''"
    by (subst resolve_string_element[where v = "Str ''hello''"])
      (simp_all add: interp_ok_define_var interp_ok_new element_define_var)
  from substring_expansion_cuts[OF this] have "do_substring_expansion boost_ref ''x'' (- int 2) 0
      (define_var ''x'' (Str ''hello'') False 0 (new_interpreter :: nat interp)) = Inr ''lo''"
    by (auto dest!: spec[of _ "2 :: nat"] conjunct2)
  then show ?thesis by simp
qed

section \<open>Subarrays\<close>

lemma join_none: "join_documented B \<Longrightarrow> join_with B [] d = []"
  by (simp add: join_documented_def)

text \<open>Over the positional parameters the offset counts from the parameter numbers, so
  \<open>${*:k:n}\<close> is the parameters k, k+1, ..., k+n-1 for k from 1 on, \<open>${*:0:n}\<close> is \<open>$0\<close> and the first
  n-1 of them, and a range past the end stops at the last parameter; the elements are joined with
  the first character of \<open>IFS\<close>.\<close>

theorem subarray_of_parameters:
  assumes args: "resolve_array B ''*'' [] st = Inr (True, args)" "length args < 2 ^ 32 - 1"
    and ifs: "first_of_IFS B st = Inr d" and zero: "resolve_string B ''0'' 0 st = Inr script"
    and join: "join_documented B"
  shows "do_subarray_expansion_length B ''*'' (int k) (int n) st =
     Inr (join_with B (take n (if k = 0 then script # args else drop (k - 1) args)) d)"
proof -
  have with_script: "resolve_array B ''*'' [script] st = Inr (True, script # args)"
    using args(1) by (auto simp: resolve_array_def get_all_values_def split: option.splits)
  have cut: "take (if m < n then m else n) xs = take n xs" if "length xs \<le> m" for m and xs :: "string list"
    using that by simp
  show ?thesis
  proof (cases "k = 0")
    case True
    then show ?thesis
      using args(2) ifs zero with_script
      by (simp add: do_subarray_expansion_length_def get_subarray_def Let_def
          numeric_cast_unsigned_def get_real_offset_def cut)
  next
    case False
    then have "nat (int k - 1) = k - 1" by simp
    then show ?thesis
      using args ifs False join_none[OF join]
      by (auto simp: do_subarray_expansion_length_def get_subarray_def Let_def
          numeric_cast_unsigned_def get_real_offset_def cut not_less)
  qed
qed

lemma element_new_interpreter_IFS:
  "element (new_interpreter :: 'a interp) ''IFS'' 0 = Some (Str [CHR '' '', CHR 0x09, CHR 0x0A])"
  by (simp add: element_def new_interpreter_def Let_def resolve_variable_def define_var_def
      new_variable_def)

definition parameters_example :: "nat interp" where
  \<comment> \<open>a script with two positional parameters\<close>
  "parameters_example =
     define_array ''*'' (positional_args 1 [''a'', ''b''] [])
       False (define_var ''0'' (Str ''s.sh'') True 0 new_interpreter)"

lemma parameters_example_ok: "interp_ok parameters_example"
  unfolding parameters_example_def
  by (intro interp_ok_define_array interp_ok_define_var interp_ok_new smap_ok_positional_args
      smap_ok_Nil)

lemma parameters_example_lookups:
  "resolve_array B ''*'' [] parameters_example = Inr (True, [''a'', ''b''])"
  "first_of_IFS B parameters_example = Inr '' ''"
  "resolve_string B ''0'' 0 parameters_example = Inr ''s.sh''"
proof -
  show "resolve_array B ''*'' [] parameters_example = Inr (True, [''a'', ''b''])"
    by (rule resolve_array_positional)
      (simp add: parameters_example_def define_array_def resolve_variable_def
        new_array_positional positional_variable_def del: positional_args.simps)
  have "element parameters_example ''IFS'' 0 = Some (Str [CHR '' '', CHR 0x09, CHR 0x0A])"
    and zero: "element parameters_example ''0'' 0 = Some (Str ''s.sh'')"
    using element_new_interpreter_IFS[where ?'a = nat]
    by (auto simp: parameters_example_def define_array_def define_var_def element_def
        resolve_variable_def new_variable_def new_interpreter_def Let_def)
  then show "first_of_IFS B parameters_example = Inr '' ''"
    using resolve_string_element[OF parameters_example_ok] by (simp add: first_of_IFS_def)
  show "resolve_string B ''0'' 0 parameters_example = Inr ''s.sh''"
    using resolve_string_element[OF parameters_example_ok zero] by simp
qed

theorem subarray_of_parameters_witness:
  "do_subarray_expansion_length boost_ref ''*'' (int 1) (int 5) parameters_example = Inr ''a b''"
  using subarray_of_parameters[OF parameters_example_lookups(1) _ parameters_example_lookups(2,3)
      boost_ref_join, of 1 5]
  by (simp add: boost_ref_def)

section \<open>Word splitting\<close>

lemma split_words:
  assumes split: "split_documented B" and s: "s \<noteq> []" "hd s \<notin> set ds" "last s \<notin> set ds"
  shows "concat (split_any B ds True s) = filter (\<lambda>c. c \<notin> set ds) s \<and>
     (\<forall>w \<in> set (split_any B ds True s). w \<noteq> [] \<and> set w \<inter> set ds = {})"
  using s
proof (induction s rule: length_induct)
  case (1 s)
  let ?rest = "dropWhile (\<lambda>x. x \<notin> set ds) s"
  let ?next = "dropWhile (\<lambda>x. x \<in> set ds) ?rest"
  have eq: "split_any B ds True s = (if ?rest = [] then [s]
      else takeWhile (\<lambda>x. x \<notin> set ds) s # split_any B ds True ?next)"
    using split[unfolded split_documented_def Let_def, rule_format, of ds True s] by simp
  show ?case
  proof (cases "?rest = []")
    case True
    then have "set s \<inter> set ds = {}" by auto
    with True 1 show ?thesis by (simp add: eq)
  next
    case False
    have last: "last ?rest = last s" using False by (metis last_appendR takeWhile_dropWhile_id)
    have ne: "?next \<noteq> []"
      using last 1(4) False by (metis dropWhile_eq_Nil_conv last_in_set)
    have "last ?next = last s" using ne last by (metis last_appendR takeWhile_dropWhile_id)
    moreover have "hd ?next \<notin> set ds" using ne hd_dropWhile by metis
    moreover have "length ?next < length s"
    proof -
      have "hd ?rest \<in> set ds" using False hd_dropWhile by metis
      then have "length ?next < length ?rest"
        using False by (cases ?rest) (auto simp: le_imp_less_Suc length_dropWhile_le)
      then show ?thesis using length_dropWhile_le[of "\<lambda>x. x \<notin> set ds" s] by simp
    qed
    ultimately have IH: "concat (split_any B ds True ?next) = filter (\<lambda>c. c \<notin> set ds) ?next"
      "\<forall>w \<in> set (split_any B ds True ?next). w \<noteq> [] \<and> set w \<inter> set ds = {}"
      using 1 ne by auto
    have "filter (\<lambda>c. c \<notin> set ds) s =
        filter (\<lambda>c. c \<notin> set ds) (takeWhile (\<lambda>x. x \<notin> set ds) s) @
        filter (\<lambda>c. c \<notin> set ds) (takeWhile (\<lambda>x. x \<in> set ds) ?rest) @
        filter (\<lambda>c. c \<notin> set ds) ?next"
      by (metis filter_append takeWhile_dropWhile_id)
    also have "\<dots> = takeWhile (\<lambda>x. x \<notin> set ds) s @ filter (\<lambda>c. c \<notin> set ds) ?next"
      by simp
    finally have all: "filter (\<lambda>c. c \<notin> set ds) s = \<dots>" .
    have word: "takeWhile (\<lambda>x. x \<notin> set ds) s \<noteq> []"
      "set (takeWhile (\<lambda>x. x \<notin> set ds) s) \<inter> set ds = {}"
      using 1(2,3) by (cases s, auto dest: set_takeWhileD)
    have "split_any B ds True s =
        takeWhile (\<lambda>x. x \<notin> set ds) s # split_any B ds True ?next"
      unfolding eq using False by (simp only: if_False)
    then show ?thesis unfolding all using IH word by simp
  qed
qed

lemma trimmed:
  assumes "trim_documented B"
  shows "trim_any B ds s \<noteq> [] \<Longrightarrow> hd (trim_any B ds s) \<notin> set ds"
    and "trim_any B ds s \<noteq> [] \<Longrightarrow> last (trim_any B ds s) \<notin> set ds"
    and "filter (\<lambda>c. c \<notin> set ds) (trim_any B ds s) = filter (\<lambda>c. c \<notin> set ds) s"
proof -
  let ?r = "rev (dropWhile (\<lambda>c. c \<in> set ds) (rev s))"
  have eq: "trim_any B ds s = dropWhile (\<lambda>c. c \<in> set ds) ?r"
    using assms by (simp add: trim_documented_def)
  show "trim_any B ds s \<noteq> [] \<Longrightarrow> hd (trim_any B ds s) \<notin> set ds"
    unfolding eq using hd_dropWhile by metis
  show "trim_any B ds s \<noteq> [] \<Longrightarrow> last (trim_any B ds s) \<notin> set ds"
  proof -
    assume ne: "trim_any B ds s \<noteq> []"
    then have "last (trim_any B ds s) = last ?r"
      unfolding eq by (metis last_appendR takeWhile_dropWhile_id)
    moreover have "?r \<noteq> []" using ne unfolding eq by (metis dropWhile.simps(1))
    ultimately show ?thesis
      by (metis hd_dropWhile last_rev rev_is_Nil_conv)
  qed
  have drop: "filter (\<lambda>c. c \<notin> set ds) (dropWhile (\<lambda>c. c \<in> set ds) t) = filter (\<lambda>c. c \<notin> set ds) t" for t
    by (induction t) auto
  show "filter (\<lambda>c. c \<notin> set ds) (trim_any B ds s) = filter (\<lambda>c. c \<notin> set ds) s"
    unfolding eq drop by (simp add: rev_filter [symmetric] drop)
qed

text \<open>Splitting a word appends to the output a list of non-empty words that contain no
  character of \<open>IFS\<close> and whose concatenation is the word with its \<open>IFS\<close> characters removed; so
  a word of separators only adds nothing, and no other character is lost or reordered.\<close>

theorem split_word_words:
  assumes "resolve_string B ''IFS'' 0 st = Inr ifs"
    and "trim_documented B" and "split_documented B"
  shows "\<exists>ws. split_word B word output st = Inr (output @ ws) \<and>
     concat ws = filter (\<lambda>c. c \<notin> set ifs) word \<and>
     (\<forall>w \<in> set ws. w \<noteq> [] \<and> set w \<inter> set ifs = {})"
proof (cases "trim_any B ifs word = []")
  case True
  with trimmed(3)[OF assms(2), of ifs word] assms(1) show ?thesis
    by (auto simp: split_word_def intro!: exI[of _ "[]"])
next
  case False
  let ?ws = "split_any B ifs True (trim_any B ifs word)"
  have "concat ?ws = filter (\<lambda>c. c \<notin> set ifs) word \<and>
      (\<forall>w \<in> set ?ws. w \<noteq> [] \<and> set w \<inter> set ifs = {})"
    using split_words[OF assms(3) False trimmed(1)[OF assms(2) False]
        trimmed(2)[OF assms(2) False]] trimmed(3)[OF assms(2)] by simp
  with assms(1) False show ?thesis by (auto simp: split_word_def Let_def)
qed

theorem split_word_words_witness:
  "\<exists>ws. split_word boost_ref ''  a b '' [] (new_interpreter :: nat interp) = Inr ws \<and>
     concat ws = ''ab''"
proof -
  have "resolve_string boost_ref ''IFS'' 0 (new_interpreter :: nat interp) =
      Inr [CHR '' '', CHR 0x09, CHR 0x0A]"
    using resolve_string_element[OF interp_ok_new element_new_interpreter_IFS] by simp
  from split_word_words[OF this boost_ref_trim boost_ref_split, of "''  a b ''" "[]"]
  show ?thesis by auto
qed

section \<open>Local variables and the unset test\<close>

text \<open>\<open>is_unset\<close> consults the global scope only, so \<open>${x-word}\<close> takes a variable that is set in
  an enclosing function for an unset one.\<close>

lemma default_expansion_ignores_locals:
  "let st = snd (define_local ''x'' (Str ''v'') False 0 (push_scope (new_interpreter :: nat interp)))
   in resolve_variable st ''x'' = Some (new_variable ''x'' (Str ''v'') False 0) \<and>
      do_default_expansion B (is_unset ''x'' st) ''x'' ''word'' 0 st = Inr ''word''"
  by (simp add: define_local_def push_scope_def new_interpreter_def Let_def define_var_def
      resolve_variable_def is_unset_def do_default_expansion_def)

end
