(* ===== verification/Metadata.thy ===== *)
theory Metadata
  imports Boost_Reference Std_Map
begin

text \<open>
  src/utils/metadata.cpp: the metadata cache entry written from the variables and functions of an
  interpreted ebuild. The variables are the map of the source from names to value vectors; the
  function changes it in place, so the state of the actions is the text written and the map.
\<close>

section \<open>The tables\<close>

type_synonym bindings_map = "string \<Rightarrow> string list option"

definition metadata_names :: "string list" where
  "metadata_names = [''DEPEND'', ''RDEPEND'', ''SLOT'', ''SRC_URI'', ''RESTRICT'', ''HOMEPAGE'',
     ''LICENSE'', ''DESCRIPTION'', ''KEYWORDS'', ''INHERITED'', ''IUSE'', ''REQUIRED_USE'',
     ''PDEPEND'', ''PROVIDE'', ''EAPI'', ''PROPERTIES'']"

definition phases :: "(string \<times> string) list" where
  "phases = [
     (''pkg_pretend'', ''ppretend''), (''pkg_setup'', ''setup''), (''src_unpack'', ''unpack''),
     (''src_prepare'', ''prepare''), (''src_configure'', ''configure''),
     (''src_compile'', ''compile''), (''src_test'', ''test''), (''src_install'', ''install''),
     (''pkg_preinst'', ''preinst''), (''pkg_postinst'', ''postinst''), (''pkg_prerm'', ''prerm''),
     (''pkg_postrm'', ''postrm''), (''pkg_config'', ''config''), (''pkg_info'', ''info''),
     (''pkg_nofetch'', ''nofetch'')]"

definition blanks :: string where
  "blanks = [CHR '' '', CHR 0x09, newline]"

section \<open>Writing the entry\<close>

definition first_value :: "string list \<Rightarrow> string res" where
  \<comment> \<open>\<open>values[0]\<close>\<close>
  "first_value vs = (case vs of
     [] \<Rightarrow> Inl (Undefined_behaviour ''element 0 of an empty vector'') | v # _ \<Rightarrow> Inr v)"

definition read_EAPI :: "boost \<Rightarrow> bindings_map \<Rightarrow> int res" where
  "read_EAPI B variables = (case variables ''EAPI'' of
       None \<Rightarrow> Inr 0
     | Some vs \<Rightarrow> bind_res (first_value vs) (\<lambda>v.
         case lex_int B v of None \<Rightarrow> Inl Bad_lexical_cast | Some n \<Rightarrow> Inr n))"

definition default_RDEPEND :: "int \<Rightarrow> bindings_map \<Rightarrow> bindings_map" where
  "default_RDEPEND EAPI variables =
     (if EAPI < 4 \<and> variables ''RDEPEND'' = None \<and> variables ''DEPEND'' \<noteq> None
      then variables(''RDEPEND'' := variables ''DEPEND'') else variables)"

definition append_words :: "string \<Rightarrow> string list \<Rightarrow> string" where
  \<comment> \<open>each word that is no substring yet is appended\<close>
  "append_words v ws =
     foldl (\<lambda>v w. if \<not> str_contains v w then v @ '' '' @ w else v) v ws"

definition global_value :: "boost \<Rightarrow> string \<Rightarrow> string \<Rightarrow> bindings_map \<Rightarrow> (string \<times> bindings_map) res" where
  \<comment> \<open>the value with the words of the \<open>E_\<close> variable, which is trimmed in place\<close>
  "global_value B name v variables = (case variables (''E_'' @ name) of
       None \<Rightarrow> Inr (v, variables)
     | Some gs \<Rightarrow> bind_res (first_value gs) (\<lambda>g.
         let trimmed = trim_any B blanks g
         in Inr (append_words v (split_any B blanks True trimmed),
                 variables(''E_'' @ name \<mapsto> trimmed # tl gs))))"

definition metadata_words :: "boost \<Rightarrow> string \<Rightarrow> string \<Rightarrow> string list" where
  "metadata_words B name v =
     (let ws = split_any B blanks True (trim_any B blanks v)
      in if name = ''INHERITED'' then sort ws else ws)"

definition metadata_line :: "boost \<Rightarrow> string \<Rightarrow> (string \<times> bindings_map, unit) act" where
  "metadata_line B name = (\<lambda>(written, variables).
     case bind_res (case variables name of None \<Rightarrow> Inr [] | Some vs \<Rightarrow> first_value vs)
            (\<lambda>v. global_value B name v variables) of
       Inl e \<Rightarrow> (Inl e, written, variables)
     | Inr (v, variables') \<Rightarrow>
         (Inr (), written @ karma_list B (metadata_words B name v) @ [newline], variables'))"

definition defined_phases :: "string list \<Rightarrow> string list" where
  \<comment> \<open>the \<open>std::set\<close> of the phases of the defined functions, in its order\<close>
  "defined_phases functions =
     sort (remdups (List.map_filter (map_of phases) functions))"

definition write_metadata :: "boost \<Rightarrow> string list \<Rightarrow> (string \<times> bindings_map, unit) act" where
  "write_metadata B functions = (\<lambda>(written, variables).
     case read_EAPI B variables of
       Inl e \<Rightarrow> (Inl e, written, variables)
     | Inr EAPI \<Rightarrow>
         andthen (for_each metadata_names (metadata_line B))
           (\<lambda>_ (out, variables'). (Inr (),
              out @ karma_list B (defined_phases functions) @ [newline] @ replicate 5 newline,
              variables'))
           (written, default_RDEPEND EAPI variables))"

section \<open>The shape of an entry\<close>

definition lines_in :: "string \<Rightarrow> nat" where
  "lines_in s = length (filter ((=) newline) s)"

lemma lines_in_simps [simp]:
  "lines_in [] = 0" "lines_in (s @ t) = lines_in s + lines_in t"
  "lines_in (newline # s) = Suc (lines_in s)"
  by (simp_all add: lines_in_def)

lemma lines_in_zero: "newline \<notin> set s \<Longrightarrow> lines_in s = 0"
  by (auto simp: lines_in_def filter_empty_conv)

lemma karma_newline_free:
  assumes "karma_documented B" "ws \<noteq> []" "\<forall>w \<in> set ws. newline \<notin> set w"
  shows "newline \<notin> set (karma_list B ws)"
  using assms(2,3)
proof (induction ws)
  case Nil
  then show ?case by simp
next
  case (Cons w ws)
  then show ?case using assms(1)
    by (cases ws) (auto simp: karma_documented_def newline_def)
qed

lemma split_free:
  assumes "split_documented B"
  shows "split_any B ds c s \<noteq> [] \<and> (\<forall>w \<in> set (split_any B ds c s). set w \<inter> set ds = {})"
proof (induction "length s" arbitrary: s rule: less_induct)
  case less
  let ?rest = "dropWhile (\<lambda>x. x \<notin> set ds) s"
  let ?next = "if c then dropWhile (\<lambda>x. x \<in> set ds) ?rest else tl ?rest"
  have eq: "split_any B ds c s = (if ?rest = [] then [s]
      else takeWhile (\<lambda>x. x \<notin> set ds) s # split_any B ds c ?next)"
    by (subst assms[unfolded split_documented_def, rule_format]) (simp only: Let_def)
  show ?case
  proof (cases "?rest = []")
    case True
    then have "set s \<inter> set ds = {}" by (auto simp: dropWhile_eq_Nil_conv)
    then show ?thesis unfolding eq using True by (simp only: if_True) simp
  next
    case False
    have "hd ?rest \<in> set ds" using False hd_dropWhile by metis
    then have "length ?next < length ?rest"
      using False by (cases ?rest) (auto simp: le_imp_less_Suc length_dropWhile_le)
    then have "length ?next < length s" using length_dropWhile_le[of "\<lambda>x. x \<notin> set ds" s] by simp
    from less[OF this] have "\<forall>w \<in> set (split_any B ds c ?next). set w \<inter> set ds = {}" by blast
    moreover have "set (takeWhile (\<lambda>x. x \<notin> set ds) s) \<inter> set ds = {}"
      by (auto dest: set_takeWhileD)
    ultimately show ?thesis unfolding eq using False by (simp only: if_False) simp
  qed
qed

lemma metadata_words_free:
  assumes "split_documented B"
  shows "metadata_words B name v \<noteq> [] \<and> (\<forall>w \<in> set (metadata_words B name v). newline \<notin> set w)"
proof -
  have "newline \<in> set blanks" by (simp add: blanks_def)
  moreover have "sort ws \<noteq> []" if "ws \<noteq> []" for ws :: "string list"
    using that by (metis set_empty set_sort)
  ultimately show ?thesis
    using split_free[OF assms, of blanks True "trim_any B blanks v"]
    by (auto simp: metadata_words_def Let_def)
qed

lemma metadata_line_lines:
  assumes "split_documented B" "karma_documented B" "metadata_line B name (out, vars) = (Inr u, out', vars')"
  shows "\<exists>l. out' = out @ l @ [newline] \<and> newline \<notin> set l"
  using assms(3) karma_newline_free[OF assms(2)] metadata_words_free[OF assms(1)]
  by (auto simp: metadata_line_def split: sum.splits prod.splits)

lemma metadata_lines:
  assumes "split_documented B" "karma_documented B"
    and "for_each names (metadata_line B) (out, vars) = (Inr u, out', vars')"
  shows "lines_in out' = lines_in out + length names"
  using assms(3)
proof (induction names arbitrary: out vars)
  case Nil
  then show ?case by simp
next
  case (Cons name names)
  obtain out1 vars1 where step: "metadata_line B name (out, vars) = (Inr (), out1, vars1)"
    and rest: "for_each names (metadata_line B) (out1, vars1) = (Inr u, out', vars')"
    using Cons.prems by (auto simp: andthen_def split: prod.splits sum.splits)
  have "lines_in out1 = lines_in out + 1"
    using metadata_line_lines[OF assms(1,2) step] lines_in_zero by auto
  with Cons.IH[OF rest] show ?case by simp
qed

lemma phase_names_plain: "p \<in> set (defined_phases functions) \<Longrightarrow> newline \<notin> set p"
proof -
  assume "p \<in> set (defined_phases functions)"
  then have "p \<in> snd ` set phases"
    by (force simp: defined_phases_def map_filter_def dest: map_of_SomeD)
  moreover have "\<forall>q \<in> set (map snd phases). newline \<notin> set q"
    by (simp add: phases_def newline_def)
  ultimately show ?thesis by auto
qed



end
