(* ===== verification/Libbash.thy ===== *)
theory Libbash
  imports Antlr_Reference
begin

text \<open>
  src/libbash.cpp: the public entry points. The map of variables a caller passes is the list of its
  entries in the order the hash table enumerates them; the map it gets back is a function on
  names, with the vector of values of each global variable. An exception passes through, and then the
  caller's containers hold nothing of interest and are not modelled.
\<close>

section \<open>The entry points\<close>

record outcome =
  exit_status :: int
  result_variables :: "string \<Rightarrow> string list option"
  result_functions :: "string list"

definition define_first :: "string \<times> string list \<Rightarrow> ('a interp, unit) act" where
  \<comment> \<open>\<open>walker.define(name, values[0])\<close>\<close>
  "define_first = (\<lambda>(name, vs). case vs of
     [] \<Rightarrow> throw (Undefined_behaviour ''element 0 of an empty vector'')
   | v # _ \<Rightarrow> modify (define_var name (Str v) False 0))"

definition collect :: "boost \<Rightarrow> ('a interp, outcome) act" where
  "collect B = query (\<lambda>st. Inr \<lparr>exit_status = status st,
     result_variables = (\<lambda>name. map_option (\<lambda>v. get_all_values B v []) (members st name)),
     result_functions = get_all_function_names st\<rparr>)"

definition internal_interpret ::
  "boost \<Rightarrow> 'a antlr \<Rightarrow> string \<Rightarrow> (string \<times> string list) list \<Rightarrow> ('a interp, outcome) act" where
  "internal_interpret B W path variables =
     andthen (for_each variables define_first) (\<lambda>_.
     andthen (modify (define_var ''0'' (Str path) True 0)) (\<lambda>_.
     andthen (interpret_ast (ast_of_file B W path Parser_start True) (walker_start W)) (\<lambda>_.
     collect B)))"

definition libbash_interpret ::
  "boost \<Rightarrow> 'a antlr \<Rightarrow> 'a process \<Rightarrow> string \<Rightarrow> (string \<times> string list) list \<Rightarrow>
     outcome res \<times> 'a interp" where
  \<comment> \<open>a new interpreter in a process with the given static data\<close>
  "libbash_interpret B W process target_path variables =
     internal_interpret B W target_path variables (new_interpreter\<lparr>statics := process\<rparr>)"

definition libbash_interpret_preloaded ::
  "boost \<Rightarrow> 'a antlr \<Rightarrow> 'a process \<Rightarrow> string \<Rightarrow> string \<Rightarrow> (string \<times> string list) list \<Rightarrow>
     outcome res \<times> 'a interp" where
  "libbash_interpret_preloaded B W process target_path preload_path variables =
     andthen (interpret_ast (ast_of_file B W preload_path Parser_start True) (walker_start W))
       (\<lambda>_. internal_interpret B W target_path variables) (new_interpreter\<lparr>statics := process\<rparr>)"

section \<open>What a caller gets back\<close>

lemma define_all:
  assumes "\<And>e. e \<in> set variables \<Longrightarrow> snd e \<noteq> []"
  shows "\<exists>t. for_each variables define_first st = (Inr (), t) \<and>
     (\<forall>x. members t x = (case map_of (rev variables) x of
        None \<Rightarrow> members st x | Some vs \<Rightarrow> Some (new_variable x (Str (hd vs)) False 0)))"
  using assms
proof (induction variables arbitrary: st)
  case Nil
  then show ?case by simp
next
  case (Cons e variables)
  obtain name v vs where e: "e = (name, v # vs)"
    using Cons.prems[of e] by (cases e, cases "snd e") auto
  let ?s = "define_var name (Str v) False 0 st"
  obtain t where t: "for_each variables define_first ?s = (Inr (), t)"
    "\<forall>x. members t x = (case map_of (rev variables) x of
        None \<Rightarrow> members ?s x | Some vs \<Rightarrow> Some (new_variable x (Str (hd vs)) False 0))"
    using Cons.IH[of ?s] Cons.prems by auto
  have "for_each (e # variables) define_first st = (Inr (), t)"
    using t(1) by (simp add: e define_first_def)
  moreover have "members t x = (case map_of (rev (e # variables)) x of
        None \<Rightarrow> members st x | Some vs \<Rightarrow> Some (new_variable x (Str (hd vs)) False 0))" for x
    using t(2) by (auto simp: e define_var_def map_add_def split: option.split)
  ultimately show ?case by blast
qed

lemma values_of_new: "get_all_values B (new_variable x (Str v) ro i) [] = [v]"
  by (simp add: get_all_values_def new_variable_def convert_string_def)

definition final_global :: "(string \<times> string list) list \<Rightarrow> string \<Rightarrow> string \<Rightarrow> variable option" where
  \<comment> \<open>the globals with which the script starts\<close>
  "final_global variables path x =
     (if x = ''0'' then Some (new_variable ''0'' (Str path) True 0)
      else case map_of (rev variables) x of
        None \<Rightarrow> members (new_interpreter :: unit interp) x
      | Some vs \<Rightarrow> Some (new_variable x (Str (hd vs)) False 0))"

lemma members_new: "members (new_interpreter :: 'a interp) = members (new_interpreter :: unit interp)"
  by (simp add: new_interpreter_def Let_def define_var_def)

lemma define_only_members: "\<exists>m. snd (for_each vs define_first st) = st\<lparr>members := m\<rparr>"
proof (induction vs arbitrary: st)
  case Nil
  then show ?case by (intro exI[of _ "members st"]) simp
next
  case (Cons e vs)
  obtain x us where e: "e = (x, us)" by (cases e)
  show ?case
  proof (cases us)
    case Nil
    then show ?thesis by (intro exI[of _ "members st"]) (simp add: e andthen_app define_first_def)
  next
    case (Cons v ws)
    obtain m where "snd (for_each vs define_first (define_var x (Str v) False 0 st)) =
        (define_var x (Str v) False 0 st)\<lparr>members := m\<rparr>" using Cons.IH by blast
    with Cons show ?thesis
      by (intro exI[of _ m]) (simp add: e andthen_app define_first_def define_var_def)
  qed
qed

lemma started_interpreter:
  assumes first: "\<And>e. e \<in> set variables \<Longrightarrow> snd e \<noteq> []"
    and ast: "ast_of_file B W path Parser_start True = Inr ast"
  shows "\<exists>s. members s = final_global variables path \<and> local_members s = [] \<and> status s = 0 \<and> function_table s = [] \<and>
     libbash_interpret B W process path variables = andthen (interpret_with (walker_start W) ast) (\<lambda>_. collect B) s"
proof -
  let ?new = "new_interpreter\<lparr>statics := process\<rparr>"
  obtain t where t: "for_each variables define_first ?new = (Inr (), t)"
    "\<And>x. members t x = (case map_of (rev variables) x of
        None \<Rightarrow> members ?new x | Some vs \<Rightarrow> Some (new_variable x (Str (hd vs)) False 0))"
    using define_all[OF first, where st = ?new] by blast
  obtain m where m: "t = ?new\<lparr>members := m\<rparr>" using define_only_members[of variables ?new] t(1) by auto
  let ?s = "define_var ''0'' (Str path) True 0 t"
  have "members ?s x = final_global variables path x" for x
    using t(2)[of x] by (auto simp: final_global_def define_var_def members_new [where ?'a = 'a] split: option.split)
  then have "members ?s = final_global variables path" ..
  moreover have "local_members ?s = []" "status ?s = 0" "function_table ?s = []"
    by (simp_all add: m define_var_def new_interpreter_def Let_def)
  moreover have "libbash_interpret B W process path variables =
      andthen (interpret_with (walker_start W) ast) (\<lambda>_. collect B) ?s"
    using t(1) ast
    by (simp add: libbash_interpret_def internal_interpret_def interpret_ast_def andthen_app split: sum.split)
  ultimately show ?thesis by blast
qed

text \<open>C30 (functional): interpreting a file runs its syntax tree in a state whose globals are the caller's
  variables with their first values, over \<open>IFS\<close> and \<open>$-\<close>, and \<open>$0\<close> readonly with the path; the
  caller gets back the status, the functions and the values of all globals of the state the script
  leaves, or the exception that ended it.\<close>

theorem interpret_runs_script:
  assumes first: "\<And>e. e \<in> set variables \<Longrightarrow> snd e \<noteq> []"
    and ast: "ast_of_file B W path Parser_start True = Inr ast"
  shows "\<exists>s. members s = final_global variables path \<and> local_members s = [] \<and>
     libbash_interpret B W process path variables = (case interpret_with (walker_start W) ast s of
         (Inl e, t) \<Rightarrow> (Inl e, t)
       | (Inr _, t) \<Rightarrow> (Inr \<lparr>exit_status = status t,
            result_variables = (\<lambda>x. map_option (\<lambda>v. get_all_values B v []) (members t x)),
            result_functions = get_all_function_names t\<rparr>, t))"
proof -
  obtain s where s: "members s = final_global variables path" "local_members s = []"
    "libbash_interpret B W process path variables = andthen (interpret_with (walker_start W) ast) (\<lambda>_. collect B) s"
    using started_interpreter[of variables B W path ast process, OF first ast] by blast
  then show ?thesis
    by (intro exI[of _ s]) (simp add: andthen_def collect_def split: prod.split sum.split)
qed

theorem interpret_runs_script_witness:
  "\<exists>t. libbash_interpret boost_ref echoing_antlr \<lparr>ast_cache = Map.empty, null_builtins = []\<rparr> ''/f''
       [(''v'', [''1''])] = (Inr t, snd (libbash_interpret boost_ref echoing_antlr
         \<lparr>ast_cache = Map.empty, null_builtins = []\<rparr> ''/f'' [(''v'', [''1''])])) \<and>
     result_variables t ''v'' = Some [''1'']"
proof -
  have "ast_of_file boost_ref echoing_antlr ''/f'' Parser_start True = Inr ''x=1''"
    by (simp add: ast_of_file_def echoing_antlr_def init_parser_def read_script_def boost_ref_def
        trim_right_ref_def newline_def Let_def)
  from interpret_runs_script[OF _ this, of "[(''v'', [''1''])]" "\<lparr>ast_cache = Map.empty, null_builtins = []\<rparr>"]
  obtain s where s: "members s = final_global [(''v'', [''1''])] ''/f''" "local_members s = []"
    "libbash_interpret boost_ref echoing_antlr \<lparr>ast_cache = Map.empty, null_builtins = []\<rparr> ''/f'' [(''v'', [''1''])] =
      (case interpret_with (walker_start echoing_antlr) ''x=1'' s of
         (Inl e, t) \<Rightarrow> (Inl e, t)
       | (Inr _, t) \<Rightarrow> (Inr \<lparr>exit_status = status t,
            result_variables = (\<lambda>x. map_option (\<lambda>v. get_all_values boost_ref v []) (members t x)),
            result_functions = get_all_function_names t\<rparr>, t))" by auto
  have ran: "resolve_variable (push_current_ast ''x=1'' s) ''ran'' = None"
    using s(1,2) by (simp add: resolve_variable_def push_current_ast_def final_global_def
        new_interpreter_def Let_def define_var_def)
  then have "interpret_with (walker_start echoing_antlr) ''x=1'' s =
      (Inr (), define_var ''ran'' (Str ''x=1'') False 0 s)"
    by (simp add: interpret_with_def echoing_antlr_def set_value_def define_var_def
        push_current_ast_def pop_current_ast_def)
  with s(1,3) show ?thesis
    by (simp add: define_var_def final_global_def values_of_new)
qed

end
