(* ===== verification/Tree_Stream.thy ===== *)
theory Tree_Stream
  imports Bash_Ast
begin

text \<open>
  bashast/libbashWalker.g, the helpers of the tree walker that skip a subtree. The walker reads
  a tree as the sequence of its nodes in preorder in which the children of a node stand between
  \<open>Down\<close> and \<open>Up\<close>; \<open>LA(k)\<close> is the k-th token from the current index on. The position is the
  index into the whole stream, as \<open>INDEX()\<close> and \<open>SEEK\<close> have it.
\<close>

section \<open>Trees as token streams\<close>

datatype syntax_tree = Tree nat "syntax_tree list"

fun serialize :: "syntax_tree \<Rightarrow> stream_token list" and
  serialize_all :: "syntax_tree list \<Rightarrow> stream_token list" where
  "serialize (Tree k ts) = Node k # (if ts = [] then [] else [Down] @ serialize_all ts @ [Up])"
| "serialize_all [] = []"
| "serialize_all (t # ts) = serialize t @ serialize_all ts"

section \<open>Skipping\<close>

fun closing_up :: "nat \<Rightarrow> stream_token list \<Rightarrow> nat option" where
  \<comment> \<open>the loop of \<open>seek_to_next_tree\<close> over the tokens from \<open>LA(4)\<close> on: how many it reads
    until the depth is 0; \<open>None\<close> when the stream ends before, where the loop of the source
    would go on reading the end-of-file token\<close>
  "closing_up depth [] = (if depth = 0 then Some 0 else None)"
| "closing_up depth (t # ts) =
     (if depth = 0 then Some 0
      else map_option Suc (closing_up (case t of Down \<Rightarrow> depth + 1 | Up \<Rightarrow> depth - 1 | Node _ \<Rightarrow> depth) ts))"

definition seek_to_next_tree :: "stream_token list \<Rightarrow> nat \<Rightarrow> nat option" where
  \<comment> \<open>the index after the call\<close>
  "seek_to_next_tree stream index =
     map_option (\<lambda>n. index + 3 + n) (closing_up 1 (drop (index + 3) stream))"

definition skip_next_token_or_tree :: "stream_token list \<Rightarrow> nat \<Rightarrow> nat option" where
  "skip_next_token_or_tree stream index =
     (if take 1 (drop (index + 1) stream) \<noteq> [Down] then Some (index + 1)
      else seek_to_next_tree stream index)"

lemma closing_up_0 [simp]: "closing_up 0 ts = Some 0"
  by (cases ts) simp_all

lemma closing_up_serialize:
  "0 < depth \<Longrightarrow> closing_up depth (serialize t @ rest) =
     map_option ((+) (length (serialize t))) (closing_up depth rest)"
  "0 < depth \<Longrightarrow> closing_up depth (serialize_all ts @ rest) =
     map_option ((+) (length (serialize_all ts))) (closing_up depth rest)"
proof (induction t and ts arbitrary: depth rest and depth rest rule: serialize_serialize_all.induct)
  case (1 k ts)
  have up: "closing_up (depth + 1) ([Up] @ rest) = map_option Suc (closing_up depth rest)" by simp
  show ?case
  proof (cases "ts = []")
    case True
    then show ?thesis using 1(2) by (simp add: option.map_ident map_option_case)
  next
    case False
    have "closing_up depth (serialize (Tree k ts) @ rest) =
        map_option (Suc \<circ> Suc) (closing_up (depth + 1) (serialize_all ts @ [Up] @ rest))"
      using False 1(2) by (simp add: option.map_comp)
    also have "\<dots> = map_option (Suc \<circ> Suc) (map_option ((+) (length (serialize_all ts)))
        (map_option Suc (closing_up depth rest)))"
      using 1(1)[of "depth + 1" "[Up] @ rest"] False up by simp
    finally show ?thesis using False by (simp add: option.map_comp comp_def)
  qed
next
  case 2
  then show ?case by (simp add: option.map_id [unfolded id_def] comp_def)
next
  case (3 t ts)
  then show ?case by (simp add: option.map_comp comp_def add.assoc)
qed

lemma serialize_nonempty: "serialize t \<noteq> []"
  by (cases t) simp

lemma hd_serialize: "\<exists>k. hd (serialize t) = Node k"
  by (cases t) simp

lemma seek_serialized:
  assumes "ts \<noteq> []"
  shows "seek_to_next_tree (before @ serialize (Tree k ts) @ rest) (length before) =
    Some (length before + length (serialize (Tree k ts)))"
proof -
  obtain u us where ts: "ts = u # us" using assms by (cases ts) auto
  obtain x xs where x: "serialize u = Node x # xs"
    using serialize_nonempty[of u] hd_serialize[of u] by (cases "serialize u") auto
  have "drop (length before + 3) (before @ serialize (Tree k ts) @ rest) = xs @ serialize_all us @ [Up] @ rest"
    by (simp add: ts x numeral_3_eq_3)
  moreover have "closing_up 1 (xs @ serialize_all us @ [Up] @ rest) =
      Some (length xs + length (serialize_all us) + 1)"
  proof -
    have "map_option Suc (closing_up 1 (xs @ serialize_all us @ [Up] @ rest)) =
        closing_up 1 (serialize u @ serialize_all us @ [Up] @ rest)"
      by (simp add: x)
    also have "\<dots> = Some (length (serialize u) + (length (serialize_all us) + 1))"
      by (simp add: closing_up_serialize)
    also have "\<dots> = Some (Suc (length xs + length (serialize_all us) + 1))" by (simp add: x)
    finally show ?thesis by (cases "closing_up 1 (xs @ serialize_all us @ [Up] @ rest)") auto
  qed
  ultimately show ?thesis by (simp add: seek_to_next_tree_def ts x)
qed

text \<open>C40 (functional): standing at the root of any subtree of the node stream,
  \<open>skip_next_token_or_tree\<close> moves to the token right after that subtree, whatever precedes and
  follows it, and so does \<open>seek_to_next_tree\<close> when the root has children: the loop counting
  depths neither stops early nor runs on, and it terminates.\<close>

theorem skip_lands_after_tree:
  assumes "take 1 rest \<noteq> [Down]"
  shows "skip_next_token_or_tree (before @ serialize (Tree k ts) @ rest) (length before) =
      Some (length before + length (serialize (Tree k ts))) \<and>
    (ts \<noteq> [] \<longrightarrow> seek_to_next_tree (before @ serialize (Tree k ts) @ rest) (length before) =
      Some (length before + length (serialize (Tree k ts))))"
proof (cases "ts = []")
  case True
  then show ?thesis using assms by (simp add: skip_next_token_or_tree_def)
next
  case False
  then show ?thesis using seek_serialized[OF False, of before k rest]
    by (simp add: skip_next_token_or_tree_def)
qed

theorem skip_lands_after_tree_witness:
  "seek_to_next_tree [Node 1, Down, Node 2, Node 3, Down, Node 4, Up, Up, Node 5] 0 = Some 8"
  using skip_lands_after_tree[of "[Node 5]" "[]" 1 "[Tree 2 [], Tree 3 [Tree 4 []]]"] by simp

text \<open>A root without children is taken for one with children by \<open>seek_to_next_tree\<close>, which then
  skips into what follows; \<open>skip_next_token_or_tree\<close> exists for that case.\<close>

lemma seek_at_leaf:
  "seek_to_next_tree (serialize (Tree 1 []) @ serialize (Tree 2 [Tree 3 []]) @ [Up]) 0 = Some 5"
  by (simp add: seek_to_next_tree_def numeral_eq_Suc)

end
