(* ===== verification/Arithmetic.thy ===== *)
theory Arithmetic
  imports Prelude "HOL-Library.Signed_Division"
begin

unbundle bit_operations_syntax

text \<open>
  bashast/libbashWalker.g, the operators of shell arithmetic, on C++ \<open>long\<close> values: 64-bit words
  read as signed. What C++ leaves undefined (overflow, division by zero, shift counts outside the
  width, shifting a negative value to the left) is a result of its own, never a wrapped value.
\<close>

section \<open>Operators\<close>

datatype binop =
    Bit_or | Bit_xor | Bit_and | Op_leq | Op_geq | Op_less | Op_greater | Not_equals | Equals_to
  | Lshift | Rshift | Op_plus | Op_minus | Op_times | Slash | Pct | Op_exp

datatype unop = Plus_sign | Minus_sign | Bang | Tilde

datatype assign_op =
    Mul_assign | Divide_assign | Mod_assign | Plus_assign | Minus_assign | Lshift_assign
  | Rshift_assign | And_assign | Xor_assign | Or_assign

datatype step_op = Pre_incr | Pre_decr | Post_incr | Post_decr

definition fits_long :: "int \<Rightarrow> bool" where
  "fits_long n \<longleftrightarrow> - (2 ^ 63) \<le> n \<and> n < 2 ^ 63"

definition checked :: "int \<Rightarrow> c_long res" where
  \<comment> \<open>the result of a signed operation whose mathematical value is \<open>n\<close>\<close>
  "checked n = (if fits_long n then Inr (word_of_int n)
                else Inl (Undefined_behaviour ''signed overflow''))"

definition truth :: "bool \<Rightarrow> c_long" where
  "truth b = (if b then 1 else 0)"

fun exp_loop :: "c_long \<Rightarrow> nat \<Rightarrow> c_long \<Rightarrow> c_long res" where
  \<comment> \<open>\<open>while(r--) $value *= l\<close>, \<open>r\<close> not negative\<close>
  "exp_loop l 0 v = Inr v"
| "exp_loop l (Suc r) v = bind_res (checked (sint v * sint l)) (exp_loop l r)"

definition apply_binop :: "binop \<Rightarrow> c_long \<Rightarrow> c_long \<Rightarrow> c_long res" where
  "apply_binop op l r = (case op of
       Bit_or \<Rightarrow> Inr (l OR r)
     | Bit_xor \<Rightarrow> Inr (l XOR r)
     | Bit_and \<Rightarrow> Inr (l AND r)
     | Op_leq \<Rightarrow> Inr (truth (l \<le>s r))
     | Op_geq \<Rightarrow> Inr (truth (r \<le>s l))
     | Op_less \<Rightarrow> Inr (truth (l <s r))
     | Op_greater \<Rightarrow> Inr (truth (r <s l))
     | Not_equals \<Rightarrow> Inr (truth (l \<noteq> r))
     | Equals_to \<Rightarrow> Inr (truth (l = r))
     | Lshift \<Rightarrow>
         if sint r < 0 \<or> 64 \<le> sint r then Inl (Undefined_behaviour ''shift count'')
         else if sint l < 0 then Inl (Undefined_behaviour ''left shift of a negative value'')
         else checked (sint l * 2 ^ nat (sint r))
     | Rshift \<Rightarrow>
         if sint r < 0 \<or> 64 \<le> sint r then Inl (Undefined_behaviour ''shift count'')
         else checked (sint l div 2 ^ nat (sint r))
     | Op_plus \<Rightarrow> checked (sint l + sint r)
     | Op_minus \<Rightarrow> checked (sint l - sint r)
     | Op_times \<Rightarrow> checked (sint l * sint r)
     | Slash \<Rightarrow> if r = 0 then Inl (Undefined_behaviour ''division by zero'')
                else checked (sint l sdiv sint r)
     | Pct \<Rightarrow> if r = 0 then Inl (Undefined_behaviour ''division by zero'')
              else bind_res (checked (sint l sdiv sint r)) (\<lambda>_. checked (sint l smod sint r))
     | Op_exp \<Rightarrow> if sint r < 0 then Inl (Undefined_behaviour ''signed overflow'')
                 else exp_loop l (nat (sint r)) 1)"

text \<open>The right shift of a negative value is implementation-defined in C++; here it is the arithmetic
  shift of every implementation the library builds on. For a negative exponent the source counts
  \<open>r\<close> down from a negative number until it overflows.\<close>

definition apply_unop :: "unop \<Rightarrow> c_long \<Rightarrow> c_long res" where
  "apply_unop op l = (case op of
       Plus_sign \<Rightarrow> Inr l
     | Minus_sign \<Rightarrow> checked (- sint l)
     | Bang \<Rightarrow> Inr (truth (l = 0))
     | Tilde \<Rightarrow> Inr (NOT l))"

definition assign_binop :: "assign_op \<Rightarrow> binop" where
  "assign_binop op = (case op of
       Mul_assign \<Rightarrow> Op_times | Divide_assign \<Rightarrow> Slash | Mod_assign \<Rightarrow> Pct
     | Plus_assign \<Rightarrow> Op_plus | Minus_assign \<Rightarrow> Op_minus | Lshift_assign \<Rightarrow> Lshift
     | Rshift_assign \<Rightarrow> Rshift | And_assign \<Rightarrow> Bit_and | Xor_assign \<Rightarrow> Bit_xor
     | Or_assign \<Rightarrow> Bit_or)"

definition set_index :: "string \<Rightarrow> c_long \<Rightarrow> uint res" where
  \<comment> \<open>the parameter \<open>value\<close> is an \<open>int\<close>, so the \<open>long\<close> loses its upper half\<close>
  "set_index name v =
     (let i = ucast v :: 32 word
      in if sint i < 0
         then Inl (Illegal_argument_exception (''Array index is less than 0: '' @ name @ ''['' @
                ''-'' @ decimal (nat (- sint i)) @ '']''))
         else Inr i)"

definition is_number :: "string \<Rightarrow> bool" where
  \<comment> \<open>\<open>isdigit(target[0])\<close>\<close>
  "is_number target \<longleftrightarrow> target \<noteq> [] \<and> hd target \<in> set ''0123456789''"

section \<open>The operators on the integers\<close>

text \<open>The abstract specification: each operator on unbounded integers, \<open>None\<close> where the
  mathematical operation itself has no value.\<close>

definition int_truth :: "bool \<Rightarrow> int" where
  "int_truth b = (if b then 1 else 0)"

definition int_binop :: "binop \<Rightarrow> int \<Rightarrow> int \<Rightarrow> int option" where
  "int_binop op l r = (case op of
       Bit_or \<Rightarrow> Some (l OR r)
     | Bit_xor \<Rightarrow> Some (l XOR r)
     | Bit_and \<Rightarrow> Some (l AND r)
     | Op_leq \<Rightarrow> Some (int_truth (l \<le> r))
     | Op_geq \<Rightarrow> Some (int_truth (l \<ge> r))
     | Op_less \<Rightarrow> Some (int_truth (l < r))
     | Op_greater \<Rightarrow> Some (int_truth (l > r))
     | Not_equals \<Rightarrow> Some (int_truth (l \<noteq> r))
     | Equals_to \<Rightarrow> Some (int_truth (l = r))
     | Lshift \<Rightarrow> if 0 \<le> r \<and> r < 64 \<and> 0 \<le> l then Some (l * 2 ^ nat r) else None
     | Rshift \<Rightarrow> if 0 \<le> r \<and> r < 64 then Some (l div 2 ^ nat r) else None
     | Op_plus \<Rightarrow> Some (l + r)
     | Op_minus \<Rightarrow> Some (l - r)
     | Op_times \<Rightarrow> Some (l * r)
     | Slash \<Rightarrow> if r = 0 then None else Some (l sdiv r)
     | Pct \<Rightarrow> if r = 0 then None else Some (l smod r)
     | Op_exp \<Rightarrow> if r < 0 then None else Some (l ^ nat r))"

definition int_unop :: "unop \<Rightarrow> int \<Rightarrow> int" where
  "int_unop op l = (case op of
       Plus_sign \<Rightarrow> l | Minus_sign \<Rightarrow> - l | Bang \<Rightarrow> int_truth (l = 0) | Tilde \<Rightarrow> - l - 1)"

section \<open>The machine operators refine them\<close>

lemma fits_sint: "fits_long (sint (w :: c_long))"
  using sint_greater_eq[of w] sint_less[of w] by (simp add: fits_long_def)

lemma sint_checked: "checked n = Inr w \<Longrightarrow> sint w = n"
  by (auto simp: checked_def fits_long_def signed_of_int signed_take_bit_int_eq_self split: if_splits)

lemma checked_sint [simp]: "checked (sint w) = Inr w"
  by (simp add: checked_def fits_sint)

lemma checked_fits: "fits_long n \<Longrightarrow> checked n = Inr (word_of_int n)"
  by (simp add: checked_def)

lemma sint_of_fits: "fits_long n \<Longrightarrow> sint (word_of_int n :: c_long) = n"
  by (rule sint_checked) (rule checked_fits)

lemma sint_truth [simp]: "sint (truth b) = int_truth b"
  by (simp add: truth_def int_truth_def)

lemma checked_truth: "checked (int_truth b) = Inr (truth b)"
  by (simp add: checked_def fits_long_def int_truth_def truth_def)

lemma sint_minus_1 [simp]: "sint (- 1 :: c_long) = - 1"
  by simp

lemma fits_not_huge:
  assumes "\<not> fits_long n" "2 \<le> \<bar>m\<bar>"
  shows "\<not> fits_long (n * m)"
proof -
  have "2 ^ 63 \<le> \<bar>n\<bar>" using assms(1) by (auto simp: fits_long_def)
  moreover have "\<bar>n\<bar> * 2 \<le> \<bar>n\<bar> * \<bar>m\<bar>" using assms(2) by (intro mult_left_mono) auto
  ultimately have "2 ^ 64 \<le> \<bar>n * m\<bar>" by (simp add: abs_mult)
  then show ?thesis by (auto simp: fits_long_def)
qed

lemma fits_mult_unit:
  assumes "fits_long v" "v = - (2 ^ 63) \<longrightarrow> l \<noteq> - 1" "\<bar>l\<bar> < 2"
  shows "fits_long (v * l)"
proof -
  have "l = - 1 \<or> l = 0 \<or> l = 1" using assms(3) by linarith
  then show ?thesis using assms(1,2) by (auto simp: fits_long_def)
qed

lemma exp_loop_checked:
  assumes "v = - (2 ^ 63) \<longrightarrow> sint l \<noteq> - 1" "fits_long v"
  shows "exp_loop l r (word_of_int v) = checked (v * sint l ^ r)"
  using assms
proof (induction r arbitrary: v)
  case 0
  then show ?case by (simp add: checked_fits)
next
  case (Suc r)
  have sv: "sint (word_of_int v :: c_long) = v" using Suc.prems(2) by (rule sint_of_fits)
  show ?case
  proof (cases "fits_long (v * sint l)")
    case True
    have "v * sint l = - (2 ^ 63) \<longrightarrow> sint l \<noteq> - 1"
      using Suc.prems(2) by (auto simp: fits_long_def)
    with Suc.IH[OF this True] show ?thesis by (simp add: sv checked_fits[OF True] mult.assoc)
  next
    case False
    then have big: "2 \<le> \<bar>sint l\<bar>" using fits_mult_unit[OF Suc.prems(2,1)] by linarith
    have "\<not> fits_long (v * sint l ^ Suc r)"
    proof (cases r)
      case 0
      with False show ?thesis by simp
    next
      case (Suc k)
      have "2 \<le> \<bar>sint l ^ r\<bar>"
        using big Suc one_le_power[of "\<bar>sint l\<bar>" k] mult_mono[of 2 "\<bar>sint l\<bar>" 1 "\<bar>sint l\<bar> ^ k"]
        by (simp add: power_abs abs_mult)
      from fits_not_huge[OF False this] show ?thesis by (simp add: mult.assoc)
    qed
    with False show ?thesis by (simp add: sv checked_def)
  qed
qed

lemma exp_loop_one: "exp_loop l r 1 = checked (sint l ^ r)"
  using exp_loop_checked[of 1 l r] by (simp add: fits_long_def)

lemma smod_fits: "fits_long r \<Longrightarrow> r \<noteq> 0 \<Longrightarrow> fits_long (l smod r)"
  using smod_int_range[of r l] by (auto simp: fits_long_def)

lemma shift_right_fits: "fits_long l \<Longrightarrow> fits_long (l div 2 ^ n)"
proof -
  assume l: "fits_long l"
  show "fits_long (l div 2 ^ n)"
  proof (cases "0 \<le> l")
    case True
    then have "0 \<le> l div 2 ^ n" "l div 2 ^ n \<le> l"
      using zdiv_mono2[of l 1 "2 ^ n"] by (simp_all add: pos_imp_zdiv_nonneg_iff)
    with l show ?thesis by (auto simp: fits_long_def)
  next
    case False
    then have "l div 2 ^ n < 0" "l \<le> l div 2 ^ n"
      using zdiv_mono2_neg[of l 1 "2 ^ n"] by (simp_all add: neg_imp_zdiv_neg_iff div_neg_pos_less0)
    with l show ?thesis by (auto simp: fits_long_def)
  qed
qed

lemma checked_iff: "checked n = Inr v \<longleftrightarrow> sint v = n"
  using sint_checked checked_sint by metis

lemma sint_zero_iff: "sint r = 0 \<longleftrightarrow> r = 0" for r :: c_long
  by (metis sint_0 signed_word_eqI)

lemma sint_not: "sint (NOT l) = - sint l - 1" for l :: c_long
proof -
  have "NOT l = word_of_int (- sint l - 1)" by (simp add: not_eq_complement)
  moreover have "fits_long (- sint l - 1)" using fits_sint[of l] by (auto simp: fits_long_def)
  ultimately show ?thesis by (simp add: sint_of_fits del: word_of_int_minus of_int_diff of_int_minus)
qed

lemma word_bits_sint:
  "sint (l OR r) = sint l OR sint r" "sint (l AND r) = sint l AND sint r"
  "sint (l XOR r) = sint l XOR sint r" for l r :: c_long
  by (simp_all add: signed_or_eq signed_and_eq signed_xor_eq)

lemma truth_iff: "truth b = v \<longleftrightarrow> sint v = int_truth b"
  by (metis sint_truth signed_word_eqI)

lemma sint_inject: "sint l = sint r \<longleftrightarrow> l = r" for l r :: c_long
  by (metis signed_word_eqI)

lemma binop_exact:
  "apply_binop op l r = Inr v \<longleftrightarrow>
     int_binop op (sint l) (sint r) = Some (sint v) \<and>
     (op = Pct \<longrightarrow> fits_long (sint l sdiv sint r))"
proof (cases op)
  case Pct
  show ?thesis
  proof (cases "r = 0")
    case False
    have "fits_long (sint l sdiv sint r) \<longleftrightarrow> (\<exists>q. checked (sint l sdiv sint r) = Inr q)"
      by (simp add: checked_def)
    then show ?thesis using Pct False
      by (auto simp: apply_binop_def int_binop_def checked_iff sint_zero_iff)
  qed (simp add: Pct apply_binop_def int_binop_def)
qed (auto simp: apply_binop_def int_binop_def checked_iff truth_iff sint_inject
    word_bits_sint [symmetric] word_sle_eq word_sless_alt exp_loop_one sint_zero_iff)

lemma binop_error:
  "apply_binop op l r = Inl e \<Longrightarrow> \<exists>why. e = Undefined_behaviour why"
  by (cases op) (auto simp: apply_binop_def checked_def exp_loop_one split: if_splits)

lemma unop_exact: "apply_unop op l = Inr v \<longleftrightarrow> int_unop op (sint l) = sint v"
  by (cases op) (auto simp: apply_unop_def int_unop_def checked_iff truth_iff sint_not [symmetric]
    sint_inject sint_zero_iff)

lemma unop_error: "apply_unop op l = Inl e \<Longrightarrow> \<exists>why. e = Undefined_behaviour why"
  by (cases op) (auto simp: apply_unop_def checked_def split: if_splits)

end
