(* ===== verification/Regex.thy ===== *)
theory Regex
  imports Expansion
begin

text \<open>
  The patterns of the shell: what the walker rules build with Boost.Xpressive, a third-party
  library and so a parameter, and the replacers of src/core/interpreter.cpp that apply a pattern.
\<close>

section \<open>Boost.Xpressive\<close>

text \<open>
  \<open>'p\<close> stands for \<open>sregex\<close>.
  \<^item> \<open>rx_literal\<close>: \<open>as_xpr\<close> of a string; \<open>rx_any\<close>: the wildcard \<open>_\<close>; \<open>rx_default\<close>: a
    default-constructed \<open>sregex\<close>;
  \<^item> \<open>rx_seq\<close>, \<open>rx_alt\<close>: the operators \<open>>>\<close> and \<open>|\<close>;
  \<^item> \<open>rx_optional\<close>, \<open>rx_star\<close>, \<open>rx_plus\<close>: \<open>!\<close>, \<open>*\<close>, \<open>+\<close>, greedy when the first argument is
    true and prefixed by \<open>-\<close> otherwise;
  \<^item> \<open>rx_bos\<close>, \<open>rx_eos\<close>, \<open>rx_mark\<close>: the assertions \<open>bos\<close>, \<open>eos\<close> and \<open>s1 = ...\<close>;
  \<^item> \<open>rx_compile\<close>: \<open>sregex::compile\<close>, which may throw;
  \<^item> \<open>rx_match\<close>, \<open>rx_capture\<close>: \<open>regex_match\<close>, and the content of \<open>s1\<close> when it succeeds;
  \<^item> \<open>rx_replace_all\<close>, \<open>rx_replace_first\<close>: \<open>regex_replace\<close> of a pattern by a literal text in a
    string, with \<open>format_first_only\<close> for the second.
\<close>

record 'p xpressive =
  rx_literal :: "string \<Rightarrow> 'p"
  rx_any :: 'p
  rx_default :: 'p
  rx_seq :: "'p \<Rightarrow> 'p \<Rightarrow> 'p"
  rx_alt :: "'p \<Rightarrow> 'p \<Rightarrow> 'p"
  rx_optional :: "bool \<Rightarrow> 'p \<Rightarrow> 'p"
  rx_star :: "bool \<Rightarrow> 'p \<Rightarrow> 'p"
  rx_plus :: "bool \<Rightarrow> 'p \<Rightarrow> 'p"
  rx_bos :: 'p
  rx_eos :: 'p
  rx_mark :: "'p \<Rightarrow> 'p"
  rx_compile :: "string \<Rightarrow> 'p option"
  rx_match :: "'p \<Rightarrow> string \<Rightarrow> bool"
  rx_capture :: "'p \<Rightarrow> string \<Rightarrow> string option"
  rx_replace_all :: "'p \<Rightarrow> string \<Rightarrow> string \<Rightarrow> string"
  rx_replace_first :: "'p \<Rightarrow> string \<Rightarrow> string \<Rightarrow> string"

inductive_set kleene :: "string set \<Rightarrow> string set" for A where
  kleene_empty: "[] \<in> kleene A"
| kleene_more: "u \<in> A \<Longrightarrow> v \<in> kleene A \<Longrightarrow> u @ v \<in> kleene A"

definition concat_langs :: "string set \<Rightarrow> string set \<Rightarrow> string set" where
  "concat_langs A B = {u @ v |u v. u \<in> A \<and> v \<in> B}"

definition regex_documented :: "'p xpressive \<Rightarrow> ('p \<Rightarrow> string set) \<Rightarrow> bool" where
  \<comment> \<open>the strings a pattern matches as a whole, for the operators the walker uses\<close>
  "regex_documented X lang \<longleftrightarrow>
     (\<forall>p s. rx_match X p s \<longleftrightarrow> s \<in> lang p) \<and>
     (\<forall>w. lang (rx_literal X w) = {w}) \<and> lang (rx_any X) = {[c] |c. True} \<and>
     (\<forall>p q. lang (rx_seq X p q) = concat_langs (lang p) (lang q)) \<and>
     (\<forall>p q. lang (rx_alt X p q) = lang p \<union> lang q) \<and>
     (\<forall>g p. lang (rx_optional X g p) = insert [] (lang p)) \<and>
     (\<forall>g p. lang (rx_star X g p) = kleene (lang p)) \<and>
     (\<forall>g p. lang (rx_plus X g p) = concat_langs (lang p) (kleene (lang p)))"

section \<open>Replacers\<close>

definition replace_all :: "'p xpressive \<Rightarrow> 'p \<Rightarrow> string \<Rightarrow> string \<Rightarrow> string" where
  \<comment> \<open>the new value of the string that is passed by reference\<close>
  "replace_all X pattern replacement val = rx_replace_all X pattern replacement val"

definition lazy_remove_at_end :: "'p xpressive \<Rightarrow> 'p \<Rightarrow> string \<Rightarrow> string" where
  "lazy_remove_at_end X pattern val =
     (case rx_capture X pattern val of Some what \<Rightarrow> what | None \<Rightarrow> val)"

definition replace_first :: "'p xpressive \<Rightarrow> 'p \<Rightarrow> string \<Rightarrow> string \<Rightarrow> string" where
  "replace_first X pattern replacement val = rx_replace_first X pattern replacement val"

section \<open>Building a pattern\<close>

definition append_pattern :: "'p xpressive \<Rightarrow> 'p option \<Rightarrow> 'p \<Rightarrow> 'p option" where
  \<comment> \<open>\<open>append\<close>: \<open>None\<close> is a pattern nothing was assigned to, \<open>do_append\<close> false\<close>
  "append_pattern X pattern new_pattern = (case pattern of
       Some p \<Rightarrow> Some (rx_seq X p new_pattern)
     | None \<Rightarrow> Some new_pattern)"

definition alternative :: "'p xpressive \<Rightarrow> 'p option \<Rightarrow> 'p \<Rightarrow> 'p option" where
  \<comment> \<open>the action of \<open>composite_pattern\<close> at the end of a branch\<close>
  "alternative X pattern_list sub_pattern = (case pattern_list of
       Some p \<Rightarrow> Some (rx_alt X p sub_pattern)
     | None \<Rightarrow> Some sub_pattern)"

definition assigned :: "'p xpressive \<Rightarrow> 'p option \<Rightarrow> 'p" where
  "assigned X pattern = (case pattern of Some p \<Rightarrow> p | None \<Rightarrow> rx_default X)"

datatype extended_op =
    Extended_match_at_most_one | Extended_match_any | Extended_match_at_least_one
  | Extended_match_exactly_one | Extended_match_none

definition extended_pattern :: "'p xpressive \<Rightarrow> extended_op \<Rightarrow> bool \<Rightarrow> 'p \<Rightarrow> 'p res" where
  "extended_pattern X op greedy pattern_list = (case op of
       Extended_match_at_most_one \<Rightarrow> Inr (rx_optional X greedy pattern_list)
     | Extended_match_any \<Rightarrow> Inr (rx_star X greedy pattern_list)
     | Extended_match_at_least_one \<Rightarrow> Inr (rx_plus X greedy pattern_list)
     | Extended_match_exactly_one \<Rightarrow> Inr pattern_list
     | Extended_match_none \<Rightarrow> Inl (Unsupported_exception ''!(blah) is not supported for now''))"

definition class_text :: "string \<Rightarrow> string" where
  \<comment> \<open>a character class within brackets\<close>
  "class_text class_name =
     (if class_name = ''word'' then ''A-Za-z0-9_''
      else if class_name = ''ascii'' then [CHR 0x5C] @ ''x00-'' @ [CHR 0x5C] @ ''x7F''
      else ''[:'' @ class_name @ '':]'')"

definition bracket_pattern :: "'p xpressive \<Rightarrow> bool \<Rightarrow> string \<Rightarrow> 'p res" where
  "bracket_pattern X negation pattern_str =
     (case rx_compile X ((if negation then ''[^'' else ''['') @ pattern_str @ '']'') of
        None \<Rightarrow> Inl Regex_error | Some p \<Rightarrow> Inr p)"

datatype replace_op =
    Replace_all | Replace_at_end | Lazy_remove_at_end | Replace_at_start | Lazy_remove_at_start
  | Replace_first

definition replace_greedy :: "replace_op \<Rightarrow> bool" where
  \<comment> \<open>the argument that the alternatives of \<open>var_expansion\<close> pass to \<open>bash_pattern\<close>\<close>
  "replace_greedy op \<longleftrightarrow> op \<noteq> Lazy_remove_at_end \<and> op \<noteq> Lazy_remove_at_start"

definition replacer :: "'p xpressive \<Rightarrow> replace_op \<Rightarrow> 'p \<Rightarrow> string \<Rightarrow> string \<Rightarrow> string" where
  \<comment> \<open>the function object that an alternative of \<open>var_expansion\<close> binds\<close>
  "replacer X op replace_pattern libbash_word = (case op of
       Replace_all \<Rightarrow> replace_all X replace_pattern libbash_word
     | Replace_at_end \<Rightarrow> replace_all X (rx_seq X replace_pattern (rx_eos X)) libbash_word
     | Lazy_remove_at_end \<Rightarrow> lazy_remove_at_end X
         (rx_seq X (rx_seq X (rx_seq X (rx_bos X) (rx_mark X (rx_star X True (rx_any X))))
            replace_pattern) (rx_eos X))
     | Replace_at_start \<Rightarrow> replace_all X (rx_seq X (rx_bos X) replace_pattern) libbash_word
     | Lazy_remove_at_start \<Rightarrow> replace_all X (rx_seq X (rx_bos X) replace_pattern) libbash_word
     | Replace_first \<Rightarrow> replace_first X replace_pattern libbash_word)"

definition replace_expansion ::
  "boost \<Rightarrow> string \<Rightarrow> int \<Rightarrow> (string \<Rightarrow> string) \<Rightarrow> 'a interp \<Rightarrow> string res" where
  "replace_expansion B name index f st =
     (if index > - 1 then do_replace_expansion B name f (word_of_int index) st
      else do_array_replace_expansion B name f st)"

end
