(* ===== verification/Syntax.thy ===== *)
theory Syntax
  imports Arithmetic Regex
begin

text \<open>
  bashast/libbashWalker.g: the trees that the rules of the tree grammar accept, one datatype for
  each group of rules and one constructor for each alternative. A token whose text a rule reads is
  the string of its text. The rules for arithmetic and for expansions are recursive; the types of
  the rules between them have the types of their arithmetic (\<open>'e\<close>), expansion (\<open>'x\<close>) and word
  (\<open>'s\<close>) subtrees as parameters.
\<close>

section \<open>Tokens\<close>

datatype any_token =
    Escaped char      \<comment> \<open>the tokens \<open>ESC_...\<close>, with the character they stand for\<close>
  | Token string      \<comment> \<open>any other token\<close>

type_synonym raw_string = "any_token list"
  \<comment> \<open>the text of a \<open>STRING\<close>; empty for \<open>EMPTY_EXPANSION_VALUE\<close>\<close>

section \<open>Names\<close>

datatype 'e name =
    Plain_name string
  | Element_name string 'e

datatype 'e var_name =
    Positional_name string
  | Named "'e name"
  | Indirect_number string
  | Indirect_name "'e name"
  | Last_positional
  | Options_name

datatype 'e array_name =
    Array_of "'e name"
  | All_positional

datatype 'e operand_name =
    Array_operand "'e array_name"
  | Name_operand "'e var_name"

datatype ('e, 'x) var_ref =
    Ref_name "'e var_name"
  | Ref_array "'e array_name"
  | Ref_count
  | Ref_status
  | Ref_bang
  | Ref_expansion 'x

datatype ('e, 'x) primary =
    Primary_reference "'e name"
  | Primary_name "'e name"
  | Primary_indirect "('e, 'x) var_ref"

section \<open>Parts of a word\<close>

datatype ('e, 'x) quoted_part =
    Quoted_ref "('e, 'x) var_ref"
  | Quoted_arithmetic 'e
  | Quoted_substitution "any_token list"
  | Quoted_text any_token

datatype ('e, 'x) string_part =
    Double_quoted "('e, 'x) quoted_part list"
  | Single_quoted string
  | Arithmetic_part 'e
  | Ref_part "('e, 'x) var_ref"
  | Substitution_part "any_token list"
  | Ansi_c_quoted string
  | Escaped_part any_token
  | Text_part any_token

section \<open>Patterns\<close>

datatype ('e, 'x) class_item =
    Character_class string
  | Class_part "('e, 'x) string_part"

datatype ('e, 'x) basic_pattern =
    Match_all
  | Match_one
  | Match_class bool "('e, 'x) class_item list"
  | Match_part "('e, 'x) string_part"

type_synonym ('e, 'x) branch = "('e, 'x) basic_pattern list"

datatype ('e, 'x) pattern_item =
    Extended extended_op "('e, 'x) branch list"
  | Basic "('e, 'x) basic_pattern"

section \<open>Arithmetic, expansions and words\<close>

datatype arith =
    Parts "arith list"
  | Logic_or arith arith
  | Logic_and arith arith
  | Binary binop arith arith
  | Unary unop arith
  | Conditional arith arith arith
  | Primary_value "(arith, var_expansion) primary"
  | Step step_op "(arith, var_expansion) primary"
  | Assign "(arith, var_expansion) primary" arith
  | Assign_op assign_op "(arith, var_expansion) primary" arith
  | Number string
  | Arithmetic_expression arith
  | Expansion_value var_expansion
and var_expansion =
    Use_default_unset_or_null "arith var_name" raw_string
  | Use_default_unset "arith var_name" raw_string
  | Assign_default_unset_or_null "arith var_name" raw_string
  | Assign_default_unset "arith var_name" raw_string
  | Use_alternate_unset_or_null "arith var_name" raw_string
  | Use_alternate_unset "arith var_name" raw_string
  | Subarray_length "arith array_name" arith arith
  | Subarray "arith array_name" arith
  | Substring_length "arith var_name" arith arith
  | Substring "arith var_name" arith
  | Value_length "arith var_name"
  | Array_size string
  | Replace replace_op "arith operand_name" "(arith, var_expansion) pattern_item list"
      raw_string

datatype ('e, 'x, 's) string_item =
    Part "('e, 'x) string_part"
  | Brace "'s list"

datatype string_expr =
    String "(arith, var_expansion, string_expr) string_item list"

end
