(* ===== verification/Command_Syntax.thy ===== *)
theory Command_Syntax
  imports Syntax
begin

text \<open>
  bashast/libbashWalker.g: the trees of the rules for assignments, redirections, conditions and
  commands. The rules for commands and for compound commands are recursive; a list of commands, an
  atom and a case clause have the types of the commands in them as parameters. \<open>Function\<close>
  holds the index of its body in the node stream, which \<open>INDEX()\<close> reads there.
\<close>

section \<open>Assignments and redirections\<close>

datatype array_item =
    Next_element string_expr
  | Element_at arith string_expr

datatype var_def =
    Define "arith name" "string_expr option"
  | Define_array string "array_item list"
  | Append_array string "array_item list"

datatype redirect_destination =
    File string_expr
  | File_descriptor
  | File_descriptor_move

datatype redirect =
    Redirect_input redirect_destination
  | Redirect_output redirect_destination
  | Redirect_descriptor_input string redirect_destination
  | Redirect_descriptor_output string redirect_destination
  | Here_string string_expr

section \<open>Conditions\<close>

type_synonym word_pattern = "(arith, var_expansion) pattern_item list"

datatype common_condition =
    Binary_test string string_expr string_expr
  | Unary_test char string_expr
  | Equal_strings string_expr string_expr
  | Match_pattern string_expr word_pattern
  | Unequal_strings string_expr string_expr
  | Not_match_pattern string_expr word_pattern
  | Less_string string_expr string_expr
  | Greater_string string_expr string_expr
  | Nonempty_string string_expr

datatype keyword_condition =
    Keyword_or keyword_condition keyword_condition
  | Keyword_and keyword_condition keyword_condition
  | Keyword_not keyword_condition
  | Match_regular_expression string_expr string_expr
  | Keyword_common common_condition

datatype builtin_condition =
    Builtin_not builtin_condition
  | Builtin_and builtin_condition builtin_condition
  | Builtin_or builtin_condition builtin_condition
  | Builtin_less string_expr string_expr
  | Builtin_greater string_expr string_expr
  | Builtin_common common_condition

datatype cond_expr =
    Builtin_test builtin_condition
  | Keyword_test keyword_condition

section \<open>Commands\<close>

datatype case_word =
    Number_word string
  | String_word string_expr
  | Ref_word "(arith, var_expansion) var_ref"
  | Arith_word arith

datatype 'c logic_list =
    Single 'c
  | And_then "'c logic_list" 'c
  | Or_else "'c logic_list" 'c

datatype 'k command_atom =
    Variable_definitions bool "var_def list"
  | Function raw_string nat 'k
  | Simple string_expr "string_expr list" "var_def list" bool
  | Compound 'k

datatype 'c case_clause =
    Case_clause "(arith, var_expansion) branch list" "'c logic_list list option"

datatype command =
    Command "redirect list" "compound command_atom"
and compound =
    Current_shell "command logic_list list"
  | Cond_command cond_expr
  | Arithmetic_command arith
  | For string "string_expr list" "command logic_list list"
  | Cfor "arith option" "arith option" "command logic_list list" "arith option"
  | While "command logic_list list" "command logic_list list"
  | Until "command logic_list list" "command logic_list list"
  | If_statement "(command logic_list list \<times> command logic_list list) list"
      "command logic_list list option"
  | Case case_word "command case_clause list"

type_synonym command_list = "command logic_list list"

section \<open>Whole trees\<close>

text \<open>What the parser rules that the code uses give. The rule for the definitions of a builtin
  gives a list with one command, like \<open>start\<close>.\<close>

datatype ast =
    Script command_list
  | Arithmetic_tree arith
  | Expansion_tree string_expr

section \<open>The bodies of functions\<close>

text \<open>Every function body of a tree with its index, wherever the definition stands.\<close>

fun atom_bodies :: "('k \<times> (nat \<times> 'k) list) command_atom \<Rightarrow> (nat \<times> 'k) list" where
  "atom_bodies (Function name index (body, bodies)) = (index, body) # bodies"
| "atom_bodies (Compound (c, bodies)) = bodies"
| "atom_bodies a = []"

fun logic_bodies :: "'b list logic_list \<Rightarrow> 'b list" where
  "logic_bodies (Single c) = c"
| "logic_bodies (And_then l c) = logic_bodies l @ c"
| "logic_bodies (Or_else l c) = logic_bodies l @ c"

fun clause_bodies :: "'b list case_clause \<Rightarrow> 'b list" where
  "clause_bodies (Case_clause brs cs) = (case cs of None \<Rightarrow> [] | Some cs \<Rightarrow> concat (map logic_bodies cs))"

primrec command_bodies :: "command \<Rightarrow> (nat \<times> compound) list" and
  compound_bodies :: "compound \<Rightarrow> (nat \<times> compound) list" where
  "command_bodies (Command rs atom) =
     atom_bodies (map_command_atom (\<lambda>k. (k, compound_bodies k)) atom)"
| "compound_bodies (Current_shell cs) = concat (map logic_bodies (map (map_logic_list command_bodies) cs))"
| "compound_bodies (Cond_command c) = []"
| "compound_bodies (Arithmetic_command e) = []"
| "compound_bodies (For name ws cs) = concat (map logic_bodies (map (map_logic_list command_bodies) cs))"
| "compound_bodies (Cfor i c cs m) = concat (map logic_bodies (map (map_logic_list command_bodies) cs))"
| "compound_bodies (While c b) = concat (map logic_bodies (map (map_logic_list command_bodies) c)) @
     concat (map logic_bodies (map (map_logic_list command_bodies) b))"
| "compound_bodies (Until c b) = concat (map logic_bodies (map (map_logic_list command_bodies) c)) @
     concat (map logic_bodies (map (map_logic_list command_bodies) b))"
| "compound_bodies (If_statement branches els) =
     concat (map (\<lambda>(c, b). concat (map logic_bodies c) @ concat (map logic_bodies b))
       (map (map_prod (map (map_logic_list command_bodies)) (map (map_logic_list command_bodies))) branches)) @
     (case map_option (map (map_logic_list command_bodies)) els of
        None \<Rightarrow> [] | Some cs \<Rightarrow> concat (map logic_bodies cs))"
| "compound_bodies (Case w clauses) =
     concat (map clause_bodies (map (map_case_clause command_bodies) clauses))"

fun ast_bodies :: "ast \<Rightarrow> (nat \<times> compound) list" where
  "ast_bodies (Script cs) = concat (map logic_bodies (map (map_logic_list command_bodies) cs))"
| "ast_bodies a = []"

end
