(* ===== verification/Word_Walker.thy ===== *)
theory Word_Walker
  imports Syntax Condition Builtins_Source
begin

text \<open>
  bashast/libbashWalker.g: the rules for words, that is for names, references, expansions,
  arithmetic, quoting, patterns and command substitution. Each rule is a function to an action on the
  interpreter. A rule between the recursive ones takes a tree whose arithmetic and expansion
  subtrees are the actions that evaluate them. What a rule asks of other scripts (parsing a value as
  arithmetic, a raw string, a command substitution) goes through the record \<open>W\<close> of the rules.
\<close>

section \<open>Libraries\<close>

text \<open>What the walker uses beyond the interpreter and the parser. \<open>to_int32\<close> is the method
  \<open>toInt32\<close> of the strings of the ANTLR runtime, \<open>eclassdir\<close> the environment variable.\<close>

record ('f, 'p) libraries =
  boost_lib :: boost
  xpressive_lib :: "'p xpressive"
  format_lib :: "'f format_library"
  system_lib :: system
  eclassdir :: "string option"
  to_int32 :: "string \<Rightarrow> 32 word"

definition from_res :: "'r res \<Rightarrow> ('s, 'r) act" where
  "from_res r = query (\<lambda>_. r)"

definition whole_text :: "raw_string \<Rightarrow> string" where
  \<comment> \<open>the loop over the rule \<open>any_string\<close>\<close>
  "whole_text ts = concat (map (\<lambda>t. case t of Escaped c \<Rightarrow> [c] | Token s \<Rightarrow> s) ts)"

definition get_single_quoted_string :: "string \<Rightarrow> string" where
  \<comment> \<open>the token without its first and last character\<close>
  "get_single_quoted_string token = take (length token - 2) (drop 1 token)"

section \<open>Names\<close>

fun walk_name :: "('s, c_long) act name \<Rightarrow> ('s, string \<times> uint) act" where
  "walk_name (Plain_name s) = ret (s, 0)"
| "walk_name (Element_name s val) =
     andthen val (\<lambda>v. from_res (bind_res (set_index s v) (\<lambda>i. Inr (s, i))))"

fun walk_var_name ::
  "boost \<Rightarrow> ('a interp, c_long) act var_name \<Rightarrow> ('a interp, string \<times> uint) act" where
  "walk_var_name B (Positional_name num) = (case lex_unsigned B num of
       None \<Rightarrow> throw Bad_lexical_cast
     | Some index \<Rightarrow> ret (if index \<noteq> 0 then ''*'' else ''0'', index))"
| "walk_var_name B (Named n) = walk_name n"
| "walk_var_name B (Indirect_number num) =
     andthen (query (resolve_string B num 0)) (\<lambda>s. ret (s, 0))"
| "walk_var_name B (Indirect_name n) =
     andthen (walk_name n) (\<lambda>(name, _).
     andthen (query (resolve_string B name 0)) (\<lambda>s. ret (s, 0)))"
| "walk_var_name B Last_positional =
     \<comment> \<open>the \<open>index\<close> the action declares is a variable of its own\<close>
     andthen (query (interp_get_array_length ''*'')) (\<lambda>n.
       ret (if (of_nat n :: 32 word) \<noteq> 0 then ''*'' else ''0'', 0))"
| "walk_var_name B Options_name = ret (''-'', 0)"

fun walk_array_name :: "('s, c_long) act array_name \<Rightarrow> ('s, string) act" where
  "walk_array_name (Array_of n) = andthen (walk_name n) (\<lambda>(name, _). ret name)"
| "walk_array_name All_positional = ret ''*''"

fun walk_operand_name ::
  "boost \<Rightarrow> ('a interp, c_long) act operand_name \<Rightarrow> ('a interp, string \<times> int) act" where
  "walk_operand_name B (Array_operand a) = andthen (walk_array_name a) (\<lambda>name. ret (name, - 1))"
| "walk_operand_name B (Name_operand v) =
     andthen (walk_var_name B v) (\<lambda>(name, index). ret (name, sint index))"

section \<open>References\<close>

fun walk_var_ref ::
  "boost \<Rightarrow> (('a interp, c_long) act, ('a interp, string) act) var_ref \<Rightarrow> ('a interp, string) act"
  where
  "walk_var_ref B (Ref_name v) =
     andthen (walk_var_name B v) (\<lambda>(name, index). query (resolve_string B name index))"
| "walk_var_ref B (Ref_array a) =
     andthen (walk_array_name a) (\<lambda>name. query (get_all_elements_IFS_joined B name))"
| "walk_var_ref B Ref_count =
     andthen (query (interp_get_array_length ''*'')) (\<lambda>n. ret (show_nat B n))"
| "walk_var_ref B Ref_status = query (\<lambda>st. Inr (show_long B (word_of_int (status st))))"
| "walk_var_ref B Ref_bang =
     andthen (modify (emit Cerr (''$! has not been implemented yet'' @ [newline]))) (\<lambda>_. ret [])"
| "walk_var_ref B (Ref_expansion x) = x"

fun walk_primary ::
  "boost \<Rightarrow> (('a interp, c_long) act, ('a interp, string) act) primary \<Rightarrow>
     ('a interp, string \<times> uint) act" where
  "walk_primary B (Primary_reference n) = walk_name n"
| "walk_primary B (Primary_name n) = walk_name n"
| "walk_primary B (Primary_indirect r) = andthen (walk_var_ref B r) (\<lambda>name. ret (name, 0))"

section \<open>Command substitution\<close>

fun halve_backslashes :: "string \<Rightarrow> string" where
  \<comment> \<open>the loop that erases the first of two backslashes\<close>
  "halve_backslashes (c # d # cs) =
     (if c = backslash \<and> d = backslash then backslash # halve_backslashes cs
      else c # halve_backslashes (d # cs))"
| "halve_backslashes cs = cs"

fun unescape_backquotes :: "string \<Rightarrow> string" where
  \<comment> \<open>the loop that erases the backslash before a backquote\<close>
  "unescape_backquotes (c # d # cs) =
     (if c = backslash \<and> d = CHR 0x60 then CHR 0x60 # unescape_backquotes cs
      else c # unescape_backquotes (d # cs))"
| "unescape_backquotes cs = cs"

definition substitution_script :: "string \<Rightarrow> string res" where
  "substitution_script subscript =
     (if str_at subscript 0 = CHR 0x60
      then Inr (unescape_backquotes (halve_backslashes
             (if length subscript < 2 then drop 1 subscript
              else take (length subscript - 2) (drop 1 subscript))))
      else if length subscript < 2 then Inl Out_of_range
      else if length subscript = 2 then Inr []
      else Inr (take (length subscript - 3) (drop 2 subscript)))"

definition with_streams :: "('a interp, 'r) act \<Rightarrow> ('a interp, 'r) act" where
  \<comment> \<open>a block that holds a \<open>current_streams\<close> object\<close>
  "with_streams m st = finally_do m
     (set_input_stream (in_stream st) \<circ> set_error_stream (err_stream st) \<circ>
        set_output_stream (out_stream st)) st"

definition new_output :: "(nat \<Rightarrow> ostream) \<Rightarrow> ('a interp, ostream) act" where
  \<comment> \<open>a new stream object, with nothing written\<close>
  "new_output mk st =
     (let stream = mk (next_stream st)
      in (Inr stream, st\<lparr>next_stream := Suc (next_stream st),
                         written := (written st)(stream := [])\<rparr>))"

definition new_input :: "(nat \<Rightarrow> istream) \<Rightarrow> string option \<Rightarrow> ('a interp, istream) act" where
  \<comment> \<open>a new stream object to read the text from; \<open>None\<close> is a file that cannot be opened\<close>
  "new_input mk content st =
     (let stream = mk (next_stream st)
      in (Inr stream, st\<lparr>next_stream := Suc (next_stream st),
            inputs := (inputs st)(stream := (case content of
              Some text \<Rightarrow> \<lparr>pending = text, eofbit = False, failbit = False\<rparr>
            | None \<Rightarrow> \<lparr>pending = [], eofbit = False, failbit = True\<rparr>))\<rparr>))"

definition walk_substitution ::
  "boost \<Rightarrow> 'a antlr \<Rightarrow> any_token list \<Rightarrow> ('a interp, string) act" where
  \<comment> \<open>the rule \<open>command_substitution\<close>\<close>
  "walk_substitution B W ts = with_streams
     (andthen (new_output Ostringstream) (\<lambda>out.
      andthen (modify (set_output_stream out)) (\<lambda>_.
      andthen (from_res (substitution_script (whole_text ts))) (\<lambda>script.
      andthen (interpret_ast (ast_of_stream B W script Parser_start True) (walker_start W)) (\<lambda>_.
      query (\<lambda>st. Inr (trim_trailing_eols B (written st out))))))))"

section \<open>Parts of a word\<close>

fun walk_quoted_part ::
  "boost \<Rightarrow> 'a antlr \<Rightarrow> (('a interp, c_long) act, ('a interp, string) act) quoted_part \<Rightarrow>
     ('a interp, string) act" where
  \<comment> \<open>the rule \<open>double_quoted_string\<close>\<close>
  "walk_quoted_part B W (Quoted_ref r) = walk_var_ref B r"
| "walk_quoted_part B W (Quoted_arithmetic e) = andthen e (\<lambda>v. ret (show_long B v))"
| "walk_quoted_part B W (Quoted_substitution ts) = walk_substitution B W ts"
| "walk_quoted_part B W (Quoted_text t) = ret (whole_text [t])"

fun walk_string_part ::
  "boost \<Rightarrow> 'a antlr \<Rightarrow> (('a interp, c_long) act, ('a interp, string) act) string_part \<Rightarrow>
     ('a interp, string \<times> bool \<times> bool) act" where
  \<comment> \<open>\<open>libbash_value\<close>, \<open>quoted\<close> and \<open>is_raw_string\<close>\<close>
  "walk_string_part B W (Double_quoted ps) =
     andthen (map_act (walk_quoted_part B W) ps) (\<lambda>vs. ret (concat vs, ps \<noteq> [], True))"
| "walk_string_part B W (Single_quoted token) = ret (get_single_quoted_string token, True, True)"
| "walk_string_part B W (Arithmetic_part e) = andthen e (\<lambda>v. ret (show_long B v, False, False))"
| "walk_string_part B W (Ref_part r) = andthen (walk_var_ref B r) (\<lambda>s. ret (s, False, False))"
| "walk_string_part B W (Substitution_part ts) =
     andthen (walk_substitution B W ts) (\<lambda>s. ret (s, False, False))"
| "walk_string_part B W (Ansi_c_quoted token) =
     (case transform_escapes True (get_single_quoted_string token) of (transformed, stop) \<Rightarrow>
        if stop then throw Suppress_output else ret (transformed, True, True))"
| "walk_string_part B W (Escaped_part t) = ret (backslash # whole_text [t], False, True)"
| "walk_string_part B W (Text_part t) = ret (whole_text [t], False, True)"

section \<open>Patterns\<close>

fun walk_class_item ::
  "boost \<Rightarrow> 'a antlr \<Rightarrow> (('a interp, c_long) act, ('a interp, string) act) class_item \<Rightarrow>
     ('a interp, string) act" where
  "walk_class_item B W (Character_class class_name) = ret (class_text class_name)"
| "walk_class_item B W (Class_part p) = andthen (walk_string_part B W p) (\<lambda>(s, _). ret s)"

fun walk_basic_pattern ::
  "boost \<Rightarrow> 'p xpressive \<Rightarrow> 'a antlr \<Rightarrow> bool \<Rightarrow>
     (('a interp, c_long) act, ('a interp, string) act) basic_pattern \<Rightarrow> ('a interp, 'p) act" where
  \<comment> \<open>the pattern that \<open>basic_pattern\<close> appends\<close>
  "walk_basic_pattern B X W greedy Match_all = ret (rx_star X greedy (rx_any X))"
| "walk_basic_pattern B X W greedy Match_one = ret (rx_any X)"
| "walk_basic_pattern B X W greedy (Match_class negation items) =
     andthen (map_act (walk_class_item B W) items) (\<lambda>ss.
       from_res (bracket_pattern X negation (concat ss)))"
| "walk_basic_pattern B X W greedy (Match_part p) =
     andthen (walk_string_part B W p) (\<lambda>(s, _). ret (rx_literal X s))"

fun walk_branch ::
  "boost \<Rightarrow> 'p xpressive \<Rightarrow> 'a antlr \<Rightarrow> bool \<Rightarrow>
     (('a interp, c_long) act, ('a interp, string) act) branch \<Rightarrow> 'p option \<Rightarrow>
     ('a interp, 'p option) act" where
  "walk_branch B X W greedy [] sub_pattern = ret sub_pattern"
| "walk_branch B X W greedy (b # bs) sub_pattern =
     andthen (walk_basic_pattern B X W greedy b) (\<lambda>p.
       walk_branch B X W greedy bs (append_pattern X sub_pattern p))"

fun walk_composite_pattern ::
  "boost \<Rightarrow> 'p xpressive \<Rightarrow> 'a antlr \<Rightarrow> bool \<Rightarrow>
     (('a interp, c_long) act, ('a interp, string) act) branch list \<Rightarrow> 'p option \<Rightarrow>
     ('a interp, 'p) act" where
  "walk_composite_pattern B X W greedy [] pattern_list = ret (assigned X pattern_list)"
| "walk_composite_pattern B X W greedy (br # brs) pattern_list =
     andthen (walk_branch B X W greedy br None) (\<lambda>sub_pattern.
       walk_composite_pattern B X W greedy brs
         (alternative X pattern_list (assigned X sub_pattern)))"

definition check_extglob :: "('a interp, unit) act" where
  "check_extglob = andthen (query (get_additional_option ''extglob'')) (\<lambda>on.
     if on then ret ()
     else throw (Unsupported_exception
       ''Entered extended pattern matching with extglob disabled''))"

fun walk_pattern_item ::
  "boost \<Rightarrow> 'p xpressive \<Rightarrow> 'a antlr \<Rightarrow> bool \<Rightarrow>
     (('a interp, c_long) act, ('a interp, string) act) pattern_item \<Rightarrow> ('a interp, 'p) act" where
  "walk_pattern_item B X W greedy (Extended op brs) =
     andthen (walk_composite_pattern B X W greedy brs None) (\<lambda>pattern_list.
     andthen check_extglob (\<lambda>_. from_res (extended_pattern X op greedy pattern_list)))"
| "walk_pattern_item B X W greedy (Basic b) = walk_basic_pattern B X W greedy b"

fun walk_bash_pattern ::
  "boost \<Rightarrow> 'p xpressive \<Rightarrow> 'a antlr \<Rightarrow> bool \<Rightarrow>
     (('a interp, c_long) act, ('a interp, string) act) pattern_item list \<Rightarrow> 'p option \<Rightarrow>
     ('a interp, 'p) act" where
  "walk_bash_pattern B X W greedy [] pattern = ret (assigned X pattern)"
| "walk_bash_pattern B X W greedy (i # is) pattern =
     andthen (walk_pattern_item B X W greedy i) (\<lambda>p.
       walk_bash_pattern B X W greedy is (append_pattern X pattern p))"

section \<open>Arithmetic steps\<close>

definition read_value :: "boost \<Rightarrow> 'a antlr \<Rightarrow> string \<times> uint \<Rightarrow> ('a interp, c_long) act" where
  \<comment> \<open>the alternative \<open>primary\<close> of the rule \<open>arithmetic\<close>\<close>
  "read_value B W = (\<lambda>(name, index).
     andthen (query (resolve_string B name index)) (\<lambda>primary_value.
       if primary_value = [] then ret 0 else eval_arithmetic B W primary_value))"

definition store_long :: "string \<times> uint \<Rightarrow> c_long \<Rightarrow> ('a interp, c_long) act" where
  \<comment> \<open>\<open>walker->set_value(name, value, index)\<close> of a \<open>long\<close>\<close>
  "store_long = (\<lambda>(name, index) v. andthen (set_value name (Long v) index) (\<lambda>_. ret v))"

definition update_long ::
  "boost \<Rightarrow> string \<times> uint \<Rightarrow> (c_long \<Rightarrow> c_long res) \<Rightarrow> ('a interp, c_long) act" where
  \<comment> \<open>\<open>set_value(name, f(resolve<long>(name, index)), index)\<close>\<close>
  "update_long B target f =
     andthen (query (resolve_long B (fst target) (snd target))) (\<lambda>old.
     andthen (from_res (f old)) (store_long target))"

definition walk_step ::
  "boost \<Rightarrow> 'a antlr \<Rightarrow> step_op \<Rightarrow> string \<times> uint \<Rightarrow> ('a interp, c_long) act" where
  "walk_step B W op target =
     andthen (query (resolve_string B (fst target) (snd target))) (\<lambda>primary_value.
       if is_number primary_value
       then (case op of
           Pre_incr \<Rightarrow> update_long B target (\<lambda>n. checked (sint n + 1))
         | Pre_decr \<Rightarrow> update_long B target (\<lambda>n. checked (sint n - 1))
         | Post_incr \<Rightarrow> andthen (update_long B target (\<lambda>n. checked (sint n + 1)))
             (\<lambda>v. from_res (checked (sint v - 1)))
         | Post_decr \<Rightarrow> andthen (update_long B target (\<lambda>n. checked (sint n - 1)))
             (\<lambda>v. from_res (checked (sint v + 1))))
       else if primary_value = [] then ret 0
       else eval_arithmetic B W (case op of
           Pre_incr \<Rightarrow> ''++'' @ primary_value | Pre_decr \<Rightarrow> ''--'' @ primary_value
         | Post_incr \<Rightarrow> primary_value @ ''++'' | Post_decr \<Rightarrow> primary_value @ ''--''))"

section \<open>Raw strings\<close>

definition walk_raw_string :: "boost \<Rightarrow> 'a antlr \<Rightarrow> raw_string \<Rightarrow> ('a interp, string) act" where
  "walk_raw_string B W ts =
     (if ts = [] then ret []
      else interpret_ast (ast_of_stream B W (whole_text ts) Parser_all_expansions True)
             (walker_string_expr W))"

section \<open>Arithmetic and expansions\<close>

definition to_int :: "c_long \<Rightarrow> int" where
  \<comment> \<open>the conversion to a parameter of type \<open>int\<close>\<close>
  "to_int v = sint (ucast v :: 32 word)"

primrec walk_arith ::
  "('f, 'p) libraries \<Rightarrow> 'a antlr \<Rightarrow> arith \<Rightarrow> ('a interp, c_long) act" and
  walk_expansion ::
  "('f, 'p) libraries \<Rightarrow> 'a antlr \<Rightarrow> var_expansion \<Rightarrow> ('a interp, string) act" where
  "walk_arith L W (Parts es) =
     andthen (map_act id (map (walk_arith L W) es)) (\<lambda>vs. ret (last (0 # vs)))"
| "walk_arith L W (Logic_or l r) =
     andthen (walk_arith L W l) (\<lambda>a.
       if a \<noteq> 0 then ret 1
       else andthen (walk_arith L W r) (\<lambda>b. ret (truth (b \<noteq> 0))))"
| "walk_arith L W (Logic_and l r) =
     andthen (walk_arith L W l) (\<lambda>a.
       if a = 0 then ret 0
       else andthen (walk_arith L W r) (\<lambda>b. ret (truth (b \<noteq> 0))))"
| "walk_arith L W (Binary op l r) =
     andthen (walk_arith L W l) (\<lambda>a.
     andthen (walk_arith L W r) (\<lambda>b. from_res (apply_binop op a b)))"
| "walk_arith L W (Unary op l) =
     andthen (walk_arith L W l) (\<lambda>a. from_res (apply_unop op a))"
| "walk_arith L W (Conditional c l r) =
     andthen (walk_arith L W c) (\<lambda>cnd.
     andthen (walk_arith L W l) (\<lambda>a.
     andthen (walk_arith L W r) (\<lambda>b. ret (if cnd \<noteq> 0 then a else b))))"
| "walk_arith L W (Primary_value p) =
     andthen (walk_primary (boost_lib L) (map_primary (walk_arith L W) (walk_expansion L W) p))
       (read_value (boost_lib L) W)"
| "walk_arith L W (Step op p) =
     andthen (walk_primary (boost_lib L) (map_primary (walk_arith L W) (walk_expansion L W) p))
       (walk_step (boost_lib L) W op)"
| "walk_arith L W (Assign p e) =
     andthen (walk_primary (boost_lib L) (map_primary (walk_arith L W) (walk_expansion L W) p))
       (\<lambda>target. andthen (walk_arith L W e) (store_long target))"
| "walk_arith L W (Assign_op op p e) =
     andthen (walk_primary (boost_lib L) (map_primary (walk_arith L W) (walk_expansion L W) p))
       (\<lambda>target. andthen (walk_arith L W e) (\<lambda>l.
          update_long (boost_lib L) target (\<lambda>n. apply_binop (assign_binop op) n l)))"
| "walk_arith L W (Number token) = ret (scast (to_int32 L token))"
| "walk_arith L W (Arithmetic_expression e) = walk_arith L W e"
| "walk_arith L W (Expansion_value x) =
     andthen (walk_expansion L W x) (\<lambda>s. case lex_long (boost_lib L) s of
         None \<Rightarrow> throw Bad_lexical_cast | Some n \<Rightarrow> ret n)"

| "walk_expansion L W (Use_default_unset_or_null v w) =
     andthen (walk_var_name (boost_lib L) (map_var_name (walk_arith L W) v)) (\<lambda>(name, index).
     andthen (walk_raw_string (boost_lib L) W w) (\<lambda>word. query (\<lambda>st.
       do_default_expansion (boost_lib L) (is_unset_or_null (boost_lib L) name index st)
         name word index st)))"
| "walk_expansion L W (Use_default_unset v w) =
     andthen (walk_var_name (boost_lib L) (map_var_name (walk_arith L W) v)) (\<lambda>(name, index).
     andthen (walk_raw_string (boost_lib L) W w) (\<lambda>word. query (\<lambda>st.
       do_default_expansion (boost_lib L) (is_unset name st) name word index st)))"
| "walk_expansion L W (Assign_default_unset_or_null v w) =
     andthen (walk_var_name (boost_lib L) (map_var_name (walk_arith L W) v)) (\<lambda>(name, index).
     andthen (walk_raw_string (boost_lib L) W w) (\<lambda>word.
     andthen (query (\<lambda>st. Inr (is_unset_or_null (boost_lib L) name index st))) (\<lambda>cond.
       do_assign_expansion (boost_lib L) cond name word index)))"
| "walk_expansion L W (Assign_default_unset v w) =
     andthen (walk_var_name (boost_lib L) (map_var_name (walk_arith L W) v)) (\<lambda>(name, index).
     andthen (walk_raw_string (boost_lib L) W w) (\<lambda>word.
     andthen (query (\<lambda>st. Inr (is_unset name st))) (\<lambda>cond.
       do_assign_expansion (boost_lib L) cond name word index)))"
| "walk_expansion L W (Use_alternate_unset_or_null v w) =
     andthen (walk_var_name (boost_lib L) (map_var_name (walk_arith L W) v)) (\<lambda>(name, index).
     andthen (walk_raw_string (boost_lib L) W w) (\<lambda>word. query (\<lambda>st.
       Inr (do_alternate_expansion (is_unset_or_null (boost_lib L) name index st) word))))"
| "walk_expansion L W (Use_alternate_unset v w) =
     andthen (walk_var_name (boost_lib L) (map_var_name (walk_arith L W) v)) (\<lambda>(name, index).
     andthen (walk_raw_string (boost_lib L) W w) (\<lambda>word. query (\<lambda>st.
       Inr (do_alternate_expansion (is_unset name st) word))))"
| "walk_expansion L W (Subarray_length a e l) =
     andthen (walk_array_name (map_array_name (walk_arith L W) a)) (\<lambda>name.
     andthen (walk_arith L W e) (\<lambda>offset.
     andthen (walk_arith L W l) (\<lambda>len. query
       (do_subarray_expansion_length (boost_lib L) name (sint offset) (to_int len)))))"
| "walk_expansion L W (Subarray a e) =
     andthen (walk_array_name (map_array_name (walk_arith L W) a)) (\<lambda>name.
     andthen (walk_arith L W e) (\<lambda>offset. query
       (do_subarray_expansion (boost_lib L) name (sint offset))))"
| "walk_expansion L W (Substring_length v e l) =
     andthen (walk_var_name (boost_lib L) (map_var_name (walk_arith L W) v)) (\<lambda>(name, index).
     andthen (walk_arith L W e) (\<lambda>offset.
     andthen (walk_arith L W l) (\<lambda>len. query
       (do_substring_expansion_length (boost_lib L) name (sint offset) (to_int len) index))))"
| "walk_expansion L W (Substring v e) =
     andthen (walk_var_name (boost_lib L) (map_var_name (walk_arith L W) v)) (\<lambda>(name, index).
     andthen (walk_arith L W e) (\<lambda>offset. query
       (do_substring_expansion (boost_lib L) name (sint offset) index)))"
| "walk_expansion L W (Value_length v) =
     andthen (walk_var_name (boost_lib L) (map_var_name (walk_arith L W) v)) (\<lambda>(name, index).
     andthen (query (interp_get_length (boost_lib L) name index)) (\<lambda>n.
       ret (show_nat (boost_lib L) n)))"
| "walk_expansion L W (Array_size name) =
     andthen (query (interp_get_array_length name)) (\<lambda>n. ret (show_nat (boost_lib L) n))"
| "walk_expansion L W (Replace op v items w) =
     andthen (walk_operand_name (boost_lib L) (map_operand_name (walk_arith L W) v))
       (\<lambda>(name, index).
     andthen (walk_bash_pattern (boost_lib L) (xpressive_lib L) W (replace_greedy op)
         (map (map_pattern_item (walk_arith L W) (walk_expansion L W)) items) None)
       (\<lambda>replace_pattern.
     andthen (walk_raw_string (boost_lib L) W w) (\<lambda>word. query
       (replace_expansion (boost_lib L) name index
         (replacer (xpressive_lib L) op replace_pattern word)))))"

section \<open>Words\<close>

fun walk_string_items ::
  "boost \<Rightarrow> 'a antlr \<Rightarrow> (('a interp, c_long) act, ('a interp, string) act,
       ('a interp, string \<times> bool) act) string_item list \<Rightarrow>
     string list \<times> bool \<times> bool \<Rightarrow> ('a interp, string list \<times> bool \<times> bool) act" where
  \<comment> \<open>the loop of \<open>string_expr\<close>: \<open>brace_expansion_base\<close>, \<open>quoted\<close> and \<open>is_raw_string\<close>\<close>
  "walk_string_items B W [] state = ret state"
| "walk_string_items B W (Part p # is) (base, quoted, is_raw) =
     andthen (walk_string_part B W p) (\<lambda>(s, part_quoted, part_raw).
       walk_string_items B W is (map (\<lambda>b. b @ s) base, part_quoted, is_raw \<and> part_raw))"
| "walk_string_items B W (Brace es # is) (base, quoted, is_raw) =
     andthen (map_act id es) (\<lambda>elements.
       walk_string_items B W is
         (concat (map (\<lambda>b. map (\<lambda>e. b @ fst e) elements) base), quoted, is_raw))"

definition joined_word :: "boost \<Rightarrow> string list \<times> bool \<times> bool \<Rightarrow> (string \<times> bool) res" where
  \<comment> \<open>the \<open>@after\<close> action\<close>
  "joined_word B = (\<lambda>(base, quoted, is_raw).
     if \<not> is_raw \<and> 1 < length base
     then Inl (Unsupported_exception ''We only support brace expansion in raw string for now'')
     else Inr (join_with B base '' '', quoted))"

primrec walk_string_expr ::
  "('f, 'p) libraries \<Rightarrow> 'a antlr \<Rightarrow> string_expr \<Rightarrow> ('a interp, string \<times> bool) act" where
  "walk_string_expr L W (String items) =
     andthen (walk_string_items (boost_lib L) W
         (map (map_string_item (walk_arith L W) (walk_expansion L W) (walk_string_expr L W)) items)
         ([[]], True, True))
       (\<lambda>state. from_res (joined_word (boost_lib L) state))"

definition word_text :: "('f, 'p) libraries \<Rightarrow> 'a antlr \<Rightarrow> string_expr \<Rightarrow> ('a interp, string) act" where
  \<comment> \<open>\<open>$string_expr.libbash_value\<close>\<close>
  "word_text L W e = andthen (walk_string_expr L W e) (\<lambda>(s, _). ret s)"

definition bash_pattern ::
  "('f, 'p) libraries \<Rightarrow> 'a antlr \<Rightarrow> bool \<Rightarrow> (arith, var_expansion) pattern_item list \<Rightarrow>
     ('a interp, 'p) act" where
  "bash_pattern L W greedy items = walk_bash_pattern (boost_lib L) (xpressive_lib L) W greedy
     (map (map_pattern_item (walk_arith L W) (walk_expansion L W)) items) None"

definition composite_pattern ::
  "('f, 'p) libraries \<Rightarrow> 'a antlr \<Rightarrow> bool \<Rightarrow> (arith, var_expansion) branch list \<Rightarrow>
     ('a interp, 'p) act" where
  "composite_pattern L W greedy brs = walk_composite_pattern (boost_lib L) (xpressive_lib L) W greedy
     (map (map (map_basic_pattern (walk_arith L W) (walk_expansion L W))) brs) None"

definition var_ref_rule ::
  "('f, 'p) libraries \<Rightarrow> 'a antlr \<Rightarrow> (arith, var_expansion) var_ref \<Rightarrow> ('a interp, string) act" where
  "var_ref_rule L W r = walk_var_ref (boost_lib L) (map_var_ref (walk_arith L W) (walk_expansion L W) r)"

definition name_rule ::
  "('f, 'p) libraries \<Rightarrow> 'a antlr \<Rightarrow> arith name \<Rightarrow> ('a interp, string \<times> uint) act" where
  "name_rule L W n = walk_name (map_name (walk_arith L W) n)"

end
