(* ===== verification/Command_Walker.thy ===== *)
theory Command_Walker
  imports Command_Syntax Word_Walker
begin

text \<open>
  bashast/libbashWalker.g: the rules for assignments, redirections, conditions and commands. The
  control structures are functions on the actions of their parts. A loop that need not end takes a
  bound on its iterations and gives \<open>Out_of_fuel\<close> beyond it. Moving the position in the node
  stream (\<open>SEEK\<close>, \<open>seek_to_next_tree\<close>) is choosing the subtree to walk.
\<close>

section \<open>Assignments\<close>

fun array_def_helper ::
  "('f, 'p) libraries \<Rightarrow> 'a antlr \<Rightarrow> string \<Rightarrow> array_item list \<Rightarrow> uint \<Rightarrow> (uint, string) smap \<Rightarrow>
     ('a interp, (uint, string) smap) act" where
  "array_def_helper L W libbash_name [] index values = ret values"
| "array_def_helper L W libbash_name (Next_element e # is) index values =
     andthen (word_text L W e) (\<lambda>v.
       array_def_helper L W libbash_name is (index + 1) (smap_insert index v values))"
| "array_def_helper L W libbash_name (Element_at a e # is) index values =
     andthen (walk_arith L W a) (\<lambda>val.
     andthen (from_res (set_index libbash_name val)) (\<lambda>i.
     andthen (word_text L W e) (\<lambda>v.
       array_def_helper L W libbash_name is (i + 1) (smap_insert i v values))))"

fun walk_var_def ::
  "('f, 'p) libraries \<Rightarrow> 'a antlr \<Rightarrow> bool \<Rightarrow> var_def \<Rightarrow> ('a interp, unit) act" where
  "walk_var_def L W local (Define n e) =
     andthen (name_rule L W n) (\<lambda>(name, index).
     andthen (case e of None \<Rightarrow> ret [] | Some e' \<Rightarrow> word_text L W e') (\<lambda>v.
       if local then define_local name (Str v) False index
       else andthen (set_value name (Str v) index) (\<lambda>_. ret ())))"
| "walk_var_def L W local (Define_array libbash_name items) =
     andthen (array_def_helper L W libbash_name items 0 []) (\<lambda>values.
       if local then define_local_array libbash_name values False
       else modify (define_array libbash_name values False))"
| "walk_var_def L W local (Append_array libbash_name items) =
     andthen (query (interp_get_max_index libbash_name)) (\<lambda>max_index.
     andthen (query (\<lambda>st. Inr (is_unset_or_null (boost_lib L) libbash_name 0 st))) (\<lambda>null.
     andthen (array_def_helper L W libbash_name items
         (if (of_nat max_index + 1 :: uint) = 1 \<and> null then 0 else of_nat max_index + 1) [])
       (\<lambda>values.
       if local
       then throw (Unsupported_exception ''Appending array to local variable is not supported'')
       else for_each values (\<lambda>(i, v).
              andthen (set_value libbash_name (Str v) i) (\<lambda>_. ret ())))))"

section \<open>Redirections\<close>

definition complain :: "string \<Rightarrow> ('a interp, unit) act" where
  "complain message = modify (emit Cerr (message @ [newline]))"

fun redirect_destination_output ::
  "('f, 'p) libraries \<Rightarrow> 'a antlr \<Rightarrow> redirect_destination \<Rightarrow> ('a interp, unit) act" where
  "redirect_destination_output L W (File e) =
     andthen (word_text L W e) (\<lambda>path.
     andthen (new_output (\<lambda>n. Ofstream n path)) (\<lambda>stream. modify (set_output_stream stream)))"
| "redirect_destination_output L W File_descriptor =
     complain ''FILE_DESCRIPTOR redirection is not supported yet''"
| "redirect_destination_output L W File_descriptor_move =
     complain ''FILE_DESCRIPTOR_MOVE redirection is not supported yet''"

fun redirect_destination_input ::
  "('f, 'p) libraries \<Rightarrow> 'a antlr \<Rightarrow> redirect_destination \<Rightarrow> ('a interp, unit) act" where
  "redirect_destination_input L W (File e) =
     andthen (word_text L W e) (\<lambda>path.
     andthen (new_input (\<lambda>n. Ifstream n path) (file_text W path)) (\<lambda>stream.
       modify (set_input_stream stream)))"
| "redirect_destination_input L W File_descriptor =
     complain ''FILE_DESCRIPTOR redirection is not supported yet''"
| "redirect_destination_input L W File_descriptor_move =
     complain ''FILE_DESCRIPTOR_MOVE redirection is not supported yet''"

fun walk_redirect ::
  "('f, 'p) libraries \<Rightarrow> 'a antlr \<Rightarrow> redirect \<Rightarrow> ('a interp, unit) act" where
  "walk_redirect L W (Redirect_input d) = redirect_destination_input L W d"
| "walk_redirect L W (Redirect_output d) = redirect_destination_output L W d"
| "walk_redirect L W (Redirect_descriptor_input digit d) =
     andthen (redirect_destination_input L W d) (\<lambda>_. complain ''Redirection is not supported yet'')"
| "walk_redirect L W (Redirect_descriptor_output digit d) =
     andthen (redirect_destination_output L W d) (\<lambda>_. complain ''Redirection is not supported yet'')"
| "walk_redirect L W (Here_string e) =
     andthen (word_text L W e) (\<lambda>text'.
     andthen (new_input Istringstream (Some text')) (\<lambda>stream. modify (set_input_stream stream)))"

section \<open>Conditions\<close>

definition both_words ::
  "('f, 'p) libraries \<Rightarrow> 'a antlr \<Rightarrow> string_expr \<Rightarrow> string_expr \<Rightarrow>
     (string \<Rightarrow> string \<Rightarrow> ('a interp, 'r) act) \<Rightarrow> ('a interp, 'r) act" where
  "both_words L W left right f =
     andthen (word_text L W left) (\<lambda>l. andthen (word_text L W right) (f l))"

definition matches_pattern ::
  "('f, 'p) libraries \<Rightarrow> 'a antlr \<Rightarrow> string_expr \<Rightarrow> word_pattern \<Rightarrow> ('a interp, bool) act" where
  "matches_pattern L W left items =
     andthen (word_text L W left) (\<lambda>l.
     andthen (bash_pattern L W False items) (\<lambda>pattern. ret (rx_match (xpressive_lib L) pattern l)))"

fun walk_common_condition ::
  "('f, 'p) libraries \<Rightarrow> 'a antlr \<Rightarrow> common_condition \<Rightarrow> ('a interp, bool) act" where
  "walk_common_condition L W (Binary_test op left right) =
     both_words L W left right (test_binary (boost_lib L) W (system_lib L) op)"
| "walk_common_condition L W (Unary_test op e) =
     andthen (word_text L W e) (\<lambda>s. from_res (test_unary (boost_lib L) (system_lib L) op s))"
| "walk_common_condition L W (Equal_strings left right) =
     both_words L W left right (\<lambda>l r. ret (l = r))"
| "walk_common_condition L W (Match_pattern left items) = matches_pattern L W left items"
| "walk_common_condition L W (Unequal_strings left right) =
     both_words L W left right (\<lambda>l r. ret (l \<noteq> r))"
| "walk_common_condition L W (Not_match_pattern left items) =
     andthen (matches_pattern L W left items) (\<lambda>b. ret (\<not> b))"
| "walk_common_condition L W (Less_string left right) =
     both_words L W left right (\<lambda>l r. ret (l < r))"
| "walk_common_condition L W (Greater_string left right) =
     both_words L W left right (\<lambda>l r. ret (r < l))"
| "walk_common_condition L W (Nonempty_string e) = andthen (word_text L W e) (\<lambda>s. ret (s \<noteq> []))"

fun walk_keyword_condition ::
  "('f, 'p) libraries \<Rightarrow> 'a antlr \<Rightarrow> keyword_condition \<Rightarrow> ('a interp, bool) act" where
  "walk_keyword_condition L W (Keyword_or l r) =
     andthen (walk_keyword_condition L W l) (\<lambda>b.
       if b then ret True else walk_keyword_condition L W r)"
| "walk_keyword_condition L W (Keyword_and l r) =
     andthen (walk_keyword_condition L W l) (\<lambda>b.
       if \<not> b then ret False else walk_keyword_condition L W r)"
| "walk_keyword_condition L W (Keyword_not c) =
     andthen (walk_keyword_condition L W c) (\<lambda>b. ret (\<not> b))"
| "walk_keyword_condition L W (Match_regular_expression left right) =
     both_words L W left right (\<lambda>l r.
     andthen (interpret_ast (ast_of_stream (boost_lib L) W r Parser_all_expansions False)
       (walker_string_expr W)) (\<lambda>pattern.
       case rx_compile (xpressive_lib L) pattern of
         None \<Rightarrow> throw Regex_error
       | Some re \<Rightarrow> ret (rx_match (xpressive_lib L) re l)))"
| "walk_keyword_condition L W (Keyword_common c) = walk_common_condition L W c"

fun walk_builtin_condition ::
  "('f, 'p) libraries \<Rightarrow> 'a antlr \<Rightarrow> builtin_condition \<Rightarrow> ('a interp, bool) act" where
  "walk_builtin_condition L W (Builtin_not c) =
     andthen (walk_builtin_condition L W c) (\<lambda>b. ret (\<not> b))"
| "walk_builtin_condition L W (Builtin_and l r) =
     andthen (walk_builtin_condition L W l) (\<lambda>b.
     andthen (walk_builtin_condition L W r) (\<lambda>c. ret (b \<and> c)))"
| "walk_builtin_condition L W (Builtin_or l r) =
     andthen (walk_builtin_condition L W l) (\<lambda>b.
     andthen (walk_builtin_condition L W r) (\<lambda>c. ret (b \<or> c)))"
| "walk_builtin_condition L W (Builtin_less left right) =
     both_words L W left right (\<lambda>l r. ret (l < r))"
| "walk_builtin_condition L W (Builtin_greater left right) =
     both_words L W left right (\<lambda>l r. ret (r < l))"
| "walk_builtin_condition L W (Builtin_common c) = walk_common_condition L W c"

fun walk_cond_expr :: "('f, 'p) libraries \<Rightarrow> 'a antlr \<Rightarrow> cond_expr \<Rightarrow> ('a interp, unit) act" where
  "walk_cond_expr L W (Builtin_test c) =
     andthen (walk_builtin_condition L W c) (\<lambda>b. modify (set_status (if b then 0 else 1)))"
| "walk_cond_expr L W (Keyword_test c) =
     andthen (walk_keyword_condition L W c) (\<lambda>b. modify (set_status (if b then 0 else 1)))"

section \<open>Simple commands\<close>

definition walk_argument ::
  "('f, 'p) libraries \<Rightarrow> 'a antlr \<Rightarrow> bool \<Rightarrow> string_expr \<Rightarrow> string list \<Rightarrow>
     ('a interp, string list) act" where
  \<comment> \<open>the vector \<open>args\<close> after the rule\<close>
  "walk_argument L W split e args =
     andthen (walk_string_expr L W e) (\<lambda>(s, quoted).
       if s = [] then ret args
       else if quoted \<or> \<not> split then ret (args @ [s])
       else query (split_word (boost_lib L) s args))"

fun walk_arguments ::
  "('f, 'p) libraries \<Rightarrow> 'a antlr \<Rightarrow> bool \<Rightarrow> string_expr list \<Rightarrow> string list \<Rightarrow>
     ('a interp, string list) act" where
  "walk_arguments L W split [] args = ret args"
| "walk_arguments L W split (e # es) args =
     andthen (walk_argument L W split e args) (walk_arguments L W split es)"

definition run_command ::
  "('f, 'p) libraries \<Rightarrow> 'a antlr \<Rightarrow> string \<Rightarrow> string list \<Rightarrow> ('a interp, unit) act" where
  \<comment> \<open>the three branches of \<open>execute_command\<close>\<close>
  "run_command L W name args st =
     (if has_function name st then catch_return (call (walker_compound_command W) name args) st
      else if is_builtin name st
      then andthen (execute_builtin (boost_lib L) W (format_lib L) (eclassdir L) name args None None None)
             (\<lambda>r. modify (set_status r)) st
      else (Inl (Unsupported_exception (name @ '' is not supported yet'')), set_status 1 st))"

definition execute_command ::
  "('f, 'p) libraries \<Rightarrow> 'a antlr \<Rightarrow> string \<Rightarrow> string list \<Rightarrow> var_def list \<Rightarrow> bool \<Rightarrow>
     ('a interp, unit) act" where
  "execute_command L W name args defs bang =
     (let body =
        andthen (for_each defs (walk_var_def L W True)) (\<lambda>_.
        andthen (run_command L W (if name = [] then '':'' else name) args) (\<lambda>_.
          if bang then modify (\<lambda>st. set_status (if status st = 0 then 1 else 0) st) else ret ()))
      in if name \<notin> {''local'', ''set'', ''declare'', ''eval''} then with_local_scope body else body)"

definition walk_simple_command ::
  "('f, 'p) libraries \<Rightarrow> 'a antlr \<Rightarrow> string_expr \<Rightarrow> string_expr list \<Rightarrow> var_def list \<Rightarrow> bool \<Rightarrow>
     ('a interp, unit) act" where
  "walk_simple_command L W e es defs bang =
     andthen (word_text L W e) (\<lambda>name.
     andthen (walk_arguments L W (name \<notin> {''local'', ''export'', ''declare''}) es []) (\<lambda>args.
       execute_command L W name args defs bang))"

section \<open>Lists and control structures\<close>

definition if_status :: "(int \<Rightarrow> bool) \<Rightarrow> ('a interp, 'r) act \<Rightarrow> ('a interp, 'r) act \<Rightarrow> ('a interp, 'r) act" where
  "if_status P m n st = (if P (status st) then m st else n st)"

fun walk_logic_list :: "('a interp, unit) act logic_list \<Rightarrow> ('a interp, unit) act" where
  "walk_logic_list (Single c) = c"
| "walk_logic_list (And_then l c) =
     andthen (walk_logic_list l) (\<lambda>_. if_status (\<lambda>n. n = 0) c (ret ()))"
| "walk_logic_list (Or_else l c) =
     andthen (walk_logic_list l) (\<lambda>_. if_status (\<lambda>n. n \<noteq> 0) c (ret ()))"

definition walk_list :: "('a interp, unit) act logic_list list \<Rightarrow> ('a interp, unit) act" where
  "walk_list cs = for_each cs walk_logic_list"

definition loop_body :: "('s, unit) act \<Rightarrow> ('s, bool) act" where
  \<comment> \<open>the body of a loop within its handlers: false when \<open>break\<close> leaves this loop\<close>
  "loop_body body st = (case body st of
       (Inr _, t) \<Rightarrow> (Inr True, t)
     | (Inl e, t) \<Rightarrow> (case e of
           Continue_exception n \<Rightarrow> (case rethrow_unless_correct_frame e of
               None \<Rightarrow> (Inr True, t) | Some e' \<Rightarrow> (Inl e', t))
         | Break_exception n \<Rightarrow> (case rethrow_unless_correct_frame e of
               None \<Rightarrow> (Inr False, t) | Some e' \<Rightarrow> (Inl e', t))
         | _ \<Rightarrow> (Inl e, t)))"

fun for_loop :: "string \<Rightarrow> string list \<Rightarrow> ('a interp, unit) act \<Rightarrow> ('a interp, unit) act" where
  "for_loop libbash_string [] body = ret ()"
| "for_loop libbash_string (v # vs) body =
     andthen (set_value libbash_string (Str v) 0) (\<lambda>_.
     andthen (loop_body body) (\<lambda>go_on. if go_on then for_loop libbash_string vs body else ret ()))"

fun for_words ::
  "('f, 'p) libraries \<Rightarrow> 'a antlr \<Rightarrow> string_expr list \<Rightarrow> string list \<Rightarrow> ('a interp, string list) act" where
  "for_words L W [] splitted_values = ret splitted_values"
| "for_words L W (e # es) splitted_values =
     andthen (walk_string_expr L W e) (\<lambda>(s, quoted).
     andthen (if quoted then ret (splitted_values @ [s])
              else query (split_word (boost_lib L) s splitted_values)) (for_words L W es))"

definition walk_for ::
  "('f, 'p) libraries \<Rightarrow> 'a antlr \<Rightarrow> string \<Rightarrow> string_expr list \<Rightarrow> ('a interp, unit) act \<Rightarrow>
     ('a interp, unit) act" where
  "walk_for L W libbash_string es body =
     andthen (for_words L W es []) (\<lambda>splitted_values.
       if splitted_values = [] \<and> es \<noteq> [] then modify (set_status 0)
       else if es \<noteq> [] then for_loop libbash_string splitted_values body
       else andthen (query (resolve_array (boost_lib L) ''*'' splitted_values)) (\<lambda>(found, values).
              for_loop libbash_string values body))"

fun cfor_loop ::
  "nat \<Rightarrow> ('a interp, c_long) act option \<Rightarrow> ('a interp, unit) act \<Rightarrow> ('a interp, unit) act \<Rightarrow>
     ('a interp, unit) act" where
  "cfor_loop 0 cond body modification = throw Out_of_fuel"
| "cfor_loop (Suc n) cond body modification =
     andthen (case cond of None \<Rightarrow> ret 1 | Some c \<Rightarrow> c) (\<lambda>v.
       if v = 0 then ret ()
       else andthen (loop_body body) (\<lambda>go_on.
         if go_on then andthen modification (\<lambda>_. cfor_loop n cond body modification) else ret ()))"

fun while_loop ::
  "nat \<Rightarrow> int \<Rightarrow> ('a interp, unit) act \<Rightarrow> ('a interp, unit) act \<Rightarrow> ('a interp, unit) act" where
  \<comment> \<open>\<open>stop\<close> is the status that ends the loop: 1 for \<open>while\<close> and 0 for \<open>until\<close>\<close>
  "while_loop 0 stop cond body = throw Out_of_fuel"
| "while_loop (Suc n) stop cond body =
     andthen cond (\<lambda>_. if_status (\<lambda>s. s = stop) (ret ())
       (andthen (loop_body body) (\<lambda>go_on.
         if go_on then while_loop n stop cond body else ret ())))"

fun walk_if :: "(('a interp, unit) act \<times> ('a interp, unit) act) list \<Rightarrow> ('a interp, unit) act \<Rightarrow>
     ('a interp, unit) act" where
  "walk_if [] els = els"
| "walk_if ((c, b) # branches) els =
     andthen c (\<lambda>_. if_status (\<lambda>n. n = 0) b (walk_if branches els))"

fun walk_case ::
  "('f, 'p) libraries \<Rightarrow> 'a antlr \<Rightarrow> string \<Rightarrow> ('a interp, unit) act case_clause list \<Rightarrow>
     ('a interp, unit) act" where
  "walk_case L W target [] = ret ()"
| "walk_case L W target (Case_clause brs commands # clauses) =
     andthen (composite_pattern L W True brs) (\<lambda>pattern.
       if rx_match (xpressive_lib L) pattern target
       then (case commands of None \<Rightarrow> ret () | Some cs \<Rightarrow> walk_list cs)
       else walk_case L W target clauses)"

fun walk_case_word :: "('f, 'p) libraries \<Rightarrow> 'a antlr \<Rightarrow> case_word \<Rightarrow> ('a interp, string) act" where
  \<comment> \<open>the rule \<open>word\<close>\<close>
  "walk_case_word L W (Number_word num) = ret num"
| "walk_case_word L W (String_word e) = word_text L W e"
| "walk_case_word L W (Ref_word r) = var_ref_rule L W r"
| "walk_case_word L W (Arith_word e) = andthen (walk_arith L W e) (\<lambda>v. ret (show_long (boost_lib L) v))"

section \<open>Commands\<close>

fun walk_atom ::
  "('f, 'p) libraries \<Rightarrow> 'a antlr \<Rightarrow> ('a interp, unit) act command_atom \<Rightarrow> ('a interp, unit) act" where
  "walk_atom L W (Variable_definitions local defs) = for_each defs (walk_var_def L W local)"
| "walk_atom L W (Function name index body) = define_function (whole_text name) index"
| "walk_atom L W (Simple e es defs bang) = walk_simple_command L W e es defs bang"
| "walk_atom L W (Compound c) = c"

primrec walk_command ::
  "nat \<Rightarrow> ('f, 'p) libraries \<Rightarrow> 'a antlr \<Rightarrow> command \<Rightarrow> ('a interp, unit) act" and
  walk_compound ::
  "nat \<Rightarrow> ('f, 'p) libraries \<Rightarrow> 'a antlr \<Rightarrow> compound \<Rightarrow> ('a interp, unit) act" where
  "walk_command n L W (Command redirects atom) = with_streams
     (andthen (for_each redirects (walk_redirect L W)) (\<lambda>_.
        walk_atom L W (map_command_atom (walk_compound n L W) atom)))"
| "walk_compound n L W (Current_shell cs) = walk_list (map (map_logic_list (walk_command n L W)) cs)"
| "walk_compound n L W (Cond_command c) = walk_cond_expr L W c"
| "walk_compound n L W (Arithmetic_command e) = andthen (walk_arith L W e) (\<lambda>_. ret ())"
| "walk_compound n L W (For libbash_string es cs) =
     walk_for L W libbash_string es (walk_list (map (map_logic_list (walk_command n L W)) cs))"
| "walk_compound n L W (Cfor initial cond cs modification) =
     andthen (case initial of None \<Rightarrow> ret 0 | Some e \<Rightarrow> walk_arith L W e) (\<lambda>_.
       cfor_loop n (map_option (walk_arith L W) cond)
         (walk_list (map (map_logic_list (walk_command n L W)) cs))
         (case modification of None \<Rightarrow> ret () | Some e \<Rightarrow> andthen (walk_arith L W e) (\<lambda>_. ret ())))"
| "walk_compound n L W (While cond body) =
     while_loop n 1 (walk_list (map (map_logic_list (walk_command n L W)) cond))
       (walk_list (map (map_logic_list (walk_command n L W)) body))"
| "walk_compound n L W (Until cond body) =
     while_loop n 0 (walk_list (map (map_logic_list (walk_command n L W)) cond))
       (walk_list (map (map_logic_list (walk_command n L W)) body))"
| "walk_compound n L W (If_statement branches els) =
     walk_if (map (map_prod walk_list walk_list)
         (map (map_prod (map (map_logic_list (walk_command n L W)))
            (map (map_logic_list (walk_command n L W)))) branches))
       (case map_option (map (map_logic_list (walk_command n L W))) els of
          None \<Rightarrow> ret () | Some cs \<Rightarrow> walk_list cs)"
| "walk_compound n L W (Case w clauses) =
     andthen (walk_case_word L W w) (\<lambda>target.
       walk_case L W target (map (map_case_clause (walk_command n L W)) clauses))"

definition command_list_rule ::
  "nat \<Rightarrow> ('f, 'p) libraries \<Rightarrow> 'a antlr \<Rightarrow> command_list \<Rightarrow> ('a interp, unit) act" where
  "command_list_rule n L W cs = walk_list (map (map_logic_list (walk_command n L W)) cs)"

end
