(* ===== verification/Walker_Relation.thy ===== *)
theory Walker_Relation
  imports Command_Walker Step_Relation
begin

text \<open>
  The relations and simulations of the locale \<open>step_relation\<close> across the rules of the tree
  walker. A rule that redirects a stream changes it until the command ends, so the locale
  \<open>walker_relation\<close> has a second, weaker relation \<open>Q\<close> that holds inside a command. A rule on a tree
  of actions is related on trees whose actions are (the relators of the datatypes of the trees).
\<close>

locale walker_relation = step_relation R + weak: preorder_relation Q
  for R Q :: "'a interp \<Rightarrow> 'a interp \<Rightarrow> bool" +
  assumes R_Q: "R s t \<Longrightarrow> Q s t"
    and R_new_ostringstream: "obeys R (new_output Ostringstream)"
    and R_new_ofstream: "obeys R (new_output (\<lambda>n. Ofstream n path))"
    and R_new_input: "obeys R (new_input mk content)"
    and Q_output: "Q s (set_output_stream stream s)"
    and Q_input: "Q s (set_input_stream source s)"
    and R_streams: "Q s t \<Longrightarrow> R s (set_input_stream (in_stream s)
          (set_error_stream (err_stream s) (set_output_stream (out_stream s) t)))"
begin

lemma simulates_weak: "simulates R m m' \<Longrightarrow> simulates Q m m'"
  using R_Q by (rule simulates_weaken)

lemma obeys_weak: "obeys R m \<Longrightarrow> simulates Q m m"
  by (intro simulates_weak simulates_same)

lemma weak_set_streams:
  "simulates Q (modify (set_output_stream stream)) (modify (set_output_stream stream))"
  "simulates Q (modify (set_input_stream source)) (modify (set_input_stream source))"
  by (simp_all add: simulates_same weak.obeys_modify Q_output Q_input)

lemma simulates_with_streams [simulates_intros]:
  assumes "simulates Q m m'"
  shows "simulates R (with_streams m) (with_streams m')"
proof (rule simulatesI)
  fix s
  obtain r t where "m s = (r, t)" "Q s t" "r = Inl Out_of_fuel \<or> m' s = (r, t)"
    using assms by (rule simulates_cases)
  then show "R s (snd (with_streams m s))"
    and "fst (with_streams m s) \<noteq> Inl Out_of_fuel \<Longrightarrow> with_streams m' s = with_streams m s"
    by (auto simp: with_streams_def intro: R_streams)
qed

lemma simulates_from_res [simulates_intros]: "simulates R (from_res r) (from_res r)"
  unfolding from_res_def by (intro simulates_intros)

section \<open>Words\<close>

lemma simulates_name:
  "rel_name (simulates R) n n' \<Longrightarrow> simulates R (walk_name n) (walk_name n')"
  by (erule name.rel_cases) (auto intro!: simulates_intros)

lemma simulates_var_name:
  "rel_var_name (simulates R) v v' \<Longrightarrow> simulates R (walk_var_name B v) (walk_var_name B v')"
  by (erule var_name.rel_cases) (auto intro!: simulates_intros simulates_name)

lemma simulates_array_name:
  "rel_array_name (simulates R) a a' \<Longrightarrow> simulates R (walk_array_name a) (walk_array_name a')"
  by (erule array_name.rel_cases) (auto intro!: simulates_intros simulates_name)

lemma simulates_operand_name:
  "rel_operand_name (simulates R) v v' \<Longrightarrow>
     simulates R (walk_operand_name B v) (walk_operand_name B v')"
  by (erule operand_name.rel_cases)
    (auto intro!: simulates_intros simulates_array_name simulates_var_name)

lemma simulates_var_ref:
  "rel_var_ref (simulates R) (simulates R) r r' \<Longrightarrow> simulates R (walk_var_ref B r) (walk_var_ref B r')"
  by (erule var_ref.rel_cases)
    (auto intro!: simulates_intros simulates_array_name simulates_var_name)

lemma simulates_primary:
  "rel_primary (simulates R) (simulates R) p p' \<Longrightarrow> simulates R (walk_primary B p) (walk_primary B p')"
  by (erule primary.rel_cases) (auto intro!: simulates_intros simulates_name simulates_var_ref)

lemma simulates_substitution [simulates_intros]:
  assumes "walkers_simulate W W'"
  shows "simulates R (walk_substitution B W ts) (walk_substitution B W' ts)"
  unfolding walk_substitution_def
  by (intro simulates_intros weak.simulates_andthen weak.simulates_leaves weak_set_streams
      obeys_weak[OF R_new_ostringstream] simulates_weak[OF simulates_from_res]
      simulates_weak[OF simulates_script] assms)

lemma simulates_quoted_part:
  "walkers_simulate W W' \<Longrightarrow> rel_quoted_part (simulates R) (simulates R) p p' \<Longrightarrow>
     simulates R (walk_quoted_part B W p) (walk_quoted_part B W' p')"
  by (erule quoted_part.rel_cases) (auto intro!: simulates_intros simulates_var_ref)

lemma simulates_string_part:
  assumes "walkers_simulate W W'"
  shows "rel_string_part (simulates R) (simulates R) p p' \<Longrightarrow>
     simulates R (walk_string_part B W p) (walk_string_part B W' p')"
proof (erule string_part.rel_cases)
  fix ps ps'
  assume *: "p = Double_quoted ps" "p' = Double_quoted ps'"
    and rel: "list_all2 (rel_quoted_part (simulates R) (simulates R)) ps ps'"
  from rel have "(ps = []) = (ps' = [])" by auto
  moreover from rel have "list_all2 (\<lambda>x y. simulates R (walk_quoted_part B W x) (walk_quoted_part B W' y)) ps ps'"
    by (rule list_all2_mono) (rule simulates_quoted_part[OF assms])
  ultimately show ?thesis by (simp add: *) (intro simulates_intros simulates_map_act)
qed (auto intro!: simulates_intros assms simulates_var_ref split: prod.split)

lemma simulates_class_item:
  "walkers_simulate W W' \<Longrightarrow> rel_class_item (simulates R) (simulates R) c c' \<Longrightarrow>
     simulates R (walk_class_item B W c) (walk_class_item B W' c')"
  by (erule class_item.rel_cases) (auto intro!: simulates_intros simulates_string_part)

lemma simulates_basic_pattern:
  assumes "walkers_simulate W W'"
  shows "rel_basic_pattern (simulates R) (simulates R) b b' \<Longrightarrow>
     simulates R (walk_basic_pattern B X W greedy b) (walk_basic_pattern B X W' greedy b')"
proof (erule basic_pattern.rel_cases)
  fix neg items neg' items'
  assume *: "b = Match_class neg items" "b' = Match_class neg' items'" "neg = neg'"
    and rel: "list_all2 (rel_class_item (simulates R) (simulates R)) items items'"
  from rel have "list_all2 (\<lambda>x y. simulates R (walk_class_item B W x) (walk_class_item B W' y)) items items'"
    by (rule list_all2_mono) (rule simulates_class_item[OF assms])
  then show ?thesis by (simp add: *) (intro simulates_intros simulates_map_act)
qed (auto intro!: simulates_intros simulates_string_part assms)

lemma simulates_branch:
  assumes "walkers_simulate W W'"
  shows "list_all2 (rel_basic_pattern (simulates R) (simulates R)) bs bs' \<Longrightarrow>
     simulates R (walk_branch B X W greedy bs acc) (walk_branch B X W' greedy bs' acc)"
  by (induction arbitrary: acc rule: list_all2_induct)
    (auto intro!: simulates_intros simulates_basic_pattern assms)

lemma simulates_composite_pattern:
  assumes "walkers_simulate W W'"
  shows "list_all2 (list_all2 (rel_basic_pattern (simulates R) (simulates R))) brs brs' \<Longrightarrow>
     simulates R (walk_composite_pattern B X W greedy brs acc)
       (walk_composite_pattern B X W' greedy brs' acc)"
  by (induction arbitrary: acc rule: list_all2_induct)
    (auto intro!: simulates_intros simulates_branch assms)

lemma simulates_check_extglob [simulates_intros]: "simulates R check_extglob check_extglob"
  unfolding check_extglob_def by (intro simulates_intros)

lemma simulates_pattern_item:
  "walkers_simulate W W' \<Longrightarrow> rel_pattern_item (simulates R) (simulates R) i i' \<Longrightarrow>
     simulates R (walk_pattern_item B X W greedy i) (walk_pattern_item B X W' greedy i')"
  by (erule pattern_item.rel_cases)
    (auto intro!: simulates_intros simulates_composite_pattern simulates_basic_pattern)

lemma simulates_bash_pattern:
  assumes "walkers_simulate W W'"
  shows "list_all2 (rel_pattern_item (simulates R) (simulates R)) is is' \<Longrightarrow>
     simulates R (walk_bash_pattern B X W greedy is acc) (walk_bash_pattern B X W' greedy is' acc)"
  by (induction arbitrary: acc rule: list_all2_induct)
    (auto intro!: simulates_intros simulates_pattern_item assms)

section \<open>Arithmetic and expansions\<close>

lemma simulates_long_steps [simulates_intros]:
  "simulates R (store_long target v) (store_long target v)"
  "simulates R (update_long B target f) (update_long B target f)"
proof -
  show store: "simulates R (store_long target v) (store_long target v)" for target v
    unfolding store_long_def by (cases target) (simp, intro simulates_intros)
  show "simulates R (update_long B target f) (update_long B target f)"
    unfolding update_long_def by (intro simulates_intros store)
qed

lemma simulates_value_steps [simulates_intros]:
  assumes "walkers_simulate W W'"
  shows "simulates R (read_value B W target) (read_value B W' target)"
    and "simulates R (walk_step B W op target) (walk_step B W' op target)"
    and "simulates R (walk_raw_string B W ts) (walk_raw_string B W' ts)"
proof -
  show "simulates R (read_value B W target) (read_value B W' target)"
    unfolding read_value_def by (cases target) (simp, intro simulates_intros assms)
  show "simulates R (walk_step B W op target) (walk_step B W' op target)"
    unfolding walk_step_def by (cases op) (auto intro!: simulates_intros assms)
  show "simulates R (walk_raw_string B W ts) (walk_raw_string B W' ts)"
    unfolding walk_raw_string_def by (intro simulates_intros assms)
qed

lemma simulates_assign_expansion [simulates_intros]:
  "simulates R (do_assign_expansion B cond name v i) (do_assign_expansion B cond name v i)"
  unfolding do_assign_expansion_def by (intro simulates_intros)

lemmas rel_maps = name.rel_map var_name.rel_map array_name.rel_map operand_name.rel_map
  var_ref.rel_map primary.rel_map basic_pattern.rel_map pattern_item.rel_map string_item.rel_map
  list.rel_map

lemmas rel_refls = name.rel_refl_strong var_name.rel_refl_strong array_name.rel_refl_strong
  operand_name.rel_refl_strong var_ref.rel_refl_strong primary.rel_refl_strong
  basic_pattern.rel_refl_strong pattern_item.rel_refl_strong string_item.rel_refl_strong
  list.rel_refl_strong

lemma simulates_arith_expansion:
  assumes "walkers_simulate W W'"
  shows "simulates R (walk_arith L W e) (walk_arith L W' e)"
    and "simulates R (walk_expansion L W x) (walk_expansion L W' x)"
proof (induction e and x)
  case (Replace op v items w)
  then show ?case
    by (auto simp: rel_maps intro!: simulates_intros assms simulates_operand_name
        simulates_bash_pattern rel_refls)
next
  case (Parts es)
  then show ?case by (auto simp: rel_maps intro!: simulates_intros simulates_map_act rel_refls)
qed (auto simp: rel_maps intro!: simulates_intros assms simulates_primary simulates_var_name
    simulates_array_name rel_refls)

section \<open>Whole words\<close>

lemma simulates_string_items:
  assumes "walkers_simulate W W'"
  shows "list_all2 (rel_string_item (simulates R) (simulates R) (simulates R)) is is' \<Longrightarrow>
     simulates R (walk_string_items B W is state) (walk_string_items B W' is' state)"
proof (induction arbitrary: state rule: list_all2_induct)
  case Nil
  then show ?case by (auto intro!: simulates_intros)
next
  case (Cons i rest i' rest')
  obtain base quoted raw where state: "state = (base, quoted, raw)" by (cases state) auto
  from Cons.hyps(1) show ?case
  proof cases
    case (Part p p')
    then show ?thesis
      by (auto simp: state intro!: simulates_intros simulates_string_part assms Cons.IH)
  next
    case (Brace es es')
    have "simulates R (map_act id es) (map_act id es')"
      by (rule simulates_map_act) (use Brace in simp)
    with Brace show ?thesis
      by (auto simp: state intro!: simulates_andthen Cons.IH)
  qed
qed

lemma simulates_string_expr [simulates_intros]:
  assumes "walkers_simulate W W'"
  shows "simulates R (walk_string_expr L W e) (walk_string_expr L W' e)"
proof (induction e)
  case (String items)
  have "list_all2 (rel_string_item (simulates R) (simulates R) (simulates R))
      (map (map_string_item (walk_arith L W) (walk_expansion L W) (walk_string_expr L W)) items)
      (map (map_string_item (walk_arith L W') (walk_expansion L W') (walk_string_expr L W')) items)"
    using String by (auto simp: rel_maps intro!: rel_refls simulates_arith_expansion[OF assms])
  from simulates_string_items[OF assms this] show ?case
    by (auto intro!: simulates_andthen simulates_intros)
qed

lemma simulates_words [simulates_intros]:
  assumes "walkers_simulate W W'"
  shows "simulates R (walk_arith L W e) (walk_arith L W' e)"
    and "simulates R (word_text L W w) (word_text L W' w)"
    and "simulates R (bash_pattern L W greedy items) (bash_pattern L W' greedy items)"
    and "simulates R (composite_pattern L W greedy brs) (composite_pattern L W' greedy brs)"
    and "simulates R (var_ref_rule L W r) (var_ref_rule L W' r)"
    and "simulates R (name_rule L W n) (name_rule L W' n)"
  unfolding word_text_def bash_pattern_def composite_pattern_def var_ref_rule_def name_rule_def
  by (auto simp: rel_maps intro!: simulates_intros assms simulates_bash_pattern
      simulates_composite_pattern simulates_var_ref simulates_name rel_refls
      simulates_arith_expansion)

section \<open>Assignments, redirections and conditions\<close>

lemma array_def_helper_ok:
  "array_def_helper L W name items i vals s = (Inr vals', t) \<Longrightarrow> smap_ok vals \<Longrightarrow> smap_ok vals'"
  by (induction L W name items i vals arbitrary: s rule: array_def_helper.induct)
    (auto simp: andthen_def smap_ok_insert split: prod.splits sum.splits)

lemma simulates_array_def_helper [simulates_intros]:
  assumes "walkers_simulate W W'"
  shows "simulates R (array_def_helper L W name items i vals) (array_def_helper L W' name items i vals)"
proof (induction items arbitrary: i vals)
  case Nil
  then show ?case by (auto intro!: simulates_intros)
next
  case (Cons item items)
  then show ?case by (cases item) (auto intro!: simulates_intros assms)
qed

lemma simulates_define_array [simulates_intros]:
  "smap_ok vals \<Longrightarrow> simulates R (modify (define_array name vals ro)) (modify (define_array name vals ro))"
  by (intro simulates_same obeys_intros)

lemma simulates_var_def [simulates_intros]:
  assumes "walkers_simulate W W'"
  shows "simulates R (walk_var_def L W local d) (walk_var_def L W' local d)"
proof (cases d)
  case (Define_array name items)
  have "simulates R (andthen (array_def_helper L W name items 0 []) (\<lambda>vals.
        if local then define_local_array name vals False else modify (define_array name vals False)))
      (andthen (array_def_helper L W' name items 0 []) (\<lambda>vals.
        if local then define_local_array name vals False else modify (define_array name vals False)))"
    by (rule simulates_andthen_post)
      (auto intro!: simulates_intros assms dest: array_def_helper_ok)
  with Define_array show ?thesis by simp
qed (auto intro!: simulates_intros assms)

lemma weak_complain: "simulates Q (complain message) (complain message)"
  unfolding complain_def by (intro simulates_weak simulates_intros)

lemma weak_redirect:
  assumes "walkers_simulate W W'"
  shows "simulates Q (walk_redirect L W r) (walk_redirect L W' r)"
proof -
  note rules = weak.simulates_andthen weak_set_streams weak_complain
    obeys_weak[OF R_new_ofstream] obeys_weak[OF R_new_input] simulates_weak[OF simulates_words(2)[OF assms]]
  have out: "simulates Q (redirect_destination_output L W d) (redirect_destination_output L W' d)" for d
    by (cases d) (auto intro!: rules)
  have inp: "simulates Q (redirect_destination_input L W d) (redirect_destination_input L W' d)" for d
    by (cases d) (auto simp: same_files[OF assms] intro!: rules)
  show ?thesis by (cases r) (auto intro!: rules out inp)
qed

lemma simulates_conditions [simulates_intros]:
  assumes "walkers_simulate W W'"
  shows "simulates R (walk_common_condition L W c) (walk_common_condition L W' c)"
    and "simulates R (walk_keyword_condition L W k) (walk_keyword_condition L W' k)"
    and "simulates R (walk_builtin_condition L W b) (walk_builtin_condition L W' b)"
    and "simulates R (walk_cond_expr L W x) (walk_cond_expr L W' x)"
proof -
  have both: "simulates R (both_words L W l r f) (both_words L W' l r f')"
    if "\<And>x y. simulates R (f x y) (f' x y)"
    for l r and f f' :: "string \<Rightarrow> string \<Rightarrow> ('a interp, bool) act"
    unfolding both_words_def by (intro simulates_intros that assms)
  have pat: "simulates R (matches_pattern L W l items) (matches_pattern L W' l items)" for l items
    unfolding matches_pattern_def by (intro simulates_intros assms)
  show common_c: "simulates R (walk_common_condition L W c) (walk_common_condition L W' c)" for c
    by (cases c) (auto intro!: simulates_intros assms both pat)
  show keyword_c: "simulates R (walk_keyword_condition L W k) (walk_keyword_condition L W' k)" for k
    by (induction k) (auto intro!: simulates_intros assms both common_c)
  show builtin_c: "simulates R (walk_builtin_condition L W b) (walk_builtin_condition L W' b)" for b
    by (induction b) (auto intro!: simulates_intros assms both common_c)
  show "simulates R (walk_cond_expr L W x) (walk_cond_expr L W' x)"
    by (cases x) (auto intro!: simulates_intros keyword_c builtin_c)
qed

section \<open>Simple commands\<close>

lemma simulates_walk_arguments [simulates_intros]:
  assumes "walkers_simulate W W'"
  shows "simulates R (walk_arguments L W split es args) (walk_arguments L W' split es args)"
  by (induction es arbitrary: args) (auto simp: walk_argument_def intro!: simulates_intros assms)

lemma simulates_run_command [simulates_intros]:
  assumes "walkers_simulate W W'"
  shows "simulates R (run_command L W name args) (run_command L W' name args)"
proof -
  have "simulates R (catch_return (call (walker_compound_command W) name args))
      (catch_return (call (walker_compound_command W') name args))"
    and "simulates R
      (andthen (execute_builtin (boost_lib L) W (format_lib L) (eclassdir L) name args None None None)
        (\<lambda>r. modify (set_status r)))
      (andthen (execute_builtin (boost_lib L) W' (format_lib L) (eclassdir L) name args None None None)
        (\<lambda>r. modify (set_status r)))"
    by (intro simulates_intros assms)+
  then show ?thesis by (simp add: run_command_def simulates_def R_set_status)
qed

lemma simulates_simple_command [simulates_intros]:
  assumes "walkers_simulate W W'"
  shows "simulates R (walk_simple_command L W e es defs bang) (walk_simple_command L W' e es defs bang)"
proof -
  have "simulates R (execute_command L W name args defs bang) (execute_command L W' name args defs bang)"
    for name args
    unfolding execute_command_def Let_def
    by (intro simulates_intros assms simulates_same obeys_modify R_set_status)
  then show ?thesis
    unfolding walk_simple_command_def by (intro simulates_intros assms)
qed

section \<open>Control structures\<close>

lemma simulates_if_status [simulates_intros]:
  "simulates R m m' \<Longrightarrow> simulates R n n' \<Longrightarrow> simulates R (if_status P m n) (if_status P m' n')"
  by (simp add: simulates_def if_status_def)

lemma simulates_logic_list:
  "rel_logic_list (simulates R) l l' \<Longrightarrow> simulates R (walk_logic_list l) (walk_logic_list l')"
  by (induction rule: logic_list.rel_induct) (auto intro!: simulates_intros)

lemma simulates_list:
  "list_all2 (rel_logic_list (simulates R)) cs cs' \<Longrightarrow> simulates R (walk_list cs) (walk_list cs')"
  unfolding walk_list_def
  by (induction rule: list_all2_induct) (auto intro!: simulates_intros simulates_logic_list)

lemma simulates_loop_body [simulates_intros]:
  assumes "simulates R m m'"
  shows "simulates R (loop_body m) (loop_body m')"
proof (rule simulatesI)
  fix s
  obtain r t where "m s = (r, t)" "R s t" "r = Inl Out_of_fuel \<or> m' s = (r, t)"
    using assms by (rule simulates_cases)
  then show "R s (snd (loop_body m s))"
    and "fst (loop_body m s) \<noteq> Inl Out_of_fuel \<Longrightarrow> loop_body m' s = loop_body m s"
    by (auto simp: loop_body_def split: sum.split exn.split option.split)
qed

lemma simulates_loops [simulates_intros]:
  assumes "simulates R body body'"
  shows "simulates R (for_loop x vs body) (for_loop x vs body')"
    and "n \<le> n' \<Longrightarrow> simulates R modification modification' \<Longrightarrow> rel_option (simulates R) cond cond' \<Longrightarrow>
           simulates R (cfor_loop n cond body modification) (cfor_loop n' cond' body' modification')"
    and "n \<le> n' \<Longrightarrow> simulates R test test' \<Longrightarrow>
           simulates R (while_loop n stop test body) (while_loop n' stop test' body')"
proof -
  have fuel: "simulates R (throw Out_of_fuel) m" for m :: "('a interp, unit) act"
    by (simp add: simulates_def R_refl)
  show "simulates R (for_loop x vs body) (for_loop x vs body')"
    by (induction vs) (auto intro!: simulates_intros assms)
  show "simulates R (cfor_loop n cond body modification) (cfor_loop n' cond' body' modification')"
    if "n \<le> n'" "simulates R modification modification'" "rel_option (simulates R) cond cond'"
    using that(1)
  proof (induction n arbitrary: n')
    case (Suc n)
    then obtain k where "n' = Suc k" "n \<le> k" by (cases n') auto
    with Suc.IH[of k] that(2,3) show ?case
      by (cases cond; cases cond') (auto intro!: simulates_intros assms)
  qed (simp add: fuel)
  show "simulates R (while_loop n stop test body) (while_loop n' stop test' body')"
    if "n \<le> n'" "simulates R test test'"
    using that(1)
  proof (induction n arbitrary: n')
    case (Suc n)
    then obtain k where "n' = Suc k" "n \<le> k" by (cases n') auto
    with Suc.IH[of k] that(2) show ?case by (auto intro!: simulates_intros assms)
  qed (simp add: fuel)
qed

lemma simulates_for [simulates_intros]:
  assumes "walkers_simulate W W'" "simulates R body body'"
  shows "simulates R (walk_for L W x es body) (walk_for L W' x es body')"
proof -
  have "simulates R (for_words L W ws vs) (for_words L W' ws vs)" for ws vs
    by (induction ws arbitrary: vs) (auto intro!: simulates_intros assms)
  then show ?thesis unfolding walk_for_def
    by (intro simulates_intros assms simulates_same[OF obeys_modify[OF R_set_status]])
qed

lemma simulates_walk_if:
  "list_all2 (rel_prod (simulates R) (simulates R)) branches branches' \<Longrightarrow> simulates R els els' \<Longrightarrow>
     simulates R (walk_if branches els) (walk_if branches' els')"
  by (induction rule: list_all2_induct) (auto intro!: simulates_intros)

lemma simulates_case:
  assumes "walkers_simulate W W'"
  shows "list_all2 (rel_case_clause (simulates R)) clauses clauses' \<Longrightarrow>
     simulates R (walk_case L W target clauses) (walk_case L W' target clauses')"
proof (induction rule: list_all2_induct)
  case (Cons cl clauses cl' clauses')
  from Cons.hyps(1) show ?case
    by (cases, auto elim!: option.rel_cases intro!: simulates_intros assms Cons.IH simulates_list)
qed (auto intro!: simulates_intros)

lemma simulates_case_word [simulates_intros]:
  "walkers_simulate W W' \<Longrightarrow> simulates R (walk_case_word L W w) (walk_case_word L W' w)"
  by (cases w) (auto intro!: simulates_intros)

section \<open>Commands\<close>

lemma simulates_atom:
  assumes "walkers_simulate W W'"
  shows "rel_command_atom (simulates R) a a' \<Longrightarrow> simulates R (walk_atom L W a) (walk_atom L W' a')"
  by (erule command_atom.rel_cases) (auto intro!: simulates_intros assms)

lemmas command_rels = logic_list.rel_map command_atom.rel_map case_clause.rel_map list.rel_map
  option.rel_map prod.rel_map

lemmas command_refls = logic_list.rel_refl_strong command_atom.rel_refl_strong
  case_clause.rel_refl_strong list.rel_refl_strong option.rel_refl_strong

lemma simulates_walk_command:
  assumes "walkers_simulate W W'" "n \<le> n'"
  shows "simulates R (walk_command n L W c) (walk_command n' L W' c)"
    and "simulates R (walk_compound n L W k) (walk_compound n' L W' k)"
proof (induction c and k)
  case (Command rs atom)
  have "simulates R (walk_atom L W (map_command_atom (walk_compound n L W) atom))
      (walk_atom L W' (map_command_atom (walk_compound n' L W') atom))"
    using Command by (auto simp: command_rels intro!: simulates_atom assms command_refls)
  then show ?case
    by (auto intro!: simulates_with_streams weak.simulates_andthen weak.simulates_for_each
        weak_redirect assms intro: simulates_weak)
next
  case (If_statement branches els)
  have "list_all2 (rel_prod (simulates R) (simulates R))
     (map (map_prod walk_list walk_list) (map (map_prod (map (map_logic_list (walk_command n L W)))
        (map (map_logic_list (walk_command n L W)))) branches))
     (map (map_prod walk_list walk_list) (map (map_prod (map (map_logic_list (walk_command n' L W')))
        (map (map_logic_list (walk_command n' L W')))) branches))"
    using If_statement
    by (fastforce simp: command_rels rel_prod_sel intro!: simulates_list command_refls)
  moreover have "simulates R
      (case map_option (map (map_logic_list (walk_command n L W))) els of
         None \<Rightarrow> ret () | Some cs \<Rightarrow> walk_list cs)
      (case map_option (map (map_logic_list (walk_command n' L W'))) els of
         None \<Rightarrow> ret () | Some cs \<Rightarrow> walk_list cs)"
    using If_statement
    by (cases els) (auto simp: command_rels intro!: simulates_intros simulates_list command_refls)
  ultimately show ?case by (auto intro!: simulates_walk_if)
qed (auto simp: command_rels intro!: simulates_intros assms simulates_list simulates_case
    command_refls)

lemma simulates_command_list [simulates_intros]:
  "walkers_simulate W W' \<Longrightarrow> n \<le> n' \<Longrightarrow> simulates R (command_list_rule n L W cs) (command_list_rule n' L W' cs)"
  unfolding command_list_rule_def
  by (auto simp: command_rels intro!: simulates_list command_refls simulates_walk_command)

end

end
