(* ===== verification/Walker.thy ===== *)
theory Walker
  imports Walker_Relation
begin

text \<open>
  The tree walker as a whole: the rules of bashast/libbashWalker.g that src/core/bash_ast.cpp
  starts, closed over the scripts they run in turn (function bodies, command substitutions, \<open>eval\<close>,
  \<open>source\<close>, values taken as arithmetic). \<open>walker L P files n\<close> nests such scripts at most \<open>n\<close> deep and
  runs a \<open>while\<close>, \<open>until\<close> or arithmetic \<open>for\<close> loop at the k-th level for fewer than \<open>k\<close> rounds; beyond
  that it gives \<open>Out_of_fuel\<close>. The parser \<open>P\<close> and the content of the \<open>files\<close> are parameters.
\<close>

section \<open>The rules\<close>

definition another_rule :: exn where
  \<comment> \<open>a tree that the rule does not accept; what ANTLR's recovery does with it is not modelled\<close>
  "another_rule = Undefined_behaviour ''a tree of another rule''"

definition walk_start ::
  "nat \<Rightarrow> ('f, 'p) libraries \<Rightarrow> 'a antlr \<Rightarrow> ast \<Rightarrow> ('a interp, unit) act" where
  "walk_start n L W ast = (case ast of Script cs \<Rightarrow> command_list_rule n L W cs | _ \<Rightarrow> throw another_rule)"

definition call_function ::
  "nat \<Rightarrow> ('f, 'p) libraries \<Rightarrow> 'a antlr \<Rightarrow> ast \<Rightarrow> nat \<Rightarrow> ('a interp, unit) act" where
  \<comment> \<open>the rule \<open>compound_command\<close> at the index in the node stream\<close>
  "call_function n L W ast index = (case map_of (ast_bodies ast) index of
       Some c \<Rightarrow> walk_compound n L W c
     | None \<Rightarrow> throw another_rule)"

definition walker_step ::
  "nat \<Rightarrow> ('f, 'p) libraries \<Rightarrow> ast antlr \<Rightarrow> ast antlr" where
  \<comment> \<open>the rules, where \<open>W\<close> runs the scripts within the script\<close>
  "walker_step n L W = \<lparr>
     antlr_parse = antlr_parse W,
     walker_start = walk_start n L W,
     walker_arithmetics = (\<lambda>ast. case ast of
         Arithmetic_tree e \<Rightarrow> walk_arith L W e | _ \<Rightarrow> throw another_rule),
     walker_string_expr = (\<lambda>ast. case ast of
         Expansion_tree e \<Rightarrow> word_text L W e | _ \<Rightarrow> throw another_rule),
     walker_compound_command = call_function n L W,
     file_text = file_text W\<rparr>"

primrec walker ::
  "('f, 'p) libraries \<Rightarrow> (parser_rule \<Rightarrow> string \<Rightarrow> (ast \<times> nat) res) \<Rightarrow> (string \<Rightarrow> string option) \<Rightarrow>
     nat \<Rightarrow> ast antlr" where
  "walker L P files 0 = \<lparr>
     antlr_parse = P,
     walker_start = (\<lambda>ast. throw Out_of_fuel),
     walker_arithmetics = (\<lambda>ast. throw Out_of_fuel),
     walker_string_expr = (\<lambda>ast. throw Out_of_fuel),
     walker_compound_command = (\<lambda>ast index. throw Out_of_fuel),
     file_text = files\<rparr>"
| "walker L P files (Suc n) = walker_step n L (walker L P files n)"

section \<open>Every rule, whatever the fuel\<close>

locale script_relation = walker_relation R Q
  for R Q :: "ast interp \<Rightarrow> ast interp \<Rightarrow> bool"
begin

lemma walkers_simulateI:
  assumes "antlr_parse W' = antlr_parse W" "file_text W' = file_text W"
    and "\<And>ast. simulates R (walker_start W ast) (walker_start W' ast)"
    and "\<And>ast. simulates R (walker_arithmetics W ast) (walker_arithmetics W' ast)"
    and "\<And>ast. simulates R (walker_string_expr W ast) (walker_string_expr W' ast)"
    and "\<And>ast i. simulates R (walker_compound_command W ast i) (walker_compound_command W' ast i)"
  shows "walkers_simulate W W'"
  using assms by (simp add: walkers_simulate_def)

lemma simulates_walker_step:
  assumes W: "walkers_simulate W W'" and n: "n \<le> n'"
  shows "walkers_simulate (walker_step n L W) (walker_step n' L W')"
proof (rule walkers_simulateI)
  show "antlr_parse (walker_step n' L W') = antlr_parse (walker_step n L W)"
    using W by (simp add: walker_step_def walkers_simulate_def)
qed (auto simp: walker_step_def walk_start_def call_function_def same_files[OF W]
    intro!: simulates_intros simulates_walk_command W n split: ast.split)

lemma out_of_fuel: "simulates R (throw Out_of_fuel) m"
  by (simp add: simulates_def R_refl)

lemma antlr_parse_walker [simp]: "antlr_parse (walker L P files n) = P"
  by (induction n) (simp_all add: walker_step_def)

lemma file_text_walker [simp]: "file_text (walker L P files n) = files"
  by (induction n) (simp_all add: walker_step_def)

lemma walker_simulates:
  "n \<le> n' \<Longrightarrow> walkers_simulate (walker L P files n) (walker L P files n')"
proof (induction n arbitrary: n')
  case 0
  show ?case by (rule walkers_simulateI) (simp_all add: out_of_fuel del: antlr_parse_walker, simp_all)
next
  case (Suc n)
  then obtain k where "n' = Suc k" "n \<le> k" by (cases n') auto
  with Suc.IH[of k] show ?case by (simp add: simulates_walker_step)
qed

end

section \<open>The invariant and the balance of the walker\<close>

interpretation kept: script_relation "\<lambda>s t. interp_ok s \<longrightarrow> interp_ok t" "\<lambda>s t. interp_ok s \<longrightarrow> interp_ok t"
proof
  show "obeys (\<lambda>s t. interp_ok s \<longrightarrow> interp_ok t) (new_output mk :: (ast interp, ostream) act)" for mk
    by (simp add: obeys_def new_output_def Let_def interp_ok_def)
  then show "obeys (\<lambda>s t. interp_ok s \<longrightarrow> interp_ok t)
      (new_output (\<lambda>n. Ofstream n path) :: (ast interp, ostream) act)" for path .
  show "obeys (\<lambda>s t. interp_ok s \<longrightarrow> interp_ok t) (new_input mk content :: (ast interp, istream) act)"
    for mk content
    by (simp add: obeys_def new_input_def Let_def interp_ok_def)
qed (auto simp: interp_ok_streams)

interpretation balanced: script_relation "\<lambda>s t. frame s = frame t" "\<lambda>s t. snd (frame s) = snd (frame t)"
proof
  show "obeys (\<lambda>s t. frame s = frame t) (new_output mk :: (ast interp, ostream) act)" for mk
    by (simp add: obeys_def new_output_def Let_def frame_def)
  then show "obeys (\<lambda>s t. frame s = frame t)
      (new_output (\<lambda>n. Ofstream n path) :: (ast interp, ostream) act)" for path .
  show "obeys (\<lambda>s t. frame s = frame t) (new_input mk content :: (ast interp, istream) act)"
    for mk content
    by (simp add: obeys_def new_input_def Let_def frame_def)
qed (auto simp: frame_def stream_defs)

end
