(* ===== verification/Walker_Reference.thy ===== *)
theory Walker_Reference
  imports Walker Antlr_Reference
begin

text \<open>
  A concrete instance of the libraries and of the parser. It is no part of the model: the properties
  of the tree walker that take them as parameters are witnessed at it. A pattern is the set of the
  strings it matches, as a test.
\<close>

section \<open>Patterns\<close>

definition split_match :: "(string \<Rightarrow> bool) \<Rightarrow> (string \<Rightarrow> bool) \<Rightarrow> string \<Rightarrow> bool" where
  "split_match p q s \<longleftrightarrow> list_ex (\<lambda>i. p (take i s) \<and> q (drop i s)) [0 ..< Suc (length s)]"

primrec repeat_match :: "nat \<Rightarrow> (string \<Rightarrow> bool) \<Rightarrow> string \<Rightarrow> bool" where
  "repeat_match 0 p s \<longleftrightarrow> s = []"
| "repeat_match (Suc n) p s \<longleftrightarrow> s = [] \<or> split_match p (repeat_match n p) s"

definition regex_ref :: "(string \<Rightarrow> bool) xpressive" where
  "regex_ref = \<lparr>
     rx_literal = (\<lambda>w s. s = w), rx_any = (\<lambda>s. length s = 1), rx_default = (\<lambda>s. False),
     rx_seq = split_match, rx_alt = (\<lambda>p q s. p s \<or> q s),
     rx_optional = (\<lambda>greedy p s. s = [] \<or> p s),
     rx_star = (\<lambda>greedy p s. repeat_match (length s) p s),
     rx_plus = (\<lambda>greedy p. split_match p (\<lambda>s. repeat_match (length s) p s)),
     rx_bos = (\<lambda>s. s = []), rx_eos = (\<lambda>s. s = []), rx_mark = id,
     rx_compile = (\<lambda>s. None), rx_match = (\<lambda>p. p), rx_capture = (\<lambda>p s. None),
     rx_replace_all = (\<lambda>p w s. if p s then w else s),
     rx_replace_first = (\<lambda>p w s. if p s then w else s)\<rparr>"

lemma split_match_iff: "split_match p q s \<longleftrightarrow> (\<exists>u v. s = u @ v \<and> p u \<and> q v)"
proof
  assume "split_match p q s"
  then have "\<exists>i. p (take i s) \<and> q (drop i s)" unfolding split_match_def list_ex_iff by blast
  then show "\<exists>u v. s = u @ v \<and> p u \<and> q v" by (metis append_take_drop_id)
next
  assume "\<exists>u v. s = u @ v \<and> p u \<and> q v"
  then obtain u v where s: "s = u @ v" "p u" "q v" by blast
  then have "p (take (length u) s) \<and> q (drop (length u) s)" "length u < Suc (length s)" by simp_all
  then show "split_match p q s" unfolding split_match_def list_ex_iff by (intro bexI[of _ "length u"]) auto
qed

lemma kleene_shorter:
  "s \<in> kleene A \<Longrightarrow> s = [] \<or> (\<exists>u v. s = u @ v \<and> u \<noteq> [] \<and> u \<in> A \<and> v \<in> kleene A)"
proof (induction rule: kleene.induct)
  case (kleene_more u v)
  then show ?case by (cases "u = []") auto
qed simp

lemma kleene_repeat: "s \<in> kleene {s. p s} \<Longrightarrow> length s \<le> n \<Longrightarrow> repeat_match n p s"
proof (induction n arbitrary: s)
  case (Suc n)
  show ?case
  proof (cases "s = []")
    case False
    with kleene_shorter[OF Suc.prems(1)] obtain u v
      where s: "s = u @ v" "u \<noteq> []" "p u" "v \<in> kleene {s. p s}" by auto
    moreover have "length v \<le> n" using s Suc.prems(2) by (cases u) auto
    ultimately show ?thesis using Suc.IH[of v] by (auto simp: split_match_iff)
  qed simp
qed simp

lemma repeat_kleene: "repeat_match n p s \<Longrightarrow> s \<in> kleene {s. p s}"
  by (induction n arbitrary: s) (auto simp: split_match_iff intro: kleene.intros)

lemma repeat_match_iff: "repeat_match (length s) p s \<longleftrightarrow> s \<in> kleene {s. p s}"
  using kleene_repeat repeat_kleene by blast

lemma regex_ref_documented: "regex_documented regex_ref (\<lambda>p. {s. p s})"
proof -
  have "{s :: string. length s = 1} = {[c] |c. True}" by (auto simp: length_Suc_conv)
  then show ?thesis
    by (auto simp: regex_documented_def regex_ref_def repeat_match_iff split_match_iff concat_langs_def)
qed

section \<open>Libraries and parser\<close>

definition libraries_ref :: "(string, string \<Rightarrow> bool) libraries" where
  "libraries_ref = \<lparr>
     boost_lib = boost_ref, xpressive_lib = regex_ref,
     format_lib = \<lparr>format_parse = Some, format_feed = (\<lambda>f a. Fed f), format_str = id\<rparr>,
     system_lib = example_system, eclassdir = None,
     to_int32 = (\<lambda>s. case s of [c] \<Rightarrow> of_char c - 48 | _ \<Rightarrow> 0)\<rparr>"

definition text_word :: "string \<Rightarrow> string_expr" where
  "text_word s = String [Part (Text_part (Token s))]"

definition assign_command :: "string \<Rightarrow> string \<Rightarrow> command" where
  \<comment> \<open>\<open>name=text\<close>\<close>
  "assign_command name s =
     Command [] (Variable_definitions False [Define (Plain_name name) (Some (text_word s))])"

definition parse_ref :: "parser_rule \<Rightarrow> string \<Rightarrow> (ast \<times> nat) res" where
  \<comment> \<open>a script assigns its text to \<open>ran\<close>, arithmetic is one digit, a word is its own text\<close>
  "parse_ref rule s = Inr (case rule of
       Parser_arithmetics \<Rightarrow> Arithmetic_tree (Number s)
     | Parser_all_expansions \<Rightarrow> Expansion_tree (text_word s)
     | _ \<Rightarrow> Script [Single (assign_command ''ran'' s)], 0)"

definition walker_ref :: "nat \<Rightarrow> ast antlr" where
  "walker_ref = walker libraries_ref parse_ref (\<lambda>path. None)"

lemma join_one: "join_with boost_ref [w] d = w"
  using boost_ref_join by (simp add: join_documented_def)

lemma boost_lib_ref [simp]: "boost_lib libraries_ref = boost_ref" "xpressive_lib libraries_ref = regex_ref"
  by (simp_all add: libraries_ref_def)

lemma text_word_value [simp]: "word_text libraries_ref W (text_word w) = ret w"
  by (simp add: fun_eq_iff word_text_def text_word_def joined_word_def join_one whole_text_def
      andthen_def from_res_def)

lemma restore_streams:
  "out_stream t = out_stream s \<Longrightarrow> err_stream t = err_stream s \<Longrightarrow> in_stream t = in_stream s \<Longrightarrow>
     set_input_stream (in_stream s) (set_error_stream (err_stream s) (set_output_stream (out_stream s) t)) = t"
  by (simp add: stream_defs)

lemma run_assign:
  assumes "resolve_variable st x = None"
  shows "walker_start (walker_ref (Suc n)) (Script [Single (assign_command x v)]) st =
     (Inr (), define_var x (Str v) False 0 st)"
  using assms
  by (simp add: walker_ref_def walker_step_def walk_start_def command_list_rule_def walk_list_def
      assign_command_def with_streams_def name_rule_def andthen_def set_value_def restore_streams)
    (simp add: stream_defs define_var_def)

end
