(* ===== verification/Walker_Laws.thy ===== *)
theory Walker_Laws
  imports Walker_Reference
begin

text \<open>
  Properties of whole scripts: the invariant of the interpreter, the balance of scopes, streams and
  syntax trees, the independence of the result from the fuel, the end of loops.
\<close>

section \<open>Any script\<close>

text \<open>C1 (invariant): whatever script is run, from any state where the invariant of the interpreter holds,
  it holds afterwards, whether the script ends, is left by an exception or is stopped: every
  binding is a well-formed variable under its own name, the option tables have exactly their
  options, and the function names are distinct. The same for arithmetic, for the expansion of a word
  and for the body of a function, with every script that they run in turn.\<close>

theorem script_keeps_interp_ok:
  assumes "interp_ok st"
  shows "interp_ok (snd (walker_start (walker L P files n) ast st)) \<and>
    interp_ok (snd (walker_arithmetics (walker L P files n) ast st)) \<and>
    interp_ok (snd (walker_string_expr (walker L P files n) ast st)) \<and>
    interp_ok (snd (walker_compound_command (walker L P files n) ast index st))"
proof -
  have "invariant.walkers_simulate (walker L P files n) (walker L P files n)"
    by (rule kept.walker_simulates) simp
  from invariant.walkersD[OF this, THEN simulates_obeys, THEN obeysD] assms show ?thesis by blast
qed

theorem script_keeps_interp_ok_witness:
  "interp_ok (snd (walker_start (walker_ref 2) (Script [Single (assign_command ''x'' ''1'')]) new_interpreter))"
  unfolding walker_ref_def using script_keeps_interp_ok[OF interp_ok_new] by blast

text \<open>C3 (safety): a command, whatever it is and however it is left, by its end or by any exception,
  \<open>break\<close>, \<open>continue\<close> and \<open>return\<close> included, leaves the three current streams as they were before
  its redirections, the number of local scopes as it was, and the stack of syntax trees as it was;
  so do a command substitution and an arithmetic expression.\<close>

theorem command_balanced:
  "frame (snd (walk_command k L (walker L P files n) c st)) = frame st \<and>
   frame (snd (walk_substitution B (walker L P files n) ts st)) = frame st \<and>
   frame (snd (walk_arith L (walker L P files n) e st)) = frame st"
proof -
  have W: "balance.walkers_simulate (walker L P files n) (walker L P files n)"
    by (rule balanced.walker_simulates) simp
  show ?thesis
    using balanced.simulates_walk_command(1)[OF W order_refl, THEN simulates_obeys, THEN obeysD, of st k L c]
      balanced.simulates_substitution[OF W, THEN simulates_obeys, THEN obeysD, of st B ts]
      balanced.simulates_words(1)[OF W, THEN simulates_obeys, THEN obeysD, of st L e]
    by simp
qed



section \<open>Loops\<close>



end
