(* ===== verification/Arithmetic_Laws.thy ===== *)
theory Arithmetic_Laws
  imports Walker_Reference Scoping
begin

text \<open>
  Shell arithmetic against the integers: expressions of literals are calculated exactly or are
  undefined behaviour in C++; assignments and increments store the exact value; the bounds of
  an array subscript.
\<close>

section \<open>The abstract calculator\<close>

text \<open>Expressions of literals, with their values as unbounded integers. A value outside the range
  of \<open>long\<close> at any node is an error of the whole expression.\<close>

datatype calc =
    Literal string
  | Group calc      \<comment> \<open>in parentheses\<close>
  | Paren calc      \<comment> \<open>in \<open>$(( ))\<close>\<close>
  | Sequence calc calc
  | Apply_unary unop calc
  | Apply_binary binop calc calc
  | Or_calc calc calc
  | And_calc calc calc
  | If_calc calc calc calc

definition in_range :: "int \<Rightarrow> int option" where
  "in_range n = (if fits_long n then Some n else None)"

definition exact_binop :: "binop \<Rightarrow> int \<Rightarrow> int \<Rightarrow> int option" where
  \<comment> \<open>C++ defines a remainder only where the quotient is representable\<close>
  "exact_binop op l r = Option.bind (int_binop op l r) (\<lambda>n.
     if op = Pct \<and> \<not> fits_long (l sdiv r) then None else in_range n)"

primrec calc_value :: "(string \<Rightarrow> int) \<Rightarrow> calc \<Rightarrow> int option" where
  "calc_value num (Literal s) = in_range (num s)"
| "calc_value num (Group c) = calc_value num c"
| "calc_value num (Paren c) = calc_value num c"
| "calc_value num (Sequence c d) = Option.bind (calc_value num c) (\<lambda>_. calc_value num d)"
| "calc_value num (Apply_unary op c) = Option.bind (calc_value num c) (\<lambda>n. in_range (int_unop op n))"
| "calc_value num (Apply_binary op c d) = Option.bind (calc_value num c) (\<lambda>l.
     Option.bind (calc_value num d) (exact_binop op l))"
| "calc_value num (Or_calc c d) = Option.bind (calc_value num c) (\<lambda>l.
     if l \<noteq> 0 then Some 1 else map_option (\<lambda>r. int_truth (r \<noteq> 0)) (calc_value num d))"
| "calc_value num (And_calc c d) = Option.bind (calc_value num c) (\<lambda>l.
     if l = 0 then Some 0 else map_option (\<lambda>r. int_truth (r \<noteq> 0)) (calc_value num d))"
| "calc_value num (If_calc c d e) = Option.bind (calc_value num c) (\<lambda>l.
     Option.bind (calc_value num d) (\<lambda>m. map_option (\<lambda>n. if l \<noteq> 0 then m else n) (calc_value num e)))"

primrec tree_of :: "calc \<Rightarrow> arith" where
  "tree_of (Literal s) = Number s"
| "tree_of (Group c) = Parts [tree_of c]"
| "tree_of (Paren c) = Arithmetic_expression (tree_of c)"
| "tree_of (Sequence c d) = Parts [tree_of c, tree_of d]"
| "tree_of (Apply_unary op c) = Unary op (tree_of c)"
| "tree_of (Apply_binary op c d) = Binary op (tree_of c) (tree_of d)"
| "tree_of (Or_calc c d) = Logic_or (tree_of c) (tree_of d)"
| "tree_of (And_calc c d) = Logic_and (tree_of c) (tree_of d)"
| "tree_of (If_calc c d e) = Conditional (tree_of c) (tree_of d) (tree_of e)"

definition literal :: "('f, 'p) libraries \<Rightarrow> string \<Rightarrow> int" where
  "literal L s = sint (to_int32 L s)"

section \<open>The machine calculates the abstract value\<close>

lemma binop_cases:
  "(\<exists>n. exact_binop op (sint l) (sint r) = Some n \<and> fits_long n \<and> apply_binop op l r = Inr (word_of_int n)) \<or>
   (exact_binop op (sint l) (sint r) = None \<and> (\<exists>why. apply_binop op l r = Inl (Undefined_behaviour why)))"
proof (cases "apply_binop op l r")
  case (Inl e)
  have "exact_binop op (sint l) (sint r) \<noteq> Some n" for n
  proof
    assume "exact_binop op (sint l) (sint r) = Some n"
    then have "int_binop op (sint l) (sint r) = Some (sint (word_of_int n :: c_long))"
      "op = Pct \<longrightarrow> fits_long (sint l sdiv sint r)"
      by (auto simp: exact_binop_def in_range_def sint_of_fits split: bind_splits if_splits)
    then have "apply_binop op l r = Inr (word_of_int n)" by (simp add: binop_exact)
    with Inl show False by simp
  qed
  with Inl binop_error[OF Inl] show ?thesis by auto
next
  case (Inr v)
  then have "int_binop op (sint l) (sint r) = Some (sint v)" "op = Pct \<longrightarrow> fits_long (sint l sdiv sint r)"
    by (simp_all add: binop_exact)
  with Inr show ?thesis by (auto simp: exact_binop_def in_range_def fits_sint)
qed

lemma unop_cases:
  "(\<exists>n. in_range (int_unop op (sint l)) = Some n \<and> fits_long n \<and> apply_unop op l = Inr (word_of_int n)) \<or>
   (in_range (int_unop op (sint l)) = None \<and> (\<exists>why. apply_unop op l = Inl (Undefined_behaviour why)))"
proof (cases "apply_unop op l")
  case (Inl e)
  have "\<not> fits_long (int_unop op (sint l))"
  proof
    assume "fits_long (int_unop op (sint l))"
    then have "apply_unop op l = Inr (word_of_int (int_unop op (sint l)))"
      by (simp add: unop_exact sint_of_fits)
    with Inl show False by simp
  qed
  with Inl unop_error[OF Inl] show ?thesis by (simp add: in_range_def)
next
  case (Inr v)
  then have "int_unop op (sint l) = sint v" by (simp add: unop_exact)
  with Inr fits_sint[of v] show ?thesis by (simp add: in_range_def)
qed

lemma fits_literal: "fits_long (sint (w :: 32 word))"
  using sint_greater_eq[of w] sint_less[of w] by (simp add: fits_long_def)

definition calculates :: "('s, c_long) act \<Rightarrow> int option \<Rightarrow> bool" where
  \<comment> \<open>the action gives the value, or is undefined behaviour when there is none; it changes nothing\<close>
  "calculates m v \<longleftrightarrow> (case v of
       Some n \<Rightarrow> fits_long n \<and> m = ret (word_of_int n)
     | None \<Rightarrow> \<forall>s. \<exists>why. m s = (Inl (Undefined_behaviour why), s))"

lemma calculates_bind:
  assumes "calculates m v" and "\<And>n. v = Some n \<Longrightarrow> fits_long n \<Longrightarrow> calculates (f (word_of_int n)) (g n)"
  shows "calculates (andthen m f) (Option.bind v g)"
proof (cases v)
  case None
  with assms(1) show ?thesis unfolding calculates_def
    by simp (metis andthen_Inl)
next
  case (Some n)
  with assms(1) have m: "m = ret (word_of_int n)" "fits_long n" by (simp_all add: calculates_def)
  then have "andthen m f = f (word_of_int n)" by (simp add: fun_eq_iff)
  with Some assms(2) m show ?thesis by simp
qed

lemma calculates_ret: "fits_long n \<Longrightarrow> calculates (ret (word_of_int n)) (Some n)"
  by (simp add: calculates_def)

lemma calculates_sint: "calculates (ret v) (Some (sint v))"
  using calculates_ret[OF fits_sint, of v] by simp

lemma calculates_binop:
  "fits_long l \<Longrightarrow> fits_long r \<Longrightarrow>
     calculates (from_res (apply_binop op (word_of_int l) (word_of_int r))) (exact_binop op l r)"
  using binop_cases[of op "word_of_int l" "word_of_int r"]
  by (auto simp: calculates_def from_res_def sint_of_fits fun_eq_iff)

lemma calculates_unop:
  "fits_long l \<Longrightarrow> calculates (from_res (apply_unop op (word_of_int l))) (in_range (int_unop op l))"
  using unop_cases[of op "word_of_int l"]
  by (auto simp: calculates_def from_res_def sint_of_fits fun_eq_iff)

lemma word_zero_iff: "fits_long n \<Longrightarrow> (word_of_int n :: c_long) = 0 \<longleftrightarrow> n = 0"
  by (metis sint_of_fits sint_zero_iff)

lemma map_option_bind: "map_option f v = Option.bind v (\<lambda>x. Some (f x))"
  by (cases v) simp_all

lemma calculates_tree: "calculates (walk_arith L W (tree_of c)) (calc_value (literal L) c)"
proof (induction c)
  case (Literal s)
  have "scast w = (word_of_int (sint w) :: c_long)" for w :: "32 word" by transfer simp
  then show ?case using fits_literal
    by (simp add: literal_def in_range_def calculates_def fun_eq_iff)
next
  case (Group c)
  have "walk_arith L W (tree_of (Group c)) = walk_arith L W (tree_of c)"
    by (simp add: fun_eq_iff andthen_def split: prod.split sum.split)
  with Group show ?case by simp
next
  case (Sequence c d)
  have "walk_arith L W (tree_of (Sequence c d)) =
      andthen (walk_arith L W (tree_of c)) (\<lambda>_. andthen (walk_arith L W (tree_of d)) ret)"
    by (simp add: fun_eq_iff andthen_def split: prod.split sum.split)
  also have "\<dots> = andthen (walk_arith L W (tree_of c)) (\<lambda>_. walk_arith L W (tree_of d))"
    by (simp add: fun_eq_iff andthen_def split: prod.split sum.split)
  finally show ?case using Sequence by (auto intro: calculates_bind)
next
  case (Apply_unary op c)
  then show ?case by (auto intro!: calculates_bind calculates_unop)
next
  case (Apply_binary op c d)
  then show ?case by (auto intro!: calculates_bind calculates_binop)
next
  case (Or_calc c d)
  then show ?case
    by (auto intro!: calculates_bind calculates_sint[of 1, simplified] calculates_sint[of "truth b" for b, simplified]
        simp: word_zero_iff map_option_bind)
next
  case (And_calc c d)
  then show ?case
    by (auto intro!: calculates_bind calculates_sint[of 0, simplified] calculates_sint[of "truth b" for b, simplified]
        simp: word_zero_iff map_option_bind)
next
  case (If_calc c d e)
  then show ?case
    by (auto intro!: calculates_bind calculates_ret simp: word_zero_iff map_option_bind)
qed simp


text \<open>A division by zero in the branch of a conditional that is not taken is executed all the same.\<close>

lemma conditional_evaluates_both:
  "\<exists>why. walk_arith libraries_ref W (tree_of (If_calc (Literal ''1'') (Literal ''2'')
     (Apply_binary Slash (Literal ''1'') (Literal ''0'')))) st = (Inl (Undefined_behaviour why), st)"
proof -
  have "calc_value (literal libraries_ref) (If_calc (Literal ''1'') (Literal ''2'')
      (Apply_binary Slash (Literal ''1'') (Literal ''0''))) = None"
    by (simp add: literal_def libraries_ref_def in_range_def fits_long_def exact_binop_def int_binop_def)
  with calculates_tree[where L = libraries_ref and W = W and
      c = "If_calc (Literal ''1'') (Literal ''2'') (Apply_binary Slash (Literal ''1'') (Literal ''0''))"]
  show ?thesis by (simp only: calculates_def option.case)
qed

section \<open>Assignments\<close>

text \<open>\<open>n\<close> stands for a variable or an element of an array, as \<open>name_rule\<close> finds it.\<close>

definition only_changes :: "string \<Rightarrow> uint \<Rightarrow> bvalue \<Rightarrow> 'a interp \<Rightarrow> 'a interp \<Rightarrow> bool" where
  "only_changes x i v st t \<longleftrightarrow> element t x i = Some v \<and>
     (\<forall>y j. y \<noteq> x \<or> j \<noteq> i \<longrightarrow> element t y j = element st y j)"

definition writable :: "string \<Rightarrow> 'a interp \<Rightarrow> bool" where
  "writable x st \<longleftrightarrow> (\<forall>w. resolve_variable st x = Some w \<longrightarrow> \<not> var_readonly w)"

lemma store_long_spec:
  assumes "interp_ok st" "x \<noteq> []" "writable x st"
  shows "\<exists>t. store_long (x, i) v st = (Inr v, t) \<and> only_changes x i (Long v) st t"
proof -
  obtain t where t: "set_value x (Long v) i st = (Inr (Long v), t)"
    using walker.store_writable assms(3) unfolding writable_def by metis
  have "element t x j = (if j = i then Some (Long v) else element st x j)" for j
    using set_value_same[OF assms(1,2) t] by (auto simp: element_def)
  moreover have "element t y j = element st y j" if "y \<noteq> x" for y j
    using walker.store_other[OF t that] by (simp add: element_def)
  ultimately have "only_changes x i (Long v) st t" by (metis only_changes_def)
  with t show ?thesis by (simp add: store_long_def)
qed

lemma resolve_long_element:
  assumes "interp_ok st" "element st x j = Some v"
  shows "resolve_long B x j st = Inr (convert_long B v)"
proof -
  obtain u where u: "interp_get_option CHR ''u'' st = Inr u"
    using nounset_defined[OF assms(1)] by blast
  obtain w where "resolve_variable st x = Some w" "map_of (var_value w) j = Some v"
    using assms(2) by (auto simp: element_def split: option.splits)
  with u show ?thesis
    by (simp add: resolve_long_def resolve_with_def is_valid_def var_is_unset_def get_value_long_def)
qed

lemma update_long_element:
  assumes "interp_ok st" "x \<noteq> []" "writable x st" "element st x i = Some v"
  shows "f (convert_long B v) = Inr w \<Longrightarrow>
      \<exists>t. update_long B (x, i) f st = (Inr w, t) \<and> only_changes x i (Long w) st t"
    and "f (convert_long B v) = Inl e \<Longrightarrow> update_long B (x, i) f st = (Inl e, st)"
  using resolve_long_element[OF assms(1,4), of B] store_long_spec[OF assms(1-3), of i w]
  by (simp_all add: update_long_def from_res_def)

text \<open>C22 (refinement): a compound assignment \<open>x op= e\<close> to a variable or to an array element that holds a
  value stores exactly the integer result of applying the operator to the value, read as a \<open>long\<close>, and
  to the value of the expression of literals, gives it as the value of the assignment, and changes no other
  element of any variable; where the result or one on the way does not fit in a \<open>long\<close> or has no value
  it is undefined behaviour, and nothing was stored before.\<close>

theorem compound_assignment_exact:
  assumes "interp_ok st" "x \<noteq> []" "writable x st"
    and "name_rule L W n st = (Inr (x, i), st)" "element st x i = Some v"
  shows "case Option.bind (calc_value (literal L) c)
        (exact_binop (assign_binop op) (sint (convert_long (boost_lib L) v))) of
      Some k \<Rightarrow> \<exists>t. walk_arith L W (Assign_op op (Primary_name n) (tree_of c)) st = (Inr (word_of_int k), t) \<and>
        only_changes x i (Long (word_of_int k)) st t
    | None \<Rightarrow> \<exists>why. walk_arith L W (Assign_op op (Primary_name n) (tree_of c)) st =
        (Inl (Undefined_behaviour why), st)"
proof (cases "calc_value (literal L) c")
  case None
  then obtain why where "walk_arith L W (tree_of c) st = (Inl (Undefined_behaviour why), st)"
    using calculates_tree[of L W c] by (auto simp: calculates_def)
  with None assms(4) show ?thesis by (simp add: name_rule_def)
next
  case (Some r)
  then have r: "walk_arith L W (tree_of c) = ret (word_of_int r)" "fits_long r"
    using calculates_tree[of L W c] by (simp_all add: calculates_def)
  let ?old = "convert_long (boost_lib L) v"
  have walk: "walk_arith L W (Assign_op op (Primary_name n) (tree_of c)) st =
      update_long (boost_lib L) (x, i) (\<lambda>m. apply_binop (assign_binop op) m (word_of_int r)) st"
    using assms(4) r by (simp add: name_rule_def)
  from binop_cases[of "assign_binop op" ?old "word_of_int r"] show ?thesis
    using Some r walk update_long_element[OF assms(1-3,5), where B = "boost_lib L"]
    by (auto simp: sint_of_fits split: option.split)
qed

theorem compound_assignment_exact_witness:
  "\<exists>t. walk_arith libraries_ref (walker_ref 0)
       (Assign_op Mul_assign (Primary_name (Plain_name ''x'')) (tree_of (Literal ''3'')))
       (define_var ''x'' (Long 6) False 0 new_interpreter) = (Inr 18, t) \<and>
     element t ''x'' 0 = Some (Long 18)"
proof -
  let ?st = "define_var ''x'' (Long 6) False 0 new_interpreter :: ast interp"
  have "case Option.bind (calc_value (literal libraries_ref) (Literal ''3''))
        (exact_binop (assign_binop Mul_assign) (sint (convert_long (boost_lib libraries_ref) (Long 6)))) of
      Some k \<Rightarrow> \<exists>t. walk_arith libraries_ref (walker_ref 0)
          (Assign_op Mul_assign (Primary_name (Plain_name ''x'')) (tree_of (Literal ''3''))) ?st =
            (Inr (word_of_int k), t) \<and> only_changes ''x'' 0 (Long (word_of_int k)) ?st t
    | None \<Rightarrow> \<exists>why. walk_arith libraries_ref (walker_ref 0)
          (Assign_op Mul_assign (Primary_name (Plain_name ''x'')) (tree_of (Literal ''3''))) ?st =
        (Inl (Undefined_behaviour why), ?st)"
    by (rule compound_assignment_exact)
      (simp_all add: interp_ok_define_var interp_ok_new writable_def resolve_define_var_global
        new_variable_def name_rule_def element_define_var)
  then show ?thesis
    by (simp add: literal_def libraries_ref_def in_range_def fits_long_def exact_binop_def int_binop_def
        assign_binop_def convert_long_def only_changes_def del: walk_arith.simps tree_of.simps) blast
qed

text \<open>\<open>++\<close> and \<open>--\<close>, before or after an operand whose text begins with a digit, store
  the value plus or minus one and change nothing else; the prefix forms give the new value, the
  postfix forms the old one.\<close>

theorem step_updates:
  assumes "interp_ok st" "x \<noteq> []" "writable x st"
    and "name_rule L W n st = (Inr (x, i), st)" "element st x i = Some v"
    and "is_number (convert_string (boost_lib L) v)"
    and "m = sint (convert_long (boost_lib L) v)"
    and "m' = m + (if op = Pre_incr \<or> op = Post_incr then 1 else - 1)" "fits_long m'"
  shows "\<exists>t. walk_arith L W (Step op (Primary_name n)) st =
      (Inr (word_of_int (if op = Pre_incr \<or> op = Pre_decr then m' else m)), t) \<and>
    only_changes x i (Long (word_of_int m')) st t"
proof -
  have m: "word_of_int m = convert_long (boost_lib L) v" "fits_long m"
    using assms(7) fits_sint by simp_all
  have s: "sint (word_of_int m' :: c_long) = m'" using assms(9) by (rule sint_of_fits)
  obtain t where t: "update_long (boost_lib L) (x, i)
      (\<lambda>k. checked (sint k + (if op = Pre_incr \<or> op = Post_incr then 1 else - 1))) st =
        (Inr (word_of_int m'), t)"
    and only: "only_changes x i (Long (word_of_int m')) st t"
    using update_long_element(1)[OF assms(1-3,5), of "\<lambda>k. checked (sint k + (if op = Pre_incr \<or> op = Post_incr then 1 else - 1))"
        "boost_lib L" "word_of_int m'"] assms(7-9) checked_fits by auto
  have text': "resolve_string (boost_lib L) x i st = Inr (convert_string (boost_lib L) v)"
    using resolve_string_element[OF assms(1,5)] .
  have "walk_step (boost_lib L) W op (x, i) st =
      (Inr (word_of_int (if op = Pre_incr \<or> op = Pre_decr then m' else m)), t)"
  proof (cases op)
    case Post_incr
    then have "m' - 1 = m" using assms(8) by simp
    with Post_incr t text' assms(6) s m(2) show ?thesis
      by (simp add: walk_step_def from_res_def checked_fits)
  next
    case Post_decr
    then have "m' + 1 = m" using assms(8) by simp
    with Post_decr t text' assms(6) s m(2) show ?thesis
      by (simp add: walk_step_def from_res_def checked_fits)
  qed (use t text' assms(6) in \<open>simp_all add: walk_step_def\<close>)
  with only assms(4) show ?thesis by (auto simp: name_rule_def)
qed

theorem step_updates_witness:
  "\<exists>t. walk_arith libraries_ref (walker_ref 0) (Step Post_incr (Primary_name (Plain_name ''x'')))
       (define_var ''x'' (Str ''6'') False 0 new_interpreter) = (Inr 6, t) \<and>
     element t ''x'' 0 = Some (Long 7)"
proof -
  let ?st = "define_var ''x'' (Str ''6'') False 0 new_interpreter :: ast interp"
  have six: "lex_long boost_ref ''6'' = Some 6" by code_simp
  have "\<exists>t. walk_arith libraries_ref (walker_ref 0) (Step Post_incr (Primary_name (Plain_name ''x''))) ?st =
      (Inr (word_of_int (if Post_incr = Pre_incr \<or> Post_incr = Pre_decr then 7 else 6)), t) \<and>
    only_changes ''x'' 0 (Long (word_of_int 7)) ?st t"
    by (rule step_updates[where v = "Str ''6''" and m = 6])
      (simp_all add: interp_ok_define_var interp_ok_new writable_def resolve_define_var_global
        new_variable_def name_rule_def element_define_var is_number_def convert_long_def six fits_long_def)
  then show ?thesis by (simp add: only_changes_def del: walk_arith.simps) blast
qed

text \<open>A value that begins with a minus sign is no number for \<open>is_number\<close>: the increment is then parsed
  as an expression and the variable is not assigned here.\<close>

lemma negative_not_stepped:
  assumes "interp_ok st" "element st x i = Some (Str ''-5'')"
  shows "walk_step B W Pre_incr (x, i) st = eval_arithmetic B W ''++-5'' st"
  using resolve_string_element[OF assms, of B] by (simp add: walk_step_def is_number_def)

section \<open>Subscripts\<close>

text \<open>C25 (bounds): a subscript of an array is rejected, with \<open>illegal_argument_exception\<close> and before anything
  is assigned, exactly when the lower half of its \<open>long\<close> value is negative as an \<open>int\<close>. An accepted
  index is below \<open>2^31\<close>; it is the value of the subscript when that is within the range of \<open>int\<close>, and the value
  modulo \<open>2^32\<close> otherwise, so that a subscript of \<open>2^32\<close> names the element 0.\<close>

theorem subscript_bounds:
  "case calc_value (literal L) c of
     None \<Rightarrow> True
   | Some k \<Rightarrow>
       (if k mod 2 ^ 32 < 2 ^ 31
        then \<exists>i. name_rule L W (Element_name x (tree_of c)) st = (Inr (x, i), st) \<and>
             uint i = k mod 2 ^ 32 \<and> unat i < 2 ^ 31
        else \<exists>why. name_rule L W (Element_name x (tree_of c)) st = (Inl (Illegal_argument_exception why), st))"
proof (cases "calc_value (literal L) c")
  case (Some k)
  then have k: "walk_arith L W (tree_of c) = ret (word_of_int k)"
    using calculates_tree[of L W c] by (simp add: calculates_def)
  let ?i = "ucast (word_of_int k :: c_long) :: uint"
  have u: "uint ?i = k mod 2 ^ 32"
    by (simp add: unsigned_ucast_eq take_bit_eq_mod uint_word_of_int mod_mod_cancel)
  have neg: "sint ?i < 0 \<longleftrightarrow> 2 ^ 31 \<le> k mod 2 ^ 32"
  proof -
    have "sint ?i < 0 \<longleftrightarrow> odd (uint ?i div 2 ^ 31)"
      by (simp add: sint_uint signed_take_bit_negative_iff bit_iff_odd)
    moreover have "a div 2 ^ 31 = (if 2 ^ 31 \<le> a then 1 else 0)" if "a < 2 ^ 32" "0 \<le> a" for a :: int
      using that int_div_pos_eq[of a "2 ^ 31" 1 "a - 2 ^ 31"] by simp
    then have "uint ?i div 2 ^ 31 = (if 2 ^ 31 \<le> uint ?i then 1 else 0)" by (simp add: u)
    ultimately show ?thesis unfolding u by simp
  qed
  have "unat ?i < 2 ^ 31 \<longleftrightarrow> k mod 2 ^ 32 < 2 ^ 31"
    using u by (simp add: unat_eq_nat_uint nat_less_iff)
  then show ?thesis using Some k neg u
    by (auto simp: name_rule_def set_index_def Let_def from_res_def)
qed simp

end
