(* ===== verification/Word_Laws.thy ===== *)
theory Word_Laws
  imports Walker_Reference
begin

text \<open>
  Words and patterns against their specification: brace expansion is a Cartesian product, a shell
  pattern matches the strings of its language, \<open>case\<close> takes the first clause that matches.
\<close>

section \<open>Brace expansion\<close>

definition alternatives ::
  "('f, 'p) libraries \<Rightarrow> 'a antlr \<Rightarrow> (arith, var_expansion, string_expr) string_item \<Rightarrow>
     string list \<Rightarrow> bool \<Rightarrow> bool" where
  \<comment> \<open>an item of a word that has the texts \<open>vs\<close> in every state; \<open>raw\<close> is false for an expansion\<close>
  "alternatives L W i vs raw \<longleftrightarrow> (case i of
       Part p \<Rightarrow> \<exists>s q. vs = [s] \<and>
         walk_string_part (boost_lib L) W (map_string_part (walk_arith L W) (walk_expansion L W) p) = ret (s, q, raw)
     | Brace es \<Rightarrow> raw \<and> list_all2 (\<lambda>e v. \<exists>q. walk_string_expr L W e = ret (v, q)) es vs)"

lemma map_act_all:
  "list_all2 (\<lambda>e v. \<exists>q. walk_string_expr L W e = ret (v, q)) es vs \<Longrightarrow>
     \<exists>ws. map fst ws = vs \<and> map_act id (map (walk_string_expr L W) es) = ret ws"
proof (induction es vs rule: list_all2_induct)
  case (Cons e es v vs)
  then obtain q ws where "walk_string_expr L W e = ret (v, q)" "map fst ws = vs"
    "map_act id (map (walk_string_expr L W) es) = ret ws" by blast
  then show ?case by (intro exI[of _ "(v, q) # ws"]) (simp add: fun_eq_iff id_def)
qed (simp add: fun_eq_iff)

lemma brace_step:
  "concat (map (\<lambda>b. map (\<lambda>p. b @ concat p) P) (concat (map (\<lambda>b. map (\<lambda>v. b @ v) vs) base))) =
   concat (map (\<lambda>b. map (\<lambda>p. b @ concat p) (concat (map (\<lambda>v. map (Cons v) P) vs))) base)"
proof (induction base)
  case (Cons b base)
  have "concat (map (\<lambda>b. map (\<lambda>p. b @ concat p) P) (map (\<lambda>v. b @ v) vs)) =
      map (\<lambda>p. b @ concat p) (concat (map (\<lambda>v. map (Cons v) P) vs))"
    by (induction vs) (simp_all add: comp_def)
  with Cons show ?case by simp
qed simp

lemma string_items_product:
  assumes "list_all2 (\<lambda>i (vs, raw). alternatives L W i vs raw) items alts"
  shows "\<exists>q'. walk_string_items (boost_lib L) W
      (map (map_string_item (walk_arith L W) (walk_expansion L W) (walk_string_expr L W)) items) (base, q, r) =
    ret (concat (map (\<lambda>b. map (\<lambda>p. b @ concat p) (product_lists (map fst alts))) base), q', r \<and> list_all snd alts)"
  using assms
proof (induction items alts arbitrary: base q r rule: list_all2_induct)
  case Nil
  then show ?case by (simp add: fun_eq_iff)
next
  case (Cons i items alt alts)
  obtain vs raw where alt: "alt = (vs, raw)" by (cases alt)
  show ?case
  proof (cases i)
    case (Part p)
    with Cons.hyps alt obtain s q2 where s: "vs = [s]"
      "walk_string_part (boost_lib L) W (map_string_part (walk_arith L W) (walk_expansion L W) p) = ret (s, q2, raw)"
      by (auto simp: alternatives_def)
    from Cons.IH[of "map (\<lambda>b. b @ s) base" q2 "r \<and> raw"] show ?thesis
      unfolding Part alt using s(2) by (auto simp: fun_eq_iff s(1) comp_def conj_assoc)
  next
    case (Brace es)
    with Cons.hyps alt have raw: "raw" and es: "list_all2 (\<lambda>e v. \<exists>q. walk_string_expr L W e = ret (v, q)) es vs"
      by (simp_all add: alternatives_def)
    obtain ws where ws: "map fst ws = vs" "map_act id (map (walk_string_expr L W) es) = ret ws"
      using map_act_all[OF es] by blast
    have base: "concat (map (\<lambda>b. map (\<lambda>e. b @ fst e) ws) base) = concat (map (\<lambda>b. map (\<lambda>v. b @ v) vs) base)"
      by (simp add: ws(1)[symmetric] comp_def)
    from Cons.IH[of "concat (map (\<lambda>b. map (\<lambda>v. b @ v) vs) base)" q r] show ?thesis
      unfolding Brace alt using ws(2) raw by (auto simp: fun_eq_iff base brace_step)
  qed
qed

text \<open>C7 (equivalence): a word with brace expansions has, separated by blanks, one text for each choice of one
  alternative from every brace, in the lexicographic order of the choices, each the concatenation of
  its parts: the Cartesian product of the lists of alternatives. An alternative may be a
  word with braces itself. If a part is an expansion and not raw text, more than one choice is the
  exception \<open>unsupported_exception\<close>.\<close>

theorem word_is_product:
  assumes "list_all2 (\<lambda>i (vs, raw). alternatives L W i vs raw) items alts"
  shows "word_text L W (String items) =
    (if list_all snd alts \<or> length (product_lists (map fst alts)) \<le> 1
     then ret (join_with (boost_lib L) (map concat (product_lists (map fst alts))) '' '')
     else throw (Unsupported_exception ''We only support brace expansion in raw string for now''))"
  using string_items_product[OF assms, of "[[]]" True True]
  by (auto simp: fun_eq_iff word_text_def joined_word_def from_res_def not_le)

theorem word_is_product_witness:
  "word_text libraries_ref (walker_ref 0)
     (String [Part (Text_part (Token ''a'')), Brace [text_word ''b'', text_word ''c''],
        Part (Text_part (Token ''d''))]) new_interpreter = (Inr ''abd acd'', new_interpreter)"
proof -
  have t: "\<exists>q. walk_string_expr libraries_ref W (text_word v) = ret (v, q)" for W :: "ast antlr" and v
    by (intro exI[of _ False])
      (simp add: fun_eq_iff text_word_def joined_word_def join_one whole_text_def from_res_def)
  have "word_text libraries_ref (walker_ref 0)
     (String [Part (Text_part (Token ''a'')), Brace [text_word ''b'', text_word ''c''],
        Part (Text_part (Token ''d''))]) =
    (if list_all snd [([''a''], True), ([''b'', ''c''], True), ([''d''], True)] \<or>
        length (product_lists (map fst [([''a''], True), ([''b'', ''c''], True), ([''d''], True)])) \<le> 1
     then ret (join_with (boost_lib libraries_ref)
       (map concat (product_lists (map fst [([''a''], True), ([''b'', ''c''], True), ([''d''], True)]))) '' '')
     else throw (Unsupported_exception ''We only support brace expansion in raw string for now''))"
    by (rule word_is_product) (auto simp: alternatives_def whole_text_def t)
  then show ?thesis by (simp add: boost_ref_def)
qed

text \<open>The flag that decides on word splitting is that of the last part of the word only.\<close>

lemma quoted_of_last_part:
  "walk_string_items B W (is @ [Part p]) state s = (Inr (base, quoted, raw), t) \<Longrightarrow>
     \<exists>u v r. walk_string_part B W p u = (Inr (v, quoted, r), t)"
proof (induction B W "is" state arbitrary: s rule: walk_string_items.induct)
  case (1 B W state)
  then show ?case
    by (cases state) (auto simp: andthen_def split: prod.splits sum.splits)
qed (auto simp: andthen_def split: prod.splits sum.splits)

section \<open>Patterns\<close>

text \<open>The abstract syntax of the patterns without brackets, and their languages.\<close>

datatype glob = Any_text | Any_char | Exactly string

datatype piece = Piece glob | Group extended_op "glob list list"

primrec glob_tree :: "glob \<Rightarrow> ('e, 'x) basic_pattern" where
  "glob_tree Any_text = Match_all"
| "glob_tree Any_char = Match_one"
| "glob_tree (Exactly w) = Match_part (Text_part (Token w))"

primrec piece_tree :: "piece \<Rightarrow> ('e, 'x) pattern_item" where
  "piece_tree (Piece g) = Basic (glob_tree g)"
| "piece_tree (Group op gss) = Extended op (map (map glob_tree) gss)"

primrec glob_lang :: "glob \<Rightarrow> string set" where
  "glob_lang Any_text = UNIV"
| "glob_lang Any_char = {[c] |c. True}"
| "glob_lang (Exactly w) = {w}"

definition concat_all :: "string set list \<Rightarrow> string set" where
  "concat_all Ls = foldr concat_langs Ls {[]}"


definition branches_lang :: "glob list list \<Rightarrow> string set" where
  "branches_lang gss = (\<Union>gs \<in> set gss. concat_all (map glob_lang gs))"

primrec piece_lang :: "piece \<Rightarrow> string set" where
  "piece_lang (Piece g) = glob_lang g"
| "piece_lang (Group op gss) = (case op of
       Extended_match_at_most_one \<Rightarrow> insert [] (branches_lang gss)
     | Extended_match_any \<Rightarrow> kleene (branches_lang gss)
     | Extended_match_at_least_one \<Rightarrow> concat_langs (branches_lang gss) (kleene (branches_lang gss))
     | Extended_match_exactly_one \<Rightarrow> branches_lang gss
     | Extended_match_none \<Rightarrow> {})"

primrec rejected :: "bool \<Rightarrow> piece \<Rightarrow> bool" where
  \<comment> \<open>groups need the option \<open>extglob\<close>; \<open>!(...)\<close> is not implemented\<close>
  "rejected extglob (Piece g) \<longleftrightarrow> False"
| "rejected extglob (Group op gss) \<longleftrightarrow> \<not> extglob \<or> op = Extended_match_none"

primrec piece_ok :: "piece \<Rightarrow> bool" where
  \<comment> \<open>the parser gives every group a branch and every branch a part\<close>
  "piece_ok (Piece g) \<longleftrightarrow> True"
| "piece_ok (Group op gss) \<longleftrightarrow> gss \<noteq> [] \<and> [] \<notin> set gss"

text \<open>A matcher that decides the language of a sequence.\<close>

fun glob_match :: "glob list \<Rightarrow> string \<Rightarrow> bool" where
  "glob_match [] s \<longleftrightarrow> s = []"
| "glob_match (Exactly w # gs) s \<longleftrightarrow> take (length w) s = w \<and> glob_match gs (drop (length w) s)"
| "glob_match (Any_char # gs) [] \<longleftrightarrow> False"
| "glob_match (Any_char # gs) (c # s) \<longleftrightarrow> glob_match gs s"
| "glob_match (Any_text # gs) [] \<longleftrightarrow> glob_match gs []"
| "glob_match (Any_text # gs) (c # s) \<longleftrightarrow> glob_match gs (c # s) \<or> glob_match (Any_text # gs) s"

lemma concat_langs_simps [simp]:
  "concat_langs A {[]} = A" "concat_langs {[]} A = A"
  "concat_langs (concat_langs A B) C = concat_langs A (concat_langs B C)"
  by (auto simp: concat_langs_def) (metis append_assoc)+

lemma concat_langs_single:
  "s \<in> concat_langs {w} A \<longleftrightarrow> take (length w) s = w \<and> drop (length w) s \<in> A"
proof
  assume "take (length w) s = w \<and> drop (length w) s \<in> A"
  moreover have "s = take (length w) s @ drop (length w) s" by simp
  ultimately show "s \<in> concat_langs {w} A" unfolding concat_langs_def by auto
qed (auto simp: concat_langs_def)

lemma concat_langs_char: "c # s \<in> concat_langs {[d] |d. True} A \<longleftrightarrow> s \<in> A"
proof
  assume "s \<in> A"
  then have "[c] @ s \<in> concat_langs {[d] |d. True} A" unfolding concat_langs_def by blast
  then show "c # s \<in> concat_langs {[d] |d. True} A" by simp
qed (auto simp: concat_langs_def)

lemma concat_all_simps [simp]:
  "concat_all [] = {[]}" "concat_all (A # As) = concat_langs A (concat_all As)"
  by (simp_all add: concat_all_def)

lemma glob_match_lang: "glob_match gs s \<longleftrightarrow> s \<in> concat_all (map glob_lang gs)"
proof (induction gs s rule: glob_match.induct)
  case (2 w gs s)
  show ?case
    unfolding glob_match.simps list.map concat_all_simps glob_lang.simps concat_langs_single
    by (rule conj_cong[OF refl]) (rule 2)
next
  case (4 gs c s)
  then show ?case by (simp add: concat_langs_char[simplified])
next
  case (6 gs c s)
  have "c # s \<in> concat_langs UNIV (concat_all (map glob_lang gs)) \<longleftrightarrow>
      c # s \<in> concat_all (map glob_lang gs) \<or> s \<in> concat_langs UNIV (concat_all (map glob_lang gs))"
    by (auto simp: concat_langs_def Cons_eq_append_conv)
  with 6 show ?case by simp
qed (auto simp: concat_langs_def)

subsection \<open>What the walker builds\<close>

definition language :: "('p \<Rightarrow> string set) \<Rightarrow> 'p option \<Rightarrow> string set" where
  \<comment> \<open>of a pattern under construction; nothing appended yet is the empty sequence\<close>
  "language lang pattern = (case pattern of None \<Rightarrow> {[]} | Some p \<Rightarrow> lang p)"

lemma language_simps [simp]: "language lang None = {[]}" "language lang (Some p) = lang p"
  by (simp_all add: language_def)

lemma language_append:
  "regex_documented X lang \<Longrightarrow>
     language lang (append_pattern X pattern p) = concat_langs (language lang pattern) (lang p)"
  by (cases pattern) (simp_all add: append_pattern_def regex_documented_def)

lemma append_nonempty: "append_pattern X pattern p \<noteq> None"
  by (cases pattern) (simp_all add: append_pattern_def)

lemma assigned_language: "pattern \<noteq> None \<Longrightarrow> lang (assigned X pattern) = language lang pattern"
  by (cases pattern) (simp_all add: assigned_def)

lemma kleene_chars: "kleene {[c] |c. True} = UNIV"
proof -
  have "s \<in> kleene {[c] |c. True}" for s :: string
    by (induction s) (use kleene_more[of "[c]" for c] in \<open>auto intro: kleene_empty\<close>)
  then show ?thesis by blast
qed

lemma walk_glob:
  "regex_documented X lang \<Longrightarrow>
     \<exists>p. walk_basic_pattern B X W greedy (glob_tree g) st = (Inr p, st) \<and> lang p = glob_lang g"
  by (cases g) (simp_all add: regex_documented_def kleene_chars[simplified] whole_text_def)

lemma walk_globs:
  assumes X: "regex_documented X lang"
  shows "\<exists>p. walk_branch B X W greedy (map glob_tree gs) pattern st = (Inr p, st) \<and>
     language lang p = concat_langs (language lang pattern) (concat_all (map glob_lang gs)) \<and>
     (gs \<noteq> [] \<or> pattern \<noteq> None \<longrightarrow> p \<noteq> None)"
proof (induction gs arbitrary: pattern)
  case (Cons g gs)
  obtain p where p: "walk_basic_pattern B X W greedy (glob_tree g) st = (Inr p, st)" "lang p = glob_lang g"
    using walk_glob[OF X] by blast
  with Cons.IH[of "append_pattern X pattern p"] language_append[OF X, of pattern p]
    append_nonempty[of X pattern p] show ?case
    by auto
qed simp

lemma walk_branches:
  assumes X: "regex_documented X lang"
  shows "[] \<notin> set gss \<Longrightarrow> gss \<noteq> [] \<or> pattern \<noteq> None \<Longrightarrow>
    \<exists>p. walk_composite_pattern B X W greedy (map (map glob_tree) gss) pattern st = (Inr p, st) \<and>
     lang p = (case pattern of None \<Rightarrow> {} | Some q \<Rightarrow> lang q) \<union> branches_lang gss"
proof (induction gss arbitrary: pattern)
  case Nil
  then show ?case by (auto simp: branches_lang_def assigned_def)
next
  case (Cons gs gss)
  obtain p where p: "walk_branch B X W greedy (map glob_tree gs) None st = (Inr p, st)"
    "language lang p = concat_all (map glob_lang gs)" "p \<noteq> None"
    using walk_globs[OF X, of B W greedy gs None st] Cons.prems(1) by auto
  let ?p = "assigned X p"
  have "lang ?p = concat_all (map glob_lang gs)" using p by (simp add: assigned_language)
  moreover have "lang (rx_alt X q r) = lang q \<union> lang r" for q r
    using X by (simp add: regex_documented_def)
  ultimately show ?case
    using p(1) Cons.IH[of "alternative X pattern ?p"] Cons.prems(1)
    by (cases pattern) (auto simp: alternative_def branches_lang_def)
qed

lemma map_glob_tree [simp]: "map_basic_pattern f h (glob_tree g) = glob_tree g"
  by (cases g) simp_all

lemma map_piece_tree [simp]: "map_pattern_item f h (piece_tree x) = piece_tree x"
  by (cases x) simp_all

lemma walk_piece:
  assumes X: "regex_documented X lang" and ext: "get_additional_option ''extglob'' st = Inr on"
    and x: "piece_ok x"
  shows "if rejected on x
    then \<exists>why. walk_pattern_item B X W greedy (piece_tree x) st = (Inl (Unsupported_exception why), st)
    else \<exists>p. walk_pattern_item B X W greedy (piece_tree x) st = (Inr p, st) \<and> lang p = piece_lang x"
proof (cases x)
  case (Piece g)
  with walk_glob[OF X] show ?thesis by auto
next
  case (Group op gss)
  with x walk_branches[OF X, of gss None B W greedy st] obtain p
    where p: "walk_composite_pattern B X W greedy (map (map glob_tree) gss) None st = (Inr p, st)"
      "lang p = branches_lang gss" by auto
  with X ext Group show ?thesis
    by (cases op; cases on) (auto simp: check_extglob_def from_res_def extended_pattern_def regex_documented_def)
qed

lemma walk_pieces:
  assumes X: "regex_documented X lang" and ext: "get_additional_option ''extglob'' st = Inr on"
  shows "list_all piece_ok xs \<Longrightarrow> if list_ex (rejected on) xs
    then \<exists>why. walk_bash_pattern B X W greedy (map piece_tree xs) pattern st = (Inl (Unsupported_exception why), st)
    else \<exists>p. walk_bash_pattern B X W greedy (map piece_tree xs) pattern st = (Inr (assigned X p), st) \<and>
      language lang p = concat_langs (language lang pattern) (concat_all (map piece_lang xs)) \<and>
      (xs \<noteq> [] \<or> pattern \<noteq> None \<longrightarrow> p \<noteq> None)"
proof (induction xs arbitrary: pattern)
  case (Cons x xs)
  show ?case
  proof (cases "rejected on x")
    case True
    with walk_piece[OF X ext, of x B W greedy] Cons.prems show ?thesis by auto
  next
    case False
    with walk_piece[OF X ext, of x B W greedy] Cons.prems obtain p
      where p: "walk_pattern_item B X W greedy (piece_tree x) st = (Inr p, st)" "lang p = piece_lang x" by auto
    with False Cons.IH[of "append_pattern X pattern p"] Cons.prems language_append[OF X, of pattern p]
      append_nonempty[of X pattern p] show ?thesis by auto
  qed
qed (auto intro: exI[of _ pattern for pattern])

text \<open>C8 (equivalence): on Boost.Xpressive as documented, the pattern that the walker builds for a
  shell pattern of \<open>*\<close>, \<open>?\<close>, texts and extended groups of alternatives \<open>?(...)\<close>, \<open>*(...)\<close>, \<open>+(...)\<close> and
  \<open>@(...)\<close> matches exactly the strings of its language, greedy or not; for a pattern
  without groups, which is the strings that the backtracking matcher \<open>glob_match\<close> accepts.
  A group while \<open>extglob\<close> is off, and any \<open>!(...)\<close>, is an \<open>unsupported_exception\<close>. The state
  is unchanged.\<close>

theorem pattern_matches_language:
  assumes "regex_documented (xpressive_lib L) lang" and "get_additional_option ''extglob'' st = Inr on"
    and "list_all piece_ok xs" and "xs \<noteq> []"
  shows "if list_ex (rejected on) xs
    then \<exists>why. bash_pattern L W greedy (map piece_tree xs) st = (Inl (Unsupported_exception why), st)
    else \<exists>p. bash_pattern L W greedy (map piece_tree xs) st = (Inr p, st) \<and>
      (\<forall>s. rx_match (xpressive_lib L) p s \<longleftrightarrow> s \<in> concat_all (map piece_lang xs)) \<and>
      (\<forall>gs. xs = map Piece gs \<longrightarrow> (\<forall>s. rx_match (xpressive_lib L) p s \<longleftrightarrow> glob_match gs s))"
proof -
  have "rx_match (xpressive_lib L) p s \<longleftrightarrow> s \<in> lang p" for p s
    using assms(1) by (simp add: regex_documented_def)
  moreover have "concat_all (map piece_lang (map Piece gs)) = concat_all (map glob_lang gs)" for gs
    by (simp add: comp_def)
  ultimately show ?thesis
    using walk_pieces[OF assms(1-3), of "boost_lib L" W greedy None] assms(4)
    by (auto simp: bash_pattern_def comp_def assigned_language glob_match_lang split: if_splits)
qed

theorem pattern_matches_language_witness:
  "\<exists>p. bash_pattern libraries_ref (walker_ref 0) True (map piece_tree [Piece Any_text, Piece (Exactly ''.c'')])
       new_interpreter = (Inr p, new_interpreter) \<and>
     rx_match regex_ref p ''main.c'' \<and> \<not> rx_match regex_ref p ''main.h''"
proof -
  have X: "regex_documented (xpressive_lib libraries_ref) (\<lambda>p. {s. p s})" by (simp add: regex_ref_documented)
  have ext: "get_additional_option ''extglob'' (new_interpreter :: ast interp) = Inr False" by code_simp
  obtain p where p: "bash_pattern libraries_ref (walker_ref 0) True
        (map piece_tree [Piece Any_text, Piece (Exactly ''.c'')]) new_interpreter = (Inr p, new_interpreter)"
      "\<forall>gs. [Piece Any_text, Piece (Exactly ''.c'')] = map Piece gs \<longrightarrow>
        (\<forall>s. rx_match regex_ref p s \<longleftrightarrow> glob_match gs s)"
    using pattern_matches_language[OF X ext, of "[Piece Any_text, Piece (Exactly ''.c'')]" "walker_ref 0" True]
    by auto
  from p(2)[THEN spec, of "[Any_text, Exactly ''.c'']"] p(1) show ?thesis by auto
qed

section \<open>The command case\<close>

definition clause_tree ::
  "glob list list \<times> 'c logic_list list option \<Rightarrow> 'c case_clause" where
  "clause_tree = (\<lambda>(alts, commands). Case_clause (map (map glob_tree) alts) commands)"

lemma walk_case_clause:
  assumes X: "regex_documented (xpressive_lib L) lang" and "alts \<noteq> []" "[] \<notin> set alts"
  shows "walk_case L W target (clause_tree (alts, commands) # clauses) st =
    (if list_ex (\<lambda>gs. glob_match gs target) alts
     then (case commands of None \<Rightarrow> (Inr (), st) | Some cs \<Rightarrow> walk_list cs st)
     else walk_case L W target clauses st)"
proof -
  obtain p where "composite_pattern L W True (map (map glob_tree) alts) st = (Inr p, st)"
    "lang p = branches_lang alts"
    using walk_branches[OF X, of alts None "boost_lib L" W True st] assms
    by (auto simp: composite_pattern_def comp_def)
  moreover have "rx_match (xpressive_lib L) p target \<longleftrightarrow> target \<in> lang p"
    using X by (simp add: regex_documented_def)
  ultimately show ?thesis
    by (auto simp: clause_tree_def branches_lang_def glob_match_lang list_ex_iff split: option.split)
qed



end
