(* ===== verification/Control_Laws.thy ===== *)
theory Control_Laws
  imports Walker_Reference Builtins_Laws "HOL-Library.While_Combinator"
begin

text \<open>
  The control structures of the tree walker: lists with \<open>&&\<close> and \<open>||\<close>, the choice of an \<open>if\<close>, and how
  far \<open>break\<close> and \<open>continue\<close> reach through nested loops of every kind.
\<close>

section \<open>Lists\<close>

definition logic_of :: "'c \<Rightarrow> (bool \<times> 'c) list \<Rightarrow> 'c logic_list" where
  \<comment> \<open>the tree of \<open>c && d || e ...\<close>, where true stands for \<open>&&\<close>; both operators associate to the left\<close>
  "logic_of c rest = foldl (\<lambda>l (conj, d). if conj then And_then l d else Or_else l d) (Single c) rest"

text \<open>A list of commands joined by \<open>&&\<close> and \<open>||\<close> runs the first command and then, from left to
  right, every command whose operator agrees with the exit status that the last command executed
  left, \<open>&&\<close> with 0 and \<open>||\<close> with any other; the others are skipped without an effect on the
  status. An exception ends the list.\<close>

theorem logic_list_runs:
  "walk_logic_list (logic_of c rest) =
     andthen c (\<lambda>_. for_each rest (\<lambda>(conj, d). if_status (\<lambda>n. (n = 0) = conj) d (ret ())))"
proof (induction rest rule: rev_induct)
  case Nil
  have "c = andthen c (\<lambda>_. ret ())" by (simp only: andthen_unit_ret)
  then show ?case by (simp only: logic_of_def foldl.simps walk_logic_list.simps for_each.simps)
next
  case (snoc x rest)
  obtain conj d where x: "x = (conj, d)" by (cases x)
  have "walk_logic_list (logic_of c (rest @ [x])) = andthen (walk_logic_list (logic_of c rest))
      (\<lambda>_. if_status (\<lambda>n. (n = 0) = conj) d (ret ()))"
    by (cases conj) (simp_all add: x logic_of_def)
  moreover have "for_each [x] f = f x" for f :: "bool \<times> ('a interp, unit) act \<Rightarrow> ('a interp, unit) act"
    by (simp only: for_each.simps andthen_unit_ret)
  ultimately show ?case
    by (simp only: snoc for_each_append andthen_assoc) (simp only: x case_prod_conv)
qed

section \<open>Conditionals\<close>

fun all_fail :: "('s, unit) act list \<Rightarrow> ('s \<Rightarrow> int) \<Rightarrow> 's \<Rightarrow> 's \<Rightarrow> bool" where
  \<comment> \<open>run in a row from the first state to the last, each ends with a status other than 0\<close>
  "all_fail [] st s t \<longleftrightarrow> t = s"
| "all_fail (c # cs) st s t \<longleftrightarrow>
     (case c s of (Inr _, u) \<Rightarrow> st u \<noteq> 0 \<and> all_fail cs st u t | (Inl e, u) \<Rightarrow> False)"

lemma walk_if_fail:
  "all_fail (map fst pre) status s t \<Longrightarrow> walk_if (pre @ rest) els s = walk_if rest els t"
  by (induction pre arbitrary: s)
    (auto simp: if_status_def andthen_def split: prod.splits sum.splits)

lemma walk_if_statement:
  "walk_compound n L W (If_statement branches els) =
     walk_if (map (\<lambda>(c, b). (command_list_rule n L W c, command_list_rule n L W b)) branches)
       (case els of None \<Rightarrow> ret () | Some cs \<Rightarrow> command_list_rule n L W cs)"
  by (cases els) (simp_all add: command_list_rule_def comp_def case_prod_beta' map_prod_def)

text \<open>C20 (functional): \<open>if\<close> runs the conditions in order until one ends with status 0, then the commands of that
  branch and nothing else; when all conditions fail it runs the \<open>else\<close> part. Without one it ends
  with the status of the last condition, which is not 0, where bash gives 0.\<close>

theorem if_takes_first:
  assumes "all_fail (map (command_list_rule n L W \<circ> fst) pre) status s t"
  shows "walk_compound n L W (If_statement pre None) s = (Inr (), t) \<and>
    walk_compound n L W (If_statement pre (Some els)) s = command_list_rule n L W els t \<and>
    (command_list_rule n L W c t = (Inr (), u) \<and> status u = 0 \<longrightarrow>
      walk_compound n L W (If_statement (pre @ (c, b) # post) otherwise) s = command_list_rule n L W b u)"
proof -
  let ?f = "\<lambda>(c, b). (command_list_rule n L W c, command_list_rule n L W b)"
  have "walk_if (map ?f pre @ rest) els' s = walk_if rest els' t" for rest els'
    using walk_if_fail[of "map ?f pre" s t rest els'] assms by (simp add: comp_def case_prod_beta')
  from this[of "[]"] this[of "?f (c, b) # map ?f post"] show ?thesis
    by (simp add: walk_if_statement if_status_def del: walk_compound.simps)
qed

theorem if_takes_first_witness:
  "walk_compound 1 libraries_ref (walker_ref 0) (If_statement
       [([Single (Command [] (Compound (Cond_command (Keyword_test (Keyword_not
           (Keyword_common (Nonempty_string (text_word ''a'')))))))) ], [])] None) new_interpreter =
     (Inr (), set_status 1 new_interpreter)"
proof -
  let ?c = "[Single (Command [] (Compound (Cond_command (Keyword_test (Keyword_not
     (Keyword_common (Nonempty_string (text_word ''a'')))))))) ]"
  have "command_list_rule 1 libraries_ref (walker_ref 0) ?c new_interpreter =
      (Inr (), set_status 1 new_interpreter)"
    by (simp add: command_list_rule_def walk_list_def with_streams_def andthen_def restore_streams)
      (simp add: stream_defs new_interpreter_def Let_def define_var_def)
  then show ?thesis
    by (intro if_takes_first[THEN conjunct1]) (simp add: set_status_def)
qed

section \<open>Nested loops\<close>

text \<open>A loop of each kind around a body, by the functions that the walker runs.\<close>

datatype 'a loop =
    For_words string "string list"
  | While_until nat int "('a interp, unit) act"
  | Arithmetic_for nat "('a interp, c_long) act option" "('a interp, unit) act"

primrec run_loop :: "'a loop \<Rightarrow> ('a interp, unit) act \<Rightarrow> ('a interp, unit) act" where
  "run_loop (For_words x vs) body = for_loop x vs body"
| "run_loop (While_until n stop test) body = while_loop n stop test body"
| "run_loop (Arithmetic_for n cond modification) body = cfor_loop n cond body modification"

primrec first_round :: "'a loop \<Rightarrow> 'a interp \<Rightarrow> 'a interp option" where
  \<comment> \<open>the state in which the body runs first, if it does\<close>
  "first_round (For_words x vs) st = (case vs of [] \<Rightarrow> None | v # vs \<Rightarrow>
     (case set_value x (Str v) 0 st of (Inr _, t) \<Rightarrow> Some t | (Inl e, t) \<Rightarrow> None))"
| "first_round (While_until n stop test) st = (if n = 0 then None else
     (case test st of (Inr _, t) \<Rightarrow> if status t = stop then None else Some t | (Inl e, t) \<Rightarrow> None))"
| "first_round (Arithmetic_for n cond modification) st = (if n = 0 then None else
     (case (case cond of None \<Rightarrow> ret 1 | Some c \<Rightarrow> c) st of
        (Inr v, t) \<Rightarrow> if v = 0 then None else Some t | (Inl e, t) \<Rightarrow> None))"

primrec next_rounds :: "'a loop \<Rightarrow> ('a interp, unit) act \<Rightarrow> ('a interp, unit) act" where
  \<comment> \<open>what the loop does after its first round\<close>
  "next_rounds (For_words x vs) body = for_loop x (tl vs) body"
| "next_rounds (While_until n stop test) body = while_loop (n - 1) stop test body"
| "next_rounds (Arithmetic_for n cond modification) body =
     andthen modification (\<lambda>_. cfor_loop (n - 1) cond body modification)"

lemma run_loop_first:
  assumes "first_round l st = Some s"
  shows "run_loop l body st = (case loop_body body s of
      (Inl e, t) \<Rightarrow> (Inl e, t) | (Inr go_on, t) \<Rightarrow> if go_on then next_rounds l body t else (Inr (), t))"
proof (cases l)
  case (For_words x vs)
  with assms show ?thesis
    by (auto simp: andthen_def split: list.splits prod.splits sum.splits)
next
  case (While_until n stop test)
  with assms show ?thesis
    by (cases n) (auto simp: andthen_def if_status_def split: prod.splits sum.splits if_splits)
next
  case (Arithmetic_for n cond modification)
  with assms show ?thesis
    by (cases n) (auto simp: andthen_def split: prod.splits sum.splits if_splits)
qed

fun enter_all :: "'a loop list \<Rightarrow> 'a interp \<Rightarrow> 'a interp option" where
  \<comment> \<open>the state in which the innermost body runs first\<close>
  "enter_all [] st = Some st"
| "enter_all (l # ls) st = Option.bind (first_round l st) (enter_all ls)"

definition nest :: "'a loop list \<Rightarrow> ('a interp, unit) act \<Rightarrow> ('a interp, unit) act" where
  "nest ls body = foldr run_loop ls body"

lemma nest_simps [simp]: "nest [] body = body" "nest (l # ls) body = run_loop l (nest ls body)"
  by (simp_all add: nest_def)

lemma nested_break:
  "enter_all ls st = Some s \<Longrightarrow> body s = (Inl (Break_exception (1 + int n)), t) \<Longrightarrow>
     length ls \<le> n + 1 \<Longrightarrow> ls \<noteq> [] \<Longrightarrow> nest ls body st =
       (if length ls = n + 1 then Inr () else Inl (Break_exception (1 + int n - int (length ls))), t)"
proof (induction ls arbitrary: st)
  case (Cons l ls)
  then obtain u where u: "first_round l st = Some u" "enter_all ls u = Some s" by (auto split: bind_splits)
  have "nest ls body u = (Inl (Break_exception (1 + int n - int (length ls))), t)"
    using Cons u by (cases ls) auto
  then show ?case
    using run_loop_first[OF u(1), of "nest ls body"] Cons.prems(3)
    by (auto simp: loop_body_def rethrow_unless_correct_frame_def)
qed simp

lemma nested_throw:
  "enter_all ls st = Some s \<Longrightarrow> body s = (Inl e, t) \<Longrightarrow>
     \<forall>n. e \<noteq> Break_exception n \<and> e \<noteq> Continue_exception n \<Longrightarrow> nest ls body st = (Inl e, t)"
proof (induction ls arbitrary: st)
  case (Cons l ls)
  then obtain u where u: "first_round l st = Some u" "enter_all ls u = Some s" by (auto split: bind_splits)
  with Cons show ?case
    using run_loop_first[OF u(1), of "nest ls body"] by (cases e) (auto simp: loop_body_def)
qed simp

lemma nested_continue:
  "enter_all ls st = Some s \<Longrightarrow> body s = (Inl (Continue_exception (1 + int n)), t) \<Longrightarrow>
     length ls \<le> n \<Longrightarrow> nest ls body st = (Inl (Continue_exception (1 + int n - int (length ls))), t)"
proof (induction ls arbitrary: st)
  case (Cons l ls)
  then obtain u where u: "first_round l st = Some u" "enter_all ls u = Some s" by (auto split: bind_splits)
  with Cons show ?case
    using run_loop_first[OF u(1), of "nest ls body"]
    by (auto simp: loop_body_def rethrow_unless_correct_frame_def)
qed simp

text \<open>C5 (functional): the innermost of nested loops, of any kinds, runs \<open>break\<close> or \<open>continue\<close> in its first round, by the
  exception that the builtin throws. \<open>break n\<close> ends exactly the n innermost loops, so that n loops
  are over and the command after them is next; inside fewer loops the exception goes on to the outside with the loops
  counted off. \<open>continue n\<close> ends the n-1 innermost loops and goes on with the next round of the n-th,
  for an arithmetic \<open>for\<close> after its modification. Any other exception, such as \<open>return\<close>, leaves
  all loops. No command in between runs.\<close>

theorem nested_loops_left:
  assumes "enter_all (l # ls) st = Some s" and "body s = (Inl e, t)"
  shows "(e = Break_exception (1 + int n) \<and> length ls \<le> n \<longrightarrow> nest (l # ls) body st =
       (if length ls = n then Inr () else Inl (Break_exception (int n - int (length ls))), t)) \<and>
    (e = Continue_exception (1 + int n) \<and> length ls \<le> n \<longrightarrow> nest (l # ls) body st =
       (if length ls = n then next_rounds l (nest ls body) t
        else (Inl (Continue_exception (int n - int (length ls))), t))) \<and>
    ((\<forall>n. e \<noteq> Break_exception n \<and> e \<noteq> Continue_exception n) \<longrightarrow> nest (l # ls) body st = (Inl e, t))"
proof (intro conjI impI)
  assume e: "e = Continue_exception (1 + int n) \<and> length ls \<le> n"
  obtain u where u: "first_round l st = Some u" "enter_all ls u = Some s"
    using assms(1) by (auto split: bind_splits)
  have "nest ls body u = (Inl (Continue_exception (1 + int n - int (length ls))), t)"
    using nested_continue[OF u(2)] assms(2) e by blast
  then show "nest (l # ls) body st = (if length ls = n then next_rounds l (nest ls body) t
      else (Inl (Continue_exception (int n - int (length ls))), t))"
    using run_loop_first[OF u(1), of "nest ls body"] e
    by (auto simp: loop_body_def rethrow_unless_correct_frame_def)
next
  assume e: "e = Break_exception (1 + int n) \<and> length ls \<le> n"
  then show "nest (l # ls) body st =
      (if length ls = n then Inr () else Inl (Break_exception (int n - int (length ls))), t)"
    using nested_break[OF assms(1), of body n t] assms(2) by simp
next
  assume "\<forall>n. e \<noteq> Break_exception n \<and> e \<noteq> Continue_exception n"
  then show "nest (l # ls) body st = (Inl e, t)" using nested_throw[of "l # ls" st s body e t] assms by blast
qed

theorem nested_loops_left_witness:
  "nest [For_words ''x'' [''a'', ''b''], While_until 5 1 (ret ())] (throw (Break_exception 2))
       (new_interpreter :: ast interp) = (Inr (), define_var ''x'' (Str ''a'') False 0 new_interpreter)"
proof -
  let ?t = "define_var ''x'' (Str ''a'') False 0 new_interpreter :: ast interp"
  have x: "resolve_variable (new_interpreter :: ast interp) ''x'' = None" "status ?t = 0"
    by (simp_all add: new_interpreter_def Let_def define_var_def resolve_variable_def)
  have "enter_all [For_words ''x'' [''a'', ''b''], While_until 5 1 (ret ())] (new_interpreter :: ast interp) = Some ?t"
    using x by (simp add: set_value_def)
  from nested_loops_left[OF this, of "throw (Break_exception 2)" "Break_exception 2" ?t 1]
  show ?thesis by simp
qed

section \<open>While loops\<close>

lemma while_option_iff:
  "while_option b c s = Some t \<longleftrightarrow>
     (\<exists>k. (\<forall>j<k. b ((c ^^ j) s)) \<and> \<not> b ((c ^^ k) s) \<and> t = (c ^^ k) s)"
proof
  assume t: "while_option b c s = Some t"
  then have ex: "\<exists>k. \<not> b ((c ^^ k) s)" by (auto simp: while_option_def split: if_splits)
  then have "t = (c ^^ (LEAST k. \<not> b ((c ^^ k) s))) s"
    using t by (simp add: while_option_def)
  moreover have "\<not> b ((c ^^ (LEAST k. \<not> b ((c ^^ k) s))) s)" using ex by (rule LeastI_ex)
  ultimately show "\<exists>k. (\<forall>j<k. b ((c ^^ j) s)) \<and> \<not> b ((c ^^ k) s) \<and> t = (c ^^ k) s"
    by (intro exI[of _ "LEAST k. \<not> b ((c ^^ k) s)"]) (auto dest: not_less_Least)
next
  assume "\<exists>k. (\<forall>j<k. b ((c ^^ j) s)) \<and> \<not> b ((c ^^ k) s) \<and> t = (c ^^ k) s"
  then obtain k where k: "\<forall>j<k. b ((c ^^ j) s)" "\<not> b ((c ^^ k) s)" "t = (c ^^ k) s" by blast
  then show "while_option b c s = Some t"
  proof (induction k arbitrary: s)
    case 0
    then show ?case by (simp add: while_option_unfold)
  next
    case (Suc k)
    have rounds: "b ((c ^^ j) (c s))" if "j < k" for j
      using Suc.prems(1)[THEN spec, of "Suc j"] that by (simp only: funpow_Suc_right o_apply)
    have "\<not> b ((c ^^ k) (c s))" "t = (c ^^ k) (c s)"
      using Suc.prems(2,3) unfolding funpow_Suc_right o_apply by blast+
    with rounds have "while_option b c (c s) = Some t" using Suc.IH[of "c s"] by blast
    moreover have "b s" using Suc.prems(1)[THEN spec, of 0] by simp
    ultimately show ?case by (simp add: while_option_unfold[of b c s])
  qed
qed

lemma while_loop_rounds:
  assumes "\<And>s. test s = (Inr (), p s)" and "\<And>s. loop_body body s = (Inr True, f s)"
    and c: "\<And>s. c s = p (f s)"
  shows "(\<exists>n. while_loop n stop test body st = (Inr (), t)) \<longleftrightarrow>
    while_option (\<lambda>s. status s \<noteq> stop) c (p st) = Some t"
proof
  assume "\<exists>n. while_loop n stop test body st = (Inr (), t)"
  then obtain n where "while_loop n stop test body st = (Inr (), t)" by blast
  then show "while_option (\<lambda>s. status s \<noteq> stop) c (p st) = Some t"
  proof (induction n arbitrary: st)
    case (Suc n)
    from Suc.prems have "status (p st) = stop \<and> t = p st \<or>
        status (p st) \<noteq> stop \<and> while_loop n stop test body (f (p st)) = (Inr (), t)"
      using assms(1)[of st] assms(2)[of "p st"] by (auto simp: if_status_def split: if_splits)
    with Suc.IH[of "f (p st)"] show ?case
      by (auto simp: c[of "p st"] while_option_unfold[of _ c "p st"])
  qed simp
next
  assume "while_option (\<lambda>s. status s \<noteq> stop) c (p st) = Some t"
  then obtain k where k: "\<forall>j<k. status ((c ^^ j) (p st)) \<noteq> stop"
    "status ((c ^^ k) (p st)) = stop" "t = (c ^^ k) (p st)"
    unfolding while_option_iff by blast
  then have "while_loop (Suc k) stop test body st = (Inr (), t)"
  proof (induction k arbitrary: st)
    case 0
    then show ?case by (simp add: assms(1) if_status_def)
  next
    case (Suc k)
    have rounds: "status ((c ^^ j) (c (p st))) \<noteq> stop" if "j < k" for j
      using Suc.prems(1)[THEN spec, of "Suc j"] that unfolding funpow_Suc_right o_apply by blast
    have "status ((c ^^ k) (c (p st))) = stop" "t = (c ^^ k) (c (p st))"
      using Suc.prems(2,3) by (simp_all only: funpow_Suc_right o_apply)
    with rounds have "while_loop (Suc k) stop test body (f (p st)) = (Inr (), t)"
      using Suc.IH[of "f (p st)", folded c] by blast
    moreover have "status (p st) \<noteq> stop" using Suc.prems(1)[THEN spec, of 0] by simp
    ultimately show ?case
      by (subst while_loop.simps) (simp add: assms if_status_def del: while_loop.simps)
  qed
  then show "\<exists>n. while_loop n stop test body st = (Inr (), t)" by blast
qed



end
