(* ===== verification/Script_Laws.thy ===== *)
theory Script_Laws
  imports Walker_Reference Builtins_Laws
begin

text \<open>
  Whole scripts through all layers: the words of a command, its arguments, the dispatch to a builtin or to a
  function, the streams and the scopes around it.
\<close>

section \<open>Commands of quoted words\<close>

definition quoted_word :: "string \<Rightarrow> string_expr" where
  \<comment> \<open>a text in double quotes\<close>
  "quoted_word s = String [Part (Double_quoted [Quoted_text (Token s)])]"

definition call_command :: "string \<Rightarrow> string list \<Rightarrow> command" where
  \<comment> \<open>a name and quoted arguments\<close>
  "call_command name ws = Command [] (Simple (text_word name) (map quoted_word ws) [] False)"

lemma join_single: "join_documented B \<Longrightarrow> join_with B [w] d = w"
  by (simp add: join_documented_def)

lemma plain_words:
  assumes "join_documented (boost_lib L)"
  shows "word_text L W (text_word w) = ret w"
    and "walk_string_expr L W (quoted_word w) = ret (w, True)"
  using assms
  by (simp_all add: fun_eq_iff word_text_def text_word_def quoted_word_def joined_word_def join_single
      whole_text_def from_res_def)

lemma quoted_arguments:
  assumes "join_documented (boost_lib L)"
  shows "[] \<notin> set ws \<Longrightarrow> walk_arguments L W split (map quoted_word ws) args = ret (args @ ws)"
proof (induction ws arbitrary: args)
  case (Cons w ws)
  then have "walk_argument L W split (quoted_word w) args = ret (args @ [w])"
    by (auto simp: fun_eq_iff walk_argument_def plain_words[OF assms])
  with Cons show ?case by (simp add: fun_eq_iff)
qed (simp add: fun_eq_iff)

lemma walk_call_command:
  assumes "join_documented (boost_lib L)" "[] \<notin> set ws"
    and "name \<notin> {[], ''local'', ''set'', ''declare'', ''eval''}"
  shows "walk_command n L W (call_command name ws) st =
    with_streams (with_local_scope (run_command L W name ws)) st"
proof -
  have "walk_simple_command L W (text_word name) (map quoted_word ws) [] False = with_local_scope
      (andthen (run_command L W name ws) (\<lambda>_. ret ()))"
    using assms(3) by (simp add: fun_eq_iff walk_simple_command_def plain_words[OF assms(1)]
        quoted_arguments[OF assms(1,2)] execute_command_def with_local_scope_def andthen_def)
  then show ?thesis
    by (simp only: andthen_unit_ret) (simp add: call_command_def with_streams_def andthen_def)
qed

section \<open>Command substitution\<close>



section \<open>Functions\<close>

text \<open>C4 (functional): a script that defines a function and then calls it with quoted arguments runs the body of
  the function, the compound command of the definition and no other, in the state where the
  function table has the new entry, \<open>$*\<close> is bound to the arguments in a scope of its own and the
  tree of the definition is the current one; \<open>return\<close> in the body ends it normally, and afterwards
  that scope and the redirections are gone, whatever way the body was left.\<close>

theorem definition_then_call:
  assumes W: "W = walker L P files (Suc (Suc n))" and join: "join_documented (boost_lib L)"
    and A: "A = Script [Single (Command [] (Function [Token name] index body)),
        Single (call_command name ws)]"
    and name: "check_function_name name" "name \<notin> {''local'', ''set'', ''declare'', ''eval''}"
      "\<not> has_function name st" "[] \<notin> set ws"
    and entry: "s = st\<lparr>
        function_table := function_table st @ [(name, \<lparr>func_ast = A, func_index = index\<rparr>)],
        local_members := [''*'' \<mapsto> new_array ''*'' (positional_args 1 ws []) False] # local_members st,
        ast_stack := A # A # ast_stack st\<rparr>"
    and runs: "walk_compound n L (walker L P files n) body s = (r, u)"
  shows "interpret_with (walker_start W) A st =
    (if r = Inl Return_exception then Inr () else r,
     u\<lparr>out_stream := out_stream st, err_stream := err_stream st, in_stream := in_stream st,
       local_members := tl (local_members u), ast_stack := tl (tl (ast_stack u))\<rparr>)"
proof -
  let ?f = "\<lparr>func_ast = A, func_index = index\<rparr>"
  define V where "V = walker L P files (Suc n)"
  have ne: "name \<noteq> []" using name(1) by (auto simp: check_function_name_def)
  have start: "walker_start W = walk_start (Suc n) L V"
    by (simp add: W V_def walker_step_def)
  have body: "walker_compound_command V A index = walk_compound n L (walker L P files n) body"
    by (simp add: V_def walker_step_def call_function_def A call_command_def)
  have define_it: "walk_command m L V (Command [] (Function [Token name] index body)) s0 =
      (Inr (), s0\<lparr>function_table := function_table s0 @ [(name, ?f)]\<rparr>)"
    if "ast_stack s0 = A # rest" "\<not> has_function name s0" for m s0 rest
    using that name(1)
    by (simp add: with_streams_def whole_text_def define_function_def andthen_def stream_defs)
  have run: "run_command L V name ws s1 = (if r = Inl Return_exception then Inr () else r, pop_current_ast u)"
    if "s1 = s\<lparr>local_members := Map.empty # local_members st, ast_stack := A # ast_stack st\<rparr>" for s1
    using that name(3) runs
    by (simp add: run_command_def has_function_def call_def define_function_arguments_def catch_return_def
        function_call_def interpret_with_def body push_current_ast_def entry Let_def map_add_def)
  have two: "walk_start (Suc n) L V A = andthen (walk_command (Suc n) L V (Command [] (Function [Token name] index body)))
      (\<lambda>_. walk_command (Suc n) L V (call_command name ws))"
    by (simp only: walk_start_def A ast.case command_list_rule_def walk_list_def list.map logic_list.map
        for_each.simps walk_logic_list.simps andthen_unit_ret)
  let ?s2 = "push_current_ast A st\<lparr>function_table := function_table st @ [(name, ?f)]\<rparr>"
  have "walk_command (Suc n) L V (Command [] (Function [Token name] index body)) (push_current_ast A st) = (Inr (), ?s2)"
    using define_it[of "push_current_ast A st"] name(3) by (simp add: push_current_ast_def has_function_def)
  moreover have "walk_command (Suc n) L V (call_command name ws) ?s2 =
      (if r = Inl Return_exception then Inr () else r,
       u\<lparr>out_stream := out_stream st, err_stream := err_stream st, in_stream := in_stream st,
         local_members := tl (local_members u), ast_stack := tl (ast_stack u)\<rparr>)"
    using name ne run[of "push_scope ?s2"]
    by (simp add: walk_call_command[OF join] with_streams_def with_local_scope_def entry push_scope_def
        pop_scope_def push_current_ast_def pop_current_ast_def stream_defs)
  ultimately have "walk_start (Suc n) L V A (push_current_ast A st) =
      (if r = Inl Return_exception then Inr () else r,
       u\<lparr>out_stream := out_stream st, err_stream := err_stream st, in_stream := in_stream st,
         local_members := tl (local_members u), ast_stack := tl (ast_stack u)\<rparr>)"
    by (simp add: two)
  then show ?thesis by (simp add: interpret_with_def start pop_current_ast_def)
qed

theorem definition_then_call_witness:
  "\<exists>t. interpret_with (walker_start (walker_ref 2))
      (Script [Single (Command [] (Function [Token ''f''] 4 (Current_shell []))), Single (call_command ''f'' [''a''])])
      new_interpreter = (Inr (), t) \<and> local_members t = []"
proof -
  let ?A = "Script [Single (Command [] (Function [Token ''f''] 4 (Current_shell []))), Single (call_command ''f'' [''a''])]"
  let ?st = "new_interpreter :: ast interp"
  let ?s = "?st\<lparr>
        function_table := function_table ?st @ [(''f'', \<lparr>func_ast = ?A, func_index = 4\<rparr>)],
        local_members := [''*'' \<mapsto> new_array ''*'' (positional_args 1 [''a''] []) False] # local_members ?st,
        ast_stack := ?A # ?A # ast_stack ?st\<rparr>"
  have "interpret_with (walker_start (walker_ref (Suc (Suc 0)))) ?A ?st =
    (if Inr () = (Inl Return_exception :: unit res) then Inr () else Inr (),
     ?s\<lparr>out_stream := out_stream ?st, err_stream := err_stream ?st,
       in_stream := in_stream ?st,
       local_members := tl (local_members ?s), ast_stack := tl (tl (ast_stack ?s))\<rparr>)"
    by (rule definition_then_call[where n = 0 and name = "''f''" and ws = "[''a'']" and index = 4 and
          body = "Current_shell []" and s = ?s and L = libraries_ref and P = parse_ref and files = "\<lambda>path. None"])
      (simp_all add: walker_ref_def boost_ref_join check_function_name_def forbidden_in_function_name_def
        has_function_def new_interpreter_def Let_def define_var_def walk_list_def del: walker.simps)
  then show ?thesis by (simp add: numeral_2_eq_2 del: walker.simps)
qed

end
