(* ===== verification/Tools.thy ===== *)
theory Tools
  imports Libbash Metadata
begin

text \<open>
  src/utils: the programs around the library. \<open>bash.cpp\<close>, \<open>variable_printer.cpp\<close> and
  \<open>metadata_generator.cpp\<close> interpret one script, \<open>instruo.cpp\<close> generates the metadata cache of a
  repository, \<open>ast_printer.cpp\<close> shows trees and tokens. The state of a program is what it has
  printed, the files it has written and the static data of the library. A program returns its exit
  status, or the exception that leaves \<open>main\<close>. Options are parsed by third-party libraries; the
  programs here start from their result.
\<close>

section \<open>Programs\<close>

record 'a tool =
  printed :: string
  complained :: string
  cache_files :: "string \<Rightarrow> string option"
  directories :: "string set"
  shared :: "'a process"

definition print_line :: "string \<Rightarrow> ('a tool, unit) act" where
  "print_line s = modify (\<lambda>t. t\<lparr>printed := printed t @ s @ [newline]\<rparr>)"

definition complain_line :: "string \<Rightarrow> ('a tool, unit) act" where
  "complain_line s = modify (\<lambda>t. t\<lparr>complained := complained t @ s @ [newline]\<rparr>)"

definition what :: "exn \<Rightarrow> string option" where
  \<comment> \<open>the message of an exception that a handler for \<open>interpreter_exception\<close> catches\<close>
  "what e = (case e of
       Interpreter_exception m \<Rightarrow> Some m | Illegal_argument_exception m \<Rightarrow> Some m
     | Parse_exception m \<Rightarrow> Some m | Readonly_exception m \<Rightarrow> Some m | Runtime_exception m \<Rightarrow> Some m
     | Unsupported_exception m \<Rightarrow> Some m | Divide_by_zero_error m \<Rightarrow> Some m
     | _ \<Rightarrow> None)"

definition catch_interpreter ::
  "('a tool, 'r) act \<Rightarrow> (string \<Rightarrow> ('a tool, 'r) act) \<Rightarrow> ('a tool, 'r) act" where
  \<comment> \<open>\<open>try { m } catch(interpreter_exception& e) { handler }\<close>\<close>
  "catch_interpreter m handler st = (case m st of
       (Inl e, t) \<Rightarrow> (case what e of Some message \<Rightarrow> handler message t | None \<Rightarrow> (Inl e, t))
     | (Inr r, t) \<Rightarrow> (Inr r, t))"

definition run_library :: "('a process \<Rightarrow> outcome res \<times> 'a interp) \<Rightarrow> ('a tool, outcome) act" where
  \<comment> \<open>a call of \<open>libbash::interpret\<close>; its interpreter prints to the standard streams\<close>
  "run_library f t = (case f (shared t) of (r, s) \<Rightarrow>
     (r, t\<lparr>printed := printed t @ written s Cout, complained := complained t @ written s Cerr,
            shared := statics s\<rparr>))"

definition usage :: "('a tool, int) act" where
  "usage = andthen (complain_line ''Please provide your script as an argument'') (\<lambda>_. ret 1)"

definition isolated_functions :: "string \<Rightarrow> string" where
  "isolated_functions srcdir = srcdir @ ''/utils/isolated-functions.sh''"

section \<open>Programs for one script\<close>

definition bash_main :: "boost \<Rightarrow> 'a antlr \<Rightarrow> string \<Rightarrow> string list \<Rightarrow> ('a tool, int) act" where
  "bash_main B W srcdir args = (case args of
       [script] \<Rightarrow> catch_interpreter
         (andthen (run_library (\<lambda>p. libbash_interpret B W p script [(''srcdir'', [srcdir])]))
           (\<lambda>_. ret 0))
         (\<lambda>message. andthen (complain_line message) (\<lambda>_. ret 1))
     | _ \<Rightarrow> usage)"

definition special_variables :: "string list" where
  "special_variables = [''IFS'', ''*'', ''0'', ''-'']"

definition variable_line :: "boost \<Rightarrow> string \<times> string list \<Rightarrow> string" where
  \<comment> \<open>\<open>string << '=' << -(string % ' ')\<close>\<close>
  "variable_line B = (\<lambda>(name, vs). name @ ''='' @ (if vs = [] then [] else karma_list B vs))"

fun separated :: "string \<Rightarrow> string list \<Rightarrow> string" where
  \<comment> \<open>what a list generator prints: nothing for an empty list, for which it fails\<close>
  "separated sep [] = []"
| "separated sep [l] = l"
| "separated sep (l # m # ls) = l @ sep @ separated sep (m # ls)"

definition shown_variables :: "(string \<Rightarrow> string list option) \<Rightarrow> (string \<times> string list) list" where
  \<comment> \<open>the \<open>std::map\<close> without the special variables, in the order of the names\<close>
  "shown_variables variables = map (\<lambda>n. (n, the (variables n)))
     (sorted_list_of_set (dom variables - set special_variables))"

definition variable_printer_main ::
  "boost \<Rightarrow> 'a antlr \<Rightarrow> string option \<Rightarrow> string list \<Rightarrow> ('a tool, int) act" where
  \<comment> \<open>the environment variable \<open>srcdir\<close> is the third argument\<close>
  "variable_printer_main B W env args = (case args of
       [script] \<Rightarrow> andthen
         (catch_interpreter
           (andthen (run_library (\<lambda>p. libbash_interpret_preloaded B W p script
               (isolated_functions (case env of None \<Rightarrow> ''.'' | Some d \<Rightarrow> d)) []))
             (\<lambda>out. ret (Some out)))
           (\<lambda>message. andthen (complain_line message) (\<lambda>_. ret None)))
         (\<lambda>out. case out of None \<Rightarrow> ret 1
            | Some out' \<Rightarrow> andthen (print_line (separated [newline]
                (map (variable_line B) (shown_variables (result_variables out'))))) (\<lambda>_. ret 0))
     | _ \<Rightarrow> usage)"

definition metadata_generator_main :: "boost \<Rightarrow> 'a antlr \<Rightarrow> string list \<Rightarrow> ('a tool, int) act" where
  \<comment> \<open>there is no handler: every exception leaves \<open>main\<close>\<close>
  "metadata_generator_main B W args = (case args of
       [script] \<Rightarrow> andthen (run_library (\<lambda>p. libbash_interpret B W p script [])) (\<lambda>out t.
         (case write_metadata B (result_functions out) ([], result_variables out) of
            (r, (text', _)) \<Rightarrow> (bind_res r (\<lambda>_. Inr 0), t\<lparr>printed := printed t @ text'\<rparr>)))
     | _ \<Rightarrow> usage)"

section \<open>The metadata cache of a repository\<close>

text \<open>What Paludis gives for a package. \<open>dirname\<close> is that of its paths.\<close>

record package_id =
  id_category :: string
  id_package :: string
  id_version :: string
  id_unrevised :: string
  id_revision :: string

record instruo_settings =
  output_directory :: string
  repository_path :: string
  source_directory :: string
  path_dirname :: "string \<Rightarrow> string"

definition package_variables :: "package_id \<Rightarrow> (string \<times> string list) list" where
  "package_variables id' = [
     (''PN'', [id_package id']), (''PV'', [id_unrevised id']),
     (''P'', [id_package id' @ ''-'' @ id_unrevised id']), (''PR'', [id_revision id']),
     (''PVR'', [id_version id']), (''PF'', [id_package id' @ ''-'' @ id_version id']),
     (''CATEGORY'', [id_category id'])]"

definition ebuild_path :: "instruo_settings \<Rightarrow> package_id \<Rightarrow> string" where
  "ebuild_path S id' = repository_path S @ ''/'' @ id_category id' @ ''/'' @ id_package id' @ ''/'' @
     id_package id' @ ''-'' @ id_version id' @ ''.ebuild''"

definition value_of :: "(string \<Rightarrow> string list option) \<Rightarrow> string \<Rightarrow> string res" where
  \<comment> \<open>\<open>variables[name][0]\<close>; the index operator makes an empty vector for a name that is not there\<close>
  "value_of variables name = (case variables name of None \<Rightarrow> first_value [] | Some vs \<Rightarrow> first_value vs)"

definition entry_path :: "instruo_settings \<Rightarrow> (string \<Rightarrow> string list option) \<Rightarrow> string res" where
  \<comment> \<open>from the variables that the script left\<close>
  "entry_path S variables =
     bind_res (value_of variables ''CATEGORY'') (\<lambda>category.
     bind_res (value_of variables ''PN'') (\<lambda>package.
     bind_res (value_of variables ''PVR'') (\<lambda>version.
       Inr (output_directory S @ ''/'' @ category @ ''/'' @ package @ ''-'' @ version))))"

definition write_entry :: "boost \<Rightarrow> instruo_settings \<Rightarrow> outcome \<Rightarrow> ('a tool, unit) act" where
  "write_entry B S out = andthen (query (\<lambda>_. entry_path S (result_variables out))) (\<lambda>path t.
     (case write_metadata B (result_functions out) ([], result_variables out) of (r, (text', _)) \<Rightarrow>
        (r, t\<lparr>directories := insert (path_dirname S path) (directories t),
              cache_files := (cache_files t)(path \<mapsto> text')\<rparr>)))"

definition generate_entry ::
  "boost \<Rightarrow> 'a antlr \<Rightarrow> instruo_settings \<Rightarrow> package_id \<Rightarrow> ('a tool, unit) act" where
  \<comment> \<open>the task for one package\<close>
  "generate_entry B W S id' = catch_interpreter
     (andthen (run_library (\<lambda>p. libbash_interpret_preloaded B W p (ebuild_path S id')
         (isolated_functions (source_directory S)) (package_variables id')))
       (write_entry B S))
     (\<lambda>message. complain_line (''Exception occurred while interpreting '' @ ebuild_path S id' @
        ''. The error message is:'' @ [newline] @ message))"

definition announce :: "instruo_settings \<Rightarrow> string \<Rightarrow> ('a tool, unit) act" where
  "announce S category = andthen (print_line (''Processing '' @ category @ ''...''))
     (\<lambda>_. modify (\<lambda>t. t\<lparr>directories := insert (output_directory S @ ''/'' @ category) (directories t)\<rparr>))"

fun worker :: "boost \<Rightarrow> 'a antlr \<Rightarrow> instruo_settings \<Rightarrow> string \<Rightarrow> package_id list \<Rightarrow> ('a tool, unit) act" where
  \<comment> \<open>the loop over the packages; the tasks run in the order in which they are created\<close>
  "worker B W S old_cat [] = ret ()"
| "worker B W S old_cat (id' # ids) =
     andthen (if id_category id' \<noteq> old_cat then announce S (id_category id') else ret ()) (\<lambda>_.
     andthen (generate_entry B W S id') (\<lambda>_. worker B W S (id_category id') ids))"

record instruo_options =
  a_generate_cache :: bool
  a_version :: bool
  a_help :: bool
  a_package_manager :: "string option"
  a_repository_name :: "string option"
  a_output_directory :: "string option"

definition usage_error :: "string \<Rightarrow> string \<Rightarrow> ('a tool, int) act" where
  "usage_error program message = andthen (complain_line (''Usage error: '' @ message))
     (\<lambda>_. andthen (complain_line (''Try '' @ program @ '' --help'')) (\<lambda>_. ret 1))"

definition instruo_main ::
  "boost \<Rightarrow> 'a antlr \<Rightarrow> string \<Rightarrow> string \<Rightarrow> string \<Rightarrow> string \<Rightarrow> (string \<Rightarrow> string) \<Rightarrow>
     (string \<Rightarrow> string \<Rightarrow> (string \<times> package_id list) option) \<Rightarrow> string \<Rightarrow> instruo_options \<Rightarrow> ('a tool, int) act"
  where
  \<comment> \<open>the name of the program, the texts for help and version, the current and the source directory,
    and the location and packages that Paludis finds for a package manager and a repository\<close>
  "instruo_main B W program help_text version_text cwd dirname fetch srcdir opts =
     (if a_help opts
      then andthen (print_line (''Usage: '' @ program @ '' [options]'')) (\<lambda>_.
           andthen (print_line []) (\<lambda>_.
           andthen (modify (\<lambda>t. t\<lparr>printed := printed t @ help_text\<rparr>)) (\<lambda>_. ret 0)))
      else if a_generate_cache opts \<and> a_version opts
      then usage_error program ''you should specify exactly one action''
      else if a_version opts
      then andthen (modify (\<lambda>t. t\<lparr>printed := printed t @ version_text\<rparr>)) (\<lambda>_. ret 0)
      else let output = (case a_output_directory opts of None \<Rightarrow> cwd | Some d \<Rightarrow> d)
           in andthen (modify (\<lambda>t. t\<lparr>directories := insert output (directories t)\<rparr>)) (\<lambda>_.
              case fetch (case a_package_manager opts of None \<Rightarrow> ''portage'' | Some m \<Rightarrow> m)
                     (case a_repository_name opts of None \<Rightarrow> ''gentoo'' | Some r \<Rightarrow> r) of
                None \<Rightarrow> ret 0
              | Some (location, ids) \<Rightarrow> andthen
                  (worker B W \<lparr>output_directory = output, repository_path = location,
                     source_directory = srcdir, path_dirname = dirname\<rparr> ''OLDCAT'' ids) (\<lambda>_. ret 0)))"

end
