(* ===== verification/Ast_Printer.thy ===== *)
theory Ast_Printer
  imports Tools
begin

text \<open>
  src/utils/ast_printer.cpp: the program that shows the tree of a script, or the tokens that the
  parser or the walker reads, with the names that a \<open>.tokens\<close> file gives them.
\<close>

section \<open>Token maps\<close>

fun leading_digits :: "string \<Rightarrow> string" where
  "leading_digits s = takeWhile (\<lambda>c. c \<in> set ''0123456789'') s"

definition parse_int32 :: "string \<Rightarrow> (int \<times> string) option" where
  \<comment> \<open>\<open>qi::int_parser<ANTLR3_INT32>\<close>: a sign, then digits; it fails when the value is out of range\<close>
  "parse_int32 s =
     (let body = (if s \<noteq> [] \<and> (hd s = CHR ''-'' \<or> hd s = CHR ''+'') then tl s else s);
          digits = leading_digits body;
          sign = (if s \<noteq> [] \<and> hd s = CHR ''-'' then - 1 else 1)
      in case parse_decimal digits of
           None \<Rightarrow> None
         | Some n \<Rightarrow> if - (2 ^ 31) \<le> sign * int n \<and> sign * int n < 2 ^ 31
                     then Some (sign * int n, drop (length digits) body) else None)"

definition parse_token_line :: "string \<Rightarrow> ((string \<times> int) \<times> string) option" where
  \<comment> \<open>\<open>+~qi::char_('=') >> '=' >> int\<close>; a name may hold any other character, a newline too\<close>
  "parse_token_line s =
     (let name = takeWhile (\<lambda>c. c \<noteq> CHR ''='') s; rest = dropWhile (\<lambda>c. c \<noteq> CHR ''='') s
      in if name = [] \<or> rest = [] then None
         else map_option (\<lambda>(k, rest'). ((name, k), rest')) (parse_int32 (tl rest)))"

definition parse_eol :: "string \<Rightarrow> string option" where
  \<comment> \<open>\<open>qi::eol\<close>\<close>
  "parse_eol s =
     (if take 2 s = [CHR 0x0D, newline] then Some (drop 2 s)
      else if s \<noteq> [] \<and> (hd s = newline \<or> hd s = CHR 0x0D) then Some (tl s) else None)"

lemma parse_token_line_shorter: "parse_token_line s = Some (e, rest) \<Longrightarrow> length rest < length s"
proof -
  assume "parse_token_line s = Some (e, rest)"
  then have ne: "dropWhile (\<lambda>c. c \<noteq> CHR ''='') s \<noteq> []"
    and "length rest \<le> length (tl (dropWhile (\<lambda>c. c \<noteq> CHR ''='') s))"
    by (auto simp: parse_token_line_def parse_int32_def Let_def split: if_splits option.splits)
  moreover have "length (dropWhile (\<lambda>c. c \<noteq> CHR ''='') s) \<le> length s" by (rule length_dropWhile_le)
  ultimately show ?thesis by (cases "dropWhile (\<lambda>c. c \<noteq> CHR ''='') s") auto
qed

function parse_token_lines :: "string \<Rightarrow> ((string \<times> int) list \<times> string) option" where
  \<comment> \<open>\<open>line % qi::eol\<close>: after the last line the position is before the end of line that no line follows\<close>
  "parse_token_lines s = (case parse_token_line s of
       None \<Rightarrow> None
     | Some (e, rest) \<Rightarrow> (case parse_eol rest of
           None \<Rightarrow> Some ([e], rest)
         | Some rest' \<Rightarrow> (case parse_token_lines rest' of
               None \<Rightarrow> Some ([e], rest)
             | Some (es, rest'') \<Rightarrow> Some (e # es, rest''))))"
  by pat_completeness auto
termination
proof (relation "measure length", goal_cases)
  case (2 s x e rest rest')
  from parse_token_line_shorter[of s e rest] 2 have "length rest < length s" by simp
  moreover have "length rest' \<le> length rest"
    using 2 by (auto simp: parse_eol_def split: if_splits)
  ultimately show ?case by simp
qed simp

declare parse_token_lines.simps [simp del]

definition build_token_map :: "string option \<Rightarrow> (string \<times> int) list option" where
  \<comment> \<open>the entries of the file, \<open>None\<close> when it is not of the form; a missing file has no content\<close>
  "build_token_map file_content =
     (case parse_token_lines (case file_content of None \<Rightarrow> [] | Some s \<Rightarrow> s) of
        None \<Rightarrow> None
      | Some (es, rest) \<Rightarrow> (if parse_eol rest = Some [] then Some es else None))"

definition token_mapper :: "(string \<times> int) list \<Rightarrow> nat \<Rightarrow> string" where
  \<comment> \<open>\<open>token_map[token]\<close>: of two entries for a number the first was kept\<close>
  "token_mapper es k = (case map_of (map (\<lambda>(name, n). (n, name)) es) (int k) of
       None \<Rightarrow> [] | Some name \<Rightarrow> name)"

section \<open>Printers\<close>

text \<open>An input stream is its content and whether it is good. \<open>viewer\<close> are the services of ANTLR.\<close>

record 'a viewer =
  dot_graph :: "'a \<Rightarrow> string"
  string_tree :: "'a \<Rightarrow> string"
  lex_script :: "string \<Rightarrow> token list"
  node_stream :: "'a \<Rightarrow> stream_token list"

record source =
  source_text :: string
  source_good :: bool

definition print_ast ::
  "boost \<Rightarrow> 'a antlr \<Rightarrow> 'a viewer \<Rightarrow> bool \<Rightarrow> bool \<Rightarrow> source \<Rightarrow> ('a tool, unit) act" where
  "print_ast B W V silent dot input =
     andthen (query (\<lambda>_. ast_of_stream B W (source_text input) Parser_start True)) (\<lambda>ast.
       if silent then ret ()
       else print_line (if dot then dot_graph V ast else string_tree V ast))"

definition print_listing :: "string option \<Rightarrow> ((nat \<Rightarrow> string) \<Rightarrow> string) \<Rightarrow> ('a tool, unit) act" where
  \<comment> \<open>the end of both token printers\<close>
  "print_listing file_content listing = (case build_token_map file_content of
       Some es \<Rightarrow> print_line (listing (token_mapper es))
     | None \<Rightarrow> complain_line ''Building token map failed'')"

definition print_parser_token ::
  "'a antlr \<Rightarrow> 'a viewer \<Rightarrow> string \<Rightarrow> bool \<Rightarrow> source \<Rightarrow> ('a tool, unit) act" where
  "print_parser_token W V token_path silent input =
     (if silent then ret ()
      else if 2 ^ 32 \<le> length (source_text input) then throw Bad_numeric_cast
      else if \<not> source_good input
      then throw (Interpreter_exception ''Unable to open the file due to malloc() failure'')
      else print_listing (file_text W token_path) (get_parser_tokens (lex_script V (source_text input))))"

definition print_walker_token ::
  "boost \<Rightarrow> 'a antlr \<Rightarrow> 'a viewer \<Rightarrow> string \<Rightarrow> bool \<Rightarrow> source \<Rightarrow> ('a tool, unit) act" where
  "print_walker_token B W V token_path silent input =
     (if silent then ret ()
      else andthen (query (\<lambda>_. ast_of_stream B W (source_text input) Parser_start True)) (\<lambda>ast.
        print_listing (file_text W token_path) (get_walker_tokens (node_stream V ast))))"

definition file_source :: "'a antlr \<Rightarrow> string \<Rightarrow> source" where
  "file_source W path = (case file_text W path of
       None \<Rightarrow> \<lparr>source_text = [], source_good = False\<rparr>
     | Some s \<Rightarrow> \<lparr>source_text = s, source_good = True\<rparr>)"

definition print_files ::
  "'a antlr \<Rightarrow> string list \<Rightarrow> bool \<Rightarrow> (source \<Rightarrow> ('a tool, unit) act) \<Rightarrow> ('a tool, unit) act" where
  "print_files W files print_name printer = for_each files (\<lambda>path.
     andthen (if print_name then print_line (''Interpreting '' @ path) else ret ())
       (\<lambda>_. printer (file_source W path)))"

definition print_expression :: "string \<Rightarrow> (source \<Rightarrow> ('a tool, unit) act) \<Rightarrow> ('a tool, unit) act" where
  "print_expression expr printer = printer \<lparr>source_text = expr, source_good = True\<rparr>"

definition print_cin :: "string \<Rightarrow> (source \<Rightarrow> ('a tool, unit) act) \<Rightarrow> ('a tool, unit) act" where
  "print_cin standard_input printer = printer \<lparr>source_text = standard_input, source_good = True\<rparr>"

record printer_options =
  po_help :: bool
  po_files :: "string list option"
  po_expr :: "string option"
  po_dot :: bool
  po_token :: "string option"
  po_walker_token :: "string option"
  po_name :: bool
  po_silent :: bool

definition select_printer ::
  "boost \<Rightarrow> 'a antlr \<Rightarrow> 'a viewer \<Rightarrow> printer_options \<Rightarrow> source \<Rightarrow> ('a tool, unit) act" where
  "select_printer B W V vm = (case po_token vm of
       Some path \<Rightarrow> print_parser_token W V path (po_silent vm)
     | None \<Rightarrow> (case po_walker_token vm of
         Some path \<Rightarrow> print_walker_token B W V path (po_silent vm)
       | None \<Rightarrow> print_ast B W V (po_silent vm) (po_dot vm)))"

definition ast_printer_main ::
  "boost \<Rightarrow> 'a antlr \<Rightarrow> 'a viewer \<Rightarrow> string \<Rightarrow> string \<Rightarrow> printer_options \<Rightarrow> ('a tool, int) act" where
  \<comment> \<open>the description of the options and the content of the standard input are arguments\<close>
  "ast_printer_main B W V desc standard_input vm =
     (if po_help vm then andthen (print_line desc) (\<lambda>_. ret 1)
      else catch_interpreter
        (andthen (case po_files vm of
             Some files \<Rightarrow> print_files W files (po_name vm) (select_printer B W V vm)
           | None \<Rightarrow> (case po_expr vm of
               Some expr \<Rightarrow> print_expression expr (select_printer B W V vm)
             | None \<Rightarrow> print_cin standard_input (select_printer B W V vm))) (\<lambda>_. ret 0))
        (\<lambda>message. andthen (if po_silent vm then ret () else complain_line message) (\<lambda>_. ret 1)))"

end
