(* ===== verification/Tools_Laws.thy ===== *)
theory Tools_Laws
  imports Ast_Printer Step_Relation
begin

text \<open>
  Properties of the programs around the library: the files and directories of the metadata cache,
  and the token maps of the tree printer.
\<close>

section \<open>The metadata cache\<close>

definition cache_step :: "instruo_settings \<Rightarrow> 'a tool \<Rightarrow> 'a tool \<Rightarrow> bool" where
  \<comment> \<open>no file or directory disappears, and every file that is new or different is in a directory that is there\<close>
  "cache_step S s t \<longleftrightarrow> directories s \<subseteq> directories t \<and> dom (cache_files s) \<subseteq> dom (cache_files t) \<and>
     (\<forall>p. cache_files t p \<noteq> cache_files s p \<longrightarrow> path_dirname S p \<in> directories t)"

interpretation cache: preorder_relation "cache_step S" for S
proof
  show "cache_step S s s" for s by (simp add: cache_step_def)
  show "cache_step S s u" if "cache_step S s t" "cache_step S t u" for s t u
    using that unfolding cache_step_def by (metis subset_iff)
qed

definition only_uncaught :: "('s, 'r) act \<Rightarrow> bool" where
  \<comment> \<open>the exceptions that leave the action are none that a handler for \<open>interpreter_exception\<close> catches\<close>
  "only_uncaught m \<longleftrightarrow> (\<forall>s e. fst (m s) = Inl e \<longrightarrow> what e = None)"

lemma only_uncaught_intros:
  "only_uncaught (ret x)" "only_uncaught (modify g)"
  "only_uncaught m \<Longrightarrow> (\<And>x. only_uncaught (f x)) \<Longrightarrow> only_uncaught (andthen m f)"
  "(\<And>x. only_uncaught (h x)) \<Longrightarrow> only_uncaught (catch_interpreter n h)"
  by (auto simp: only_uncaught_def andthen_app catch_interpreter_def split: sum.splits prod.splits option.splits)

lemma obeys_catch:
  "obeys (cache_step S) m \<Longrightarrow> (\<And>x. obeys (cache_step S) (h x)) \<Longrightarrow>
     obeys (cache_step S) (catch_interpreter m h)"
  by (auto simp: obeys_def catch_interpreter_def cache.R_refl split: sum.split prod.split option.split)
    (metis cache.R_trans snd_conv)+

lemma obeys_lines:
  "obeys (cache_step S) (print_line s)" "obeys (cache_step S) (complain_line s)"
  "obeys (cache_step S) (run_library f)" "obeys (cache_step S) (announce S category)"
  by (auto simp: obeys_def print_line_def complain_line_def run_library_def announce_def cache_step_def
      split: prod.split)

lemma obeys_write_entry: "obeys (cache_step S) (write_entry B S out)"
  unfolding write_entry_def
  by (rule cache.obeys_andthen[OF cache.obeys_query])
    (auto simp: obeys_def cache_step_def split: prod.split)

lemma obeys_generate_entry: "obeys (cache_step S) (generate_entry B W S id')"
  unfolding generate_entry_def
  by (intro obeys_catch cache.obeys_andthen obeys_lines obeys_write_entry)

lemma worker_step: "obeys (cache_step S) (worker B W S old_cat ids) \<and> only_uncaught (worker B W S old_cat ids)"
proof (induction ids arbitrary: old_cat)
  case Nil
  then show ?case unfolding worker.simps by (intro conjI cache.obeys_ret only_uncaught_intros)
next
  case (Cons id' ids)
  have "only_uncaught (generate_entry B W S id')" "only_uncaught (announce S c)" for c
    unfolding generate_entry_def announce_def complain_line_def print_line_def
    by (intro only_uncaught_intros)+
  with Cons show ?case
    by (auto intro!: cache.obeys_andthen obeys_if only_uncaught_intros cache.obeys_ret obeys_lines
        obeys_generate_entry)
qed


text \<open>The path of the entry comes from the variables after the script has run: a script that assigns
  \<open>PN\<close> writes the entry of another package.\<close>

lemma entry_path_from_script:
  "variables ''CATEGORY'' = Some [c] \<Longrightarrow> variables ''PN'' = Some [n] \<Longrightarrow> variables ''PVR'' = Some [v] \<Longrightarrow>
     entry_path S variables = Inr (output_directory S @ ''/'' @ c @ ''/'' @ n @ ''-'' @ v)"
  by (simp add: entry_path_def value_of_def first_value_def)

section \<open>Token maps\<close>

lemma decimal_digits: "set (decimal n) \<subseteq> set ''0123456789''"
proof -
  have "parse_digits acc s = Some m \<Longrightarrow> set s \<subseteq> set ''0123456789''" for acc s m
  proof (induction acc s rule: parse_digits.induct)
    case (2 acc c cs)
    then show ?case by (auto simp: digit_value_def split: option.splits if_splits)
  qed simp
  from this[OF parse_digits_decimal] show ?thesis .
qed

lemma parse_int32_show:
  assumes "- (2 ^ 31) \<le> k" "k < 2 ^ 31"
  shows "parse_int32 (show_int k @ newline # rest) = Some (k, newline # rest)"
proof -
  have all: "\<forall>c \<in> set (decimal n). c \<in> set ''0123456789''" for n using decimal_digits by blast
  have digits: "leading_digits (decimal n @ newline # rest) = decimal n" for n
    using takeWhile_append2[of "decimal n" "\<lambda>c. c \<in> set ''0123456789''" "newline # rest"] all[of n]
    by (simp add: newline_def)
  have value': "parse_decimal (decimal n) = Some n" for n
    by (simp add: parse_decimal_def decimal_nonempty parse_digits_decimal)
  show ?thesis
  proof (cases "k < 0")
    case True
    then show ?thesis
      using assms by (simp add: parse_int32_def show_int_def digits value' Let_def del: leading_digits.simps)
  next
    case False
    obtain c cs where d: "decimal (nat k) = c # cs" using decimal_nonempty by (cases "decimal (nat k)") auto
    have "c \<noteq> CHR ''-''" "c \<noteq> CHR ''+''" using all[of "nat k"] d by auto
    then show ?thesis
      using False assms digits[of "nat k"] value'[of "nat k"] d
      by (simp add: parse_int32_def show_int_def Let_def del: leading_digits.simps)
  qed
qed

definition token_line :: "string \<times> int \<Rightarrow> string" where
  "token_line = (\<lambda>(name, k). name @ ''='' @ show_int k @ [newline])"

definition token_entry :: "string \<times> int \<Rightarrow> bool" where
  "token_entry = (\<lambda>(name, k). name \<noteq> [] \<and> CHR ''='' \<notin> set name \<and> - (2 ^ 31) \<le> k \<and> k < 2 ^ 31)"

lemma parse_token_line_shown:
  assumes "token_entry e"
  shows "parse_token_line (token_line e @ rest) = Some (e, newline # rest)"
proof -
  obtain name k where e: "e = (name, k)" by (cases e)
  have name: "name \<noteq> []" "\<forall>c \<in> set name. c \<noteq> CHR ''=''" using assms by (auto simp: e token_entry_def)
  have "takeWhile (\<lambda>c. c \<noteq> CHR ''='') (token_line e @ rest) = name"
    "dropWhile (\<lambda>c. c \<noteq> CHR ''='') (token_line e @ rest) = CHR ''='' # show_int k @ newline # rest"
    using name(2) by (simp_all add: e token_line_def takeWhile_append2 dropWhile_append2)
  then show ?thesis
    using name(1) assms by (simp add: parse_token_line_def e token_entry_def parse_int32_show)
qed

lemma parse_token_lines_shown:
  "list_all token_entry es \<Longrightarrow> es \<noteq> [] \<Longrightarrow>
     parse_token_lines (concat (map token_line es)) = Some (es, [newline])"
proof (induction es)
  case (Cons e es)
  have eol: "parse_eol (newline # s) = Some s" for s by (simp add: parse_eol_def newline_def)
  show ?case
  proof (cases es)
    case Nil
    have "parse_token_line [] = None" by (simp add: parse_token_line_def)
    then have "parse_token_lines [] = None" by (subst parse_token_lines.simps) simp
    with Nil Cons.prems parse_token_line_shown[of e "[]"] show ?thesis
      by (subst parse_token_lines.simps) (simp add: eol)
  next
    case (Cons f fs)
    with Cons.IH Cons.prems parse_token_line_shown[of e "concat (map token_line es)"] show ?thesis
      by (subst parse_token_lines.simps) (simp add: eol)
  qed
qed simp

text \<open>A token file with one line \<open>name=number\<close> for each entry, names without an equals sign and
  numbers of 32 bits, is read as exactly these entries, and if the numbers are distinct then
  each token is shown by its name. The file must end with an end of line, and be there.\<close>

theorem token_map_roundtrip:
  assumes "list_all token_entry es" "es \<noteq> []"
  shows "build_token_map (Some (concat (map token_line es))) = Some es \<and>
    (distinct (map snd es) \<longrightarrow> (\<forall>(name, k) \<in> set es. 0 \<le> k \<longrightarrow> token_mapper es (nat k) = name)) \<and>
    build_token_map None = None"
proof (intro conjI impI ballI)
  show "build_token_map (Some (concat (map token_line es))) = Some es"
    using parse_token_lines_shown[OF assms] by (simp add: build_token_map_def parse_eol_def newline_def)
next
  fix e assume "distinct (map snd es)" "e \<in> set es"
  moreover have fst: "map fst (map (\<lambda>(name, n). (n, name)) es) = map snd es" by (induction es) auto
  moreover obtain name k where e: "e = (name, k)" by (cases e)
  ultimately have "map_of (map (\<lambda>(name, n). (n, name)) es) k = Some name"
    by (intro map_of_is_SomeI) (simp only: fst, force)
  then show "case e of (name, k) \<Rightarrow> 0 \<le> k \<longrightarrow> token_mapper es (nat k) = name"
    by (simp add: e token_mapper_def)
next
  show "build_token_map None = None"
    by (simp add: build_token_map_def parse_token_lines.simps[of "[]"] parse_token_line_def)
qed

theorem token_map_roundtrip_witness:
  "build_token_map (Some (concat (map token_line [(''EOL'', 10), (''NAME'', 11)]))) =
     Some [(''EOL'', 10), (''NAME'', 11)] \<and> token_mapper [(''EOL'', 10), (''NAME'', 11)] 11 = ''NAME''"
  using token_map_roundtrip[of "[(''EOL'', 10), (''NAME'', 11)]"] by (simp add: token_entry_def)

end
