(* ===== verification/Lexer.thy ===== *)
theory Lexer
  imports Prelude
begin

text \<open>
  bashast/bashast.g, the lexer rules: the text of a script as a sequence of tokens. A token of a rule
  that matches one fixed text, words apart, is \<open>Sym\<close> of that text (\<open>Sym ''&&''\<close> is \<open>LOGICAND\<close>), a
  reserved word is \<open>Keyword\<close> of the word, and the other rules have a constructor each. The
  lexer that ANTLR generates looks ahead as far as it must to tell the rules apart and takes the
  one that matches more, the first of them among equals. A text that no rule matches makes it report
  an error on standard error and drop a character; that recovery is not modelled, the result is then \<open>None\<close>.
\<close>

section \<open>Tokens\<close>

datatype lexeme =
    Sym string                   \<comment> \<open>the rules with a fixed text that is no word, and \<open>UNDERSCORE\<close>\<close>
  | Keyword string               \<comment> \<open>\<open>CASE\<close> to \<open>WHILE\<close>, \<open>TIME\<close>, \<open>LOCAL\<close>, \<open>EXPORT\<close>, \<open>DECLARE\<close>\<close>
  | Name_token string            \<comment> \<open>\<open>NAME\<close>: two characters or more\<close>
  | Letter_token string          \<comment> \<open>\<open>LETTER\<close>\<close>
  | Digit_token string           \<comment> \<open>\<open>DIGIT\<close>\<close>
  | Number_token string          \<comment> \<open>\<open>NUMBER\<close>: two digits or more\<close>
  | Blank_token string           \<comment> \<open>\<open>BLANK\<close>\<close>
  | Eol_token string             \<comment> \<open>\<open>EOL\<close>\<close>
  | Escape string                \<comment> \<open>\<open>ESC\<close> and the tokens \<open>ESC_...\<close>\<close>
  | Single_quoted_token string   \<comment> \<open>\<open>SINGLE_QUOTED_STRING_TOKEN\<close>\<close>
  | Command_paren string         \<comment> \<open>\<open>COMMAND_SUBSTITUTION_PAREN\<close>\<close>
  | Command_tick string          \<comment> \<open>\<open>COMMAND_SUBSTITUTION_TICK\<close>\<close>
  | Other_token string           \<comment> \<open>\<open>OTHER\<close>\<close>

primrec lexeme_text :: "lexeme \<Rightarrow> string" where
  "lexeme_text (Sym s) = s"
| "lexeme_text (Keyword s) = s"
| "lexeme_text (Name_token s) = s"
| "lexeme_text (Letter_token s) = s"
| "lexeme_text (Digit_token s) = s"
| "lexeme_text (Number_token s) = s"
| "lexeme_text (Blank_token s) = s"
| "lexeme_text (Eol_token s) = s"
| "lexeme_text (Escape s) = s"
| "lexeme_text (Single_quoted_token s) = s"
| "lexeme_text (Command_paren s) = s"
| "lexeme_text (Command_tick s) = s"
| "lexeme_text (Other_token s) = s"

definition reserved_words :: "string list" where
  "reserved_words = [''case'', ''do'', ''done'', ''elif'', ''else'', ''esac'', ''fi'', ''for'', ''if'', ''in'',
     ''select'', ''then'', ''until'', ''while'', ''time'', ''local'', ''export'', ''declare'']"

definition fixed_texts :: "string list" where
  \<comment> \<open>the longer ones first\<close>
  "fixed_texts = [''&>>'', ''<<<'',
     ''(('', ''..'', ''**'', ''<<'', ''>>'', ''&<'', ''&>'', '';;'', ''%%'', ''&&'', ''||'',
     ''!'', ''{'', ''}'', '')'', ''('', ''['', '']'', ''@'', ''.'', ''*'', ''='', ''-'', ''+'', ''&'', ''^'',
     ''<'', ''>'', '';'', ''|'', '','', ''~'', ''#'', ''%'', ''/'', '':'', ''?'']"

section \<open>Characters\<close>

abbreviation backslash_char :: char where "backslash_char \<equiv> CHR 0x5C"
abbreviation quote_char :: char where "quote_char \<equiv> CHR 0x27"
abbreviation dquote_char :: char where "dquote_char \<equiv> CHR 0x22"
abbreviation tick_char :: char where "tick_char \<equiv> CHR 0x60"
abbreviation tab_char :: char where "tab_char \<equiv> CHR 0x09"
abbreviation return_char :: char where "return_char \<equiv> CHR 0x0D"

definition is_digit :: "char \<Rightarrow> bool" where
  "is_digit c \<longleftrightarrow> CHR ''0'' \<le> c \<and> c \<le> CHR ''9''"

definition letter_char :: "char \<Rightarrow> bool" where
  \<comment> \<open>the rule \<open>LETTER\<close>\<close>
  "letter_char c \<longleftrightarrow> (CHR ''A'' \<le> c \<and> c \<le> CHR ''Z'') \<or> (CHR ''a'' \<le> c \<and> c \<le> CHR ''z'')"

definition is_word_char :: "char \<Rightarrow> bool" where
  "is_word_char c \<longleftrightarrow> letter_char c \<or> is_digit c \<or> c = CHR ''_''"

section \<open>The rules\<close>

text \<open>Each function gives the length of the text that is matched, and the token; \<open>None\<close> in place of a token is one
  on the hidden channel, which the parser does not see.\<close>

type_synonym scanned = "(nat \<times> lexeme option) option"

fun eol_length :: "string \<Rightarrow> nat" where
  \<comment> \<open>the rule \<open>EOL\<close>: line ends, each with a carriage return before it or not\<close>
  "eol_length (c # d # s) =
     (if c = newline then 1 + eol_length (d # s)
      else if c = return_char \<and> d = newline then 2 + eol_length s else 0)"
| "eol_length [c] = (if c = newline then 1 else 0)"
| "eol_length [] = 0"

definition comment_or :: "bool \<Rightarrow> string \<Rightarrow> nat \<Rightarrow> lexeme \<Rightarrow> scanned" where
  \<comment> \<open>the rule \<open>COMMENT\<close>, when it goes on after the \<open>n\<close> characters of a \<open>BLANK\<close> or \<open>EOL\<close>\<close>
  "comment_or double_quoted s n t =
     (if \<not> double_quoted \<and> take 1 (drop n s) = ''#''
      then Some (n + 1 + length (takeWhile (\<lambda>c. c \<noteq> newline \<and> c \<noteq> return_char) (drop (n + 1) s)), None)
      else Some (n, Some t))"

definition scan_blank :: "bool \<Rightarrow> string \<Rightarrow> scanned" where
  "scan_blank double_quoted s =
     (let b = takeWhile (\<lambda>c. c = CHR '' '' \<or> c = tab_char) s
      in comment_or double_quoted s (length b) (Blank_token b))"

definition scan_eol :: "bool \<Rightarrow> string \<Rightarrow> scanned" where
  "scan_eol double_quoted s = comment_or double_quoted s (eol_length s) (Eol_token (take (eol_length s) s))"

definition scan_word :: "string \<Rightarrow> scanned" where
  "scan_word s =
     (let w = takeWhile is_word_char s
      in Some (length w, Some (
           if length w = 1 then if w = ''_'' then Sym w else Letter_token w
           else if w \<in> set reserved_words then Keyword w else Name_token w)))"

definition scan_number :: "string \<Rightarrow> scanned" where
  "scan_number s =
     (let w = takeWhile is_digit s
      in Some (length w, Some (if length w = 1 then Digit_token w else Number_token w)))"

function continue_length :: "string \<Rightarrow> nat" where
  \<comment> \<open>the rule \<open>CONTINUE_LINE\<close>\<close>
  "continue_length s =
     (if take 1 s = [backslash_char] \<and> 0 < eol_length (drop 1 s)
      then 1 + eol_length (drop 1 s) + continue_length (drop (1 + eol_length (drop 1 s)) s) else 0)"
  by auto

termination
proof (relation "measure length")
  show "(drop (1 + eol_length (drop 1 s)) s, s) \<in> measure length"
    if "take 1 s = [backslash_char] \<and> 0 < eol_length (drop 1 s)" for s
    using that by (cases s) auto
qed simp

definition scan_escape :: "bool \<Rightarrow> string \<Rightarrow> scanned" where
  "scan_escape double_quoted s =
     (if 0 < continue_length s then Some (continue_length s, None)
      else case drop 1 s of
        c # _ \<Rightarrow>
          if c \<in> set ([dquote_char, tick_char] @ ''()[]$<>'') \<or> c = quote_char \<and> \<not> double_quoted
          then Some (2, Some (Escape [backslash_char, c])) else Some (1, Some (Escape [backslash_char]))
      | [] \<Rightarrow> Some (1, Some (Escape [backslash_char])))"

definition single_quoted_length :: "string \<Rightarrow> nat option" where
  \<comment> \<open>the rule \<open>SINGLE_QUOTED_STRING_TOKEN\<close>: up to the next quote\<close>
  "single_quoted_length s =
     (let body = takeWhile (\<lambda>c. c \<noteq> quote_char) (drop 1 s)
      in if length body + 1 < length s then Some (length body + 2) else None)"

function paren_length :: "bool \<Rightarrow> nat \<Rightarrow> string \<Rightarrow> nat option" where
  \<comment> \<open>the loop of \<open>COMMAND_SUBSTITUTION_PAREN\<close> with its \<open>paren_level\<close>, to the closing parenthesis or
    to the end of the text\<close>
  "paren_length double_quoted level s = (case s of
       [] \<Rightarrow> Some 0
     | c # s' \<Rightarrow>
         if c = backslash_char \<and> take 1 s' \<in> {''('', '')''}
         then map_option ((+) 2) (paren_length double_quoted level (drop 1 s'))
         else if c = CHR ''('' then map_option Suc (paren_length double_quoted (level + 1) s')
         else if c = CHR '')''
         then if level = 1 then Some 1 else map_option Suc (paren_length double_quoted (level - 1) s')
         else if c = quote_char \<and> \<not> double_quoted
         then (case single_quoted_length s of
                 Some (Suc n) \<Rightarrow> map_option ((+) (Suc n)) (paren_length double_quoted level (drop n s'))
               | _ \<Rightarrow> None)
         else map_option Suc (paren_length double_quoted level s'))"
  by pat_completeness auto

termination by (relation "measure (\<lambda>(d, l, s). length s)") auto

definition scan_dollar :: "bool \<Rightarrow> string \<Rightarrow> scanned" where
  "scan_dollar double_quoted s =
     (if take 1 (drop 1 s) = ''('' \<and> take 1 (drop 2 s) \<noteq> ''(''
      then if drop 2 s = [] then None
           else map_option (\<lambda>n. (n + 2, Some (Command_paren (take (n + 2) s))))
                  (paren_length double_quoted 1 (drop 2 s))
      else Some (1, Some (Sym ''$'')))"

fun tick_length :: "string \<Rightarrow> nat option" where
  \<comment> \<open>the end of \<open>COMMAND_SUBSTITUTION_TICK\<close>: the loop \<open>.+\<close> stops at a character other than
    a backslash that a backquote follows\<close>
  "tick_length (c # d # s) =
     (if c \<noteq> backslash_char \<and> d = tick_char then Some 2 else map_option Suc (tick_length (d # s)))"
| "tick_length _ = None"

definition scan_tick :: "string \<Rightarrow> scanned" where
  \<comment> \<open>the loop runs at least once\<close>
  "scan_tick s =
     (if drop 1 s = [] then Some (1, Some (Sym [tick_char]))
      else if tick_length (drop 1 s) = Some 2 then None
      else map_option (\<lambda>n. (n + 1, Some (Command_tick (take (n + 1) s)))) (tick_length (drop 1 s)))"

definition scan_quote :: "bool \<Rightarrow> string \<Rightarrow> scanned" where
  "scan_quote double_quoted s =
     (if double_quoted then Some (1, Some (Sym [quote_char]))
      else map_option (\<lambda>n. (n, Some (Single_quoted_token (take n s)))) (single_quoted_length s))"

definition scan_fixed :: "string \<Rightarrow> scanned" where
  "scan_fixed s = (case find (\<lambda>t. take (length t) s = t) fixed_texts of
       Some t \<Rightarrow> Some (length t, Some (Sym t))
     | None \<Rightarrow> Some (1, Some (Other_token (take 1 s))))"

definition scan :: "bool \<Rightarrow> string \<Rightarrow> scanned" where
  "scan double_quoted s =
     (let c = hd s
      in if c = CHR '' '' \<or> c = tab_char then scan_blank double_quoted s
         else if 0 < eol_length s then scan_eol double_quoted s
         else if letter_char c \<or> c = CHR ''_'' then scan_word s
         else if is_digit c then scan_number s
         else if c = backslash_char then scan_escape double_quoted s
         else if c = CHR ''$'' then scan_dollar double_quoted s
         else if c = tick_char then scan_tick s
         else if c = quote_char then scan_quote double_quoted s
         else if c = dquote_char then Some (1, Some (Sym [dquote_char]))
         else scan_fixed s)"

section \<open>The token stream\<close>

function tokenize :: "bool \<Rightarrow> string \<Rightarrow> lexeme list option" where
  \<comment> \<open>the tokens on the default channel; \<open>double_quoted\<close> is the state of the lexer, which each \<open>DQUOTE\<close> changes
    (its test for a backslash before the quote never fails, since such a quote belongs to \<open>ESC_DQUOTE\<close>)\<close>
  "tokenize double_quoted s =
     (if s = [] then Some []
      else case scan double_quoted s of
        Some (Suc n, t) \<Rightarrow>
          map_option (\<lambda>ts. (case t of Some t' \<Rightarrow> t' # ts | None \<Rightarrow> ts))
            (tokenize (if t = Some (Sym [dquote_char]) then \<not> double_quoted else double_quoted) (drop (Suc n) s))
      | _ \<Rightarrow> None)"
  by pat_completeness auto

termination by (relation "measure (\<lambda>(d, s). length s)") (auto simp: neq_Nil_conv)

declare tokenize.simps [simp del] paren_length.simps [simp del] continue_length.simps [simp del]

end
