(* ===== verification/Lexer_Laws.thy ===== *)
theory Lexer_Laws
  imports Lexer
begin

text \<open>
  The lexer loses nothing: the tokens are the consecutive pieces of the text, but for comments and continuation
  lines, and each has the form of its rule.
\<close>

section \<open>The form of a token\<close>

definition blank_char :: "char \<Rightarrow> bool" where
  "blank_char c \<longleftrightarrow> c = CHR '' '' \<or> c = tab_char"

definition eol_char :: "char \<Rightarrow> bool" where
  "eol_char c \<longleftrightarrow> c = newline \<or> c = return_char"

fun token_form :: "lexeme \<Rightarrow> bool" where
  "token_form (Sym s) \<longleftrightarrow> s \<in> set fixed_texts \<or> s \<in> {''_'', ''$'', [quote_char], [dquote_char], [tick_char]}"
| "token_form (Keyword s) \<longleftrightarrow> s \<in> set reserved_words"
| "token_form (Name_token s) \<longleftrightarrow> 2 \<le> length s \<and> (\<forall>c\<in>set s. is_word_char c) \<and> \<not> is_digit (hd s) \<and> s \<notin> set reserved_words"
| "token_form (Letter_token s) \<longleftrightarrow> (\<exists>c. s = [c] \<and> letter_char c)"
| "token_form (Digit_token s) \<longleftrightarrow> (\<exists>c. s = [c] \<and> is_digit c)"
| "token_form (Number_token s) \<longleftrightarrow> 2 \<le> length s \<and> (\<forall>c\<in>set s. is_digit c)"
| "token_form (Blank_token s) \<longleftrightarrow> s \<noteq> [] \<and> (\<forall>c\<in>set s. blank_char c)"
| "token_form (Eol_token s) \<longleftrightarrow> s \<noteq> [] \<and> (\<forall>c\<in>set s. eol_char c)"
| "token_form (Escape s) \<longleftrightarrow> s = [backslash_char] \<or> (\<exists>c\<in>set ([quote_char, dquote_char, tick_char] @ ''()[]$<>''). s = [backslash_char, c])"
| "token_form (Single_quoted_token s) \<longleftrightarrow> (\<exists>body. s = quote_char # body @ [quote_char] \<and> quote_char \<notin> set body)"
| "token_form (Command_paren s) \<longleftrightarrow> take 2 s = ''$('' \<and> 3 \<le> length s"
| "token_form (Command_tick s) \<longleftrightarrow> 3 \<le> length s \<and> hd s = tick_char \<and> last s = tick_char"
| "token_form (Other_token s) \<longleftrightarrow> length s = 1"

definition hidden_form :: "string \<Rightarrow> bool" where
  \<comment> \<open>a comment with the white space before it, or continuation lines\<close>
  "hidden_form p \<longleftrightarrow>
     (\<exists>b c. p = b @ CHR ''#'' # c \<and> b \<noteq> [] \<and> ((\<forall>x\<in>set b. blank_char x) \<or> (\<forall>x\<in>set b. eol_char x)) \<and> (\<forall>x\<in>set c. \<not> eol_char x)) \<or>
     (p \<noteq> [] \<and> (\<forall>x\<in>set p. x = backslash_char \<or> eol_char x))"

definition piece_form :: "string \<times> lexeme option \<Rightarrow> bool" where
  "piece_form = (\<lambda>(p, t). case t of Some t' \<Rightarrow> lexeme_text t' = p \<and> token_form t' | None \<Rightarrow> hidden_form p)"

section \<open>One token\<close>

definition scans_piece :: "string \<Rightarrow> scanned \<Rightarrow> bool" where
  "scans_piece s r \<longleftrightarrow> (\<forall>n t. r = Some (n, t) \<longrightarrow> piece_form (take n s, t))"

lemma scansI: "take n s = w \<Longrightarrow> piece_form (w, t) \<Longrightarrow> scans_piece s (Some (n, t))"
  by (simp add: scans_piece_def)

lemma eol_length_le: "eol_length s \<le> length s"
  by (induction s rule: eol_length.induct) auto

lemma eol_length_chars: "\<forall>c\<in>set (take (eol_length s) s). eol_char c"
  by (induction s rule: eol_length.induct) (auto simp: eol_char_def)

lemma takeWhile_piece: "take (length (takeWhile P s)) s = takeWhile P s"
  by (metis takeWhile_eq_take)

lemma comment_piece:
  assumes "token_form t" "lexeme_text t = take n s" "n \<le> length s" "take n s \<noteq> []"
    and "(\<forall>c\<in>set (take n s). blank_char c) \<or> (\<forall>c\<in>set (take n s). eol_char c)"
  shows "scans_piece s (comment_or d s n t)"
proof (cases "\<not> d \<and> take 1 (drop n s) = ''#''")
  case True
  let ?c = "takeWhile (\<lambda>c. c \<noteq> newline \<and> c \<noteq> return_char) (drop (n + 1) s)"
  obtain xs where xs: "drop n s = CHR ''#'' # xs" using True by (cases "drop n s") auto
  then have "drop (n + 1) s = xs" by (metis add.commute drop_drop drop_eq_Nil drop_Suc_Cons drop0 One_nat_def)
  then have "take (n + (1 + length ?c)) s = take n s @ CHR ''#'' # ?c"
    by (simp only: take_add xs) (simp add: takeWhile_piece)
  then have "take (n + 1 + length ?c) s = take n s @ CHR ''#'' # ?c" by (simp only: add.assoc)
  moreover have "\<forall>x\<in>set ?c. \<not> eol_char x" by (auto simp: eol_char_def dest: set_takeWhileD)
  ultimately have "hidden_form (take (n + 1 + length ?c) s)" unfolding hidden_form_def using assms(4,5) by blast
  with True show ?thesis by (simp add: scans_piece_def comment_or_def piece_form_def)
qed (use assms in \<open>auto simp: scans_piece_def comment_or_def piece_form_def\<close>)

lemma blank_piece: "hd s = CHR '' '' \<or> hd s = tab_char \<Longrightarrow> s \<noteq> [] \<Longrightarrow> scans_piece s (scan_blank d s)"
  unfolding scan_blank_def Let_def
  by (rule comment_piece)
    (auto simp: takeWhile_piece length_takeWhile_le blank_char_def neq_Nil_conv dest: set_takeWhileD)

lemma eol_piece: "0 < eol_length s \<Longrightarrow> scans_piece s (scan_eol d s)"
  unfolding scan_eol_def
  by (rule comment_piece) (use eol_length_chars[of s] eol_length_le[of s] in \<open>auto\<close>)


lemma word_piece:
  assumes "s = c # s'" "is_word_char c" "\<not> is_digit c"
  shows "scans_piece s (scan_word s)"
proof -
  let ?w = "takeWhile is_word_char s"
  have w: "?w = c # takeWhile is_word_char s'" "\<forall>x\<in>set ?w. is_word_char x"
    using assms by (auto dest: set_takeWhileD)
  have "length ?w = 1 \<Longrightarrow> ?w = [c]" using w by simp
  moreover have "c = CHR ''_'' \<or> letter_char c" using assms by (auto simp: is_word_char_def)
  moreover have "length ?w \<noteq> 1 \<Longrightarrow> 2 \<le> length ?w" using w(1) by (cases "takeWhile is_word_char s'") simp_all
  ultimately show ?thesis unfolding scan_word_def Let_def using w assms(3)
    by (intro scansI[OF takeWhile_piece]) (auto simp: piece_form_def)
qed

lemma number_piece:
  assumes "s = c # s'" "is_digit c"
  shows "scans_piece s (scan_number s)"
proof -
  let ?w = "takeWhile is_digit s"
  have w: "?w = c # takeWhile is_digit s'" "\<forall>x\<in>set ?w. is_digit x"
    using assms by (auto dest: set_takeWhileD)
  moreover have "length ?w \<noteq> 1 \<Longrightarrow> 2 \<le> length ?w" using w(1) by (cases "takeWhile is_digit s'") simp_all
  ultimately show ?thesis unfolding scan_number_def Let_def using assms(2)
    by (intro scansI[OF takeWhile_piece]) (auto simp: piece_form_def)
qed

lemma continue_chars: "\<forall>x\<in>set (take (continue_length s) s). x = backslash_char \<or> eol_char x"
proof (induction s rule: continue_length.induct)
  case (1 s)
  show ?case
  proof (cases "take 1 s = [backslash_char] \<and> 0 < eol_length (drop 1 s)")
    case True
    let ?e = "eol_length (drop 1 s)"
    obtain s' where s: "s = backslash_char # s'" using True by (cases s) auto
    have "continue_length s = Suc ?e + continue_length (drop (Suc ?e) s)"
      using True by (subst continue_length.simps) simp
    then have "take (continue_length s) s = take (Suc ?e) s @ take (continue_length (drop (Suc ?e) s)) (drop (Suc ?e) s)"
      by (simp only: take_add)
    moreover have "\<forall>x\<in>set (take (Suc ?e) s). x = backslash_char \<or> eol_char x"
      using eol_length_chars[of s'] s by simp
    moreover have "\<forall>x\<in>set (take (continue_length (drop (Suc ?e) s)) (drop (Suc ?e) s)). x = backslash_char \<or> eol_char x"
      using 1 True by simp
    ultimately show ?thesis by auto
  next
    case False
    then have "continue_length s = 0" by (subst continue_length.simps) simp
    then show ?thesis by simp
  qed
qed

lemma escape_piece:
  assumes "s = backslash_char # s'"
  shows "scans_piece s (scan_escape d s)"
proof (cases "0 < continue_length s")
  case True
  with assms continue_chars[of s] show ?thesis
    by (auto simp: scans_piece_def scan_escape_def piece_form_def hidden_form_def)
next
  case False
  with assms show ?thesis
    by (cases s') (auto simp: scans_piece_def scan_escape_def piece_form_def)
qed

lemma single_quoted_text:
  assumes "s = quote_char # s'" "single_quoted_length s = Some n"
  shows "\<exists>body. take n s = quote_char # body @ [quote_char] \<and> quote_char \<notin> set body"
proof -
  let ?b = "takeWhile (\<lambda>c. c \<noteq> quote_char) s'"
  have n: "n = length ?b + 2" "length ?b < length s'" using assms by (auto simp: single_quoted_length_def Let_def split: if_splits)
  have "dropWhile (\<lambda>c. c \<noteq> quote_char) s' \<noteq> []" using n(2) by (metis append_Nil2 less_irrefl takeWhile_dropWhile_id)
  then obtain q rest where q: "dropWhile (\<lambda>c. c \<noteq> quote_char) s' = q # rest" by (meson list.exhaust)
  then have "q = quote_char" using hd_dropWhile[of "\<lambda>c. c \<noteq> quote_char" s'] by simp
  with q have "s' = ?b @ quote_char # rest" using takeWhile_dropWhile_id[of "\<lambda>c. c \<noteq> quote_char" s'] by simp
  then have "take (length ?b + 1) s' = ?b @ [quote_char]"
    by (metis append_Cons append_Nil append_assoc append_eq_conv_conj length_append_singleton Suc_eq_plus1)
  then have "take n s = quote_char # ?b @ [quote_char]" using n assms(1) by simp
  moreover have "quote_char \<notin> set ?b" by (auto dest: set_takeWhileD)
  ultimately show ?thesis by blast
qed

lemma paren_length_pos: "paren_length d l s = Some n \<Longrightarrow> s \<noteq> [] \<Longrightarrow> 0 < n"
  by (subst (asm) paren_length.simps) (auto split: list.splits if_splits option.splits nat.splits)

lemma dollar_piece:
  assumes "s = CHR ''$'' # s'"
  shows "scans_piece s (scan_dollar d s)"
proof (cases "take 1 s' = ''('' \<and> take 1 (drop 1 s') \<noteq> ''(''")
  case True
  then obtain r where r: "s' = CHR ''('' # r" by (cases s') auto
  show ?thesis
  proof (cases "r = [] \<or> paren_length d 1 r = None")
    case False
    then obtain n where n: "paren_length d 1 r = Some n" "0 < n" "r \<noteq> []" using paren_length_pos by blast
    have "scan_dollar d s = Some (n + 2, Some (Command_paren (take (n + 2) s)))"
      using True r n assms by (simp add: scan_dollar_def)
    moreover have "piece_form (take (n + 2) s, Some (Command_paren (take (n + 2) s)))"
      using n r assms by (cases n; cases r) (simp_all add: piece_form_def)
    ultimately show ?thesis by (simp add: scans_piece_def)
  qed (use True r assms in \<open>auto simp: scan_dollar_def scans_piece_def\<close>)
next
  case False
  with assms have "scan_dollar d s = Some (1, Some (Sym ''$''))" by (auto simp: scan_dollar_def)
  with assms show ?thesis by (simp add: scans_piece_def piece_form_def)
qed

lemma tick_length_end: "tick_length s = Some n \<Longrightarrow> 2 \<le> n \<and> n \<le> length s \<and> s ! (n - 1) = tick_char"
  by (induction s arbitrary: n rule: tick_length.induct) (auto split: if_splits simp: nth_Cons')

lemma tick_piece:
  assumes "s = tick_char # s'"
  shows "scans_piece s (scan_tick s)"
proof (cases "s' = [] \<or> tick_length s' = Some 2 \<or> tick_length s' = None")
  case False
  then obtain n where n: "tick_length s' = Some n" by blast
  with tick_length_end have e: "2 \<le> n" "n \<le> length s'" "s' ! (n - 1) = tick_char" by blast+
  have "scan_tick s = Some (n + 1, Some (Command_tick (take (n + 1) s)))"
    using False n assms by (simp add: scan_tick_def)
  moreover obtain k where k: "n = Suc k" using e(1) by (cases n) auto
  with e have "take n s' = take k s' @ [tick_char]" using take_Suc_conv_app_nth[of k s'] by simp
  then have "last (take (n + 1) s) = tick_char" using assms by simp
  ultimately show ?thesis using e assms by (simp add: scans_piece_def piece_form_def)
qed (use assms in \<open>auto simp: scan_tick_def scans_piece_def piece_form_def\<close>)

lemma quote_piece:
  assumes "s = quote_char # s'"
  shows "scans_piece s (scan_quote d s)"
proof (cases "d \<or> single_quoted_length s = None")
  case False
  with single_quoted_text[OF assms] show ?thesis
    by (auto simp: scan_quote_def scans_piece_def piece_form_def)
qed (use assms in \<open>auto simp: scan_quote_def scans_piece_def piece_form_def\<close>)

lemma fixed_piece: "s \<noteq> [] \<Longrightarrow> scans_piece s (scan_fixed s)"
  by (cases s) (auto simp: scan_fixed_def scans_piece_def piece_form_def find_Some_iff set_conv_nth split: option.splits)

lemma letter_no_digit: "letter_char c \<Longrightarrow> \<not> is_digit c"
  by (auto simp: letter_char_def is_digit_def less_eq_char_def)

lemma scans_if: "(P \<Longrightarrow> scans_piece s a) \<Longrightarrow> (\<not> P \<Longrightarrow> scans_piece s b) \<Longrightarrow> scans_piece s (if P then a else b)"
  by simp

lemma word_start: "letter_char c \<or> c = CHR ''_'' \<Longrightarrow> is_word_char c \<and> \<not> is_digit c"
  using letter_no_digit[of c] by (auto simp: is_word_char_def is_digit_def less_eq_char_def)

lemma scan_piece:
  assumes "s \<noteq> []"
  shows "scans_piece s (scan d s)"
proof -
  obtain c s' where s: "s = c # s'" using assms by (cases s) auto
  then have hd: "hd s = c" by simp
  show ?thesis unfolding scan_def Let_def hd
  proof (intro scans_if)
    assume "c = CHR '' '' \<or> c = tab_char"
    then show "scans_piece s (scan_blank d s)" using blank_piece[of s d] hd assms by blast
  next
    assume "0 < eol_length s"
    then show "scans_piece s (scan_eol d s)" by (rule eol_piece)
  next
    assume "letter_char c \<or> c = CHR ''_''"
    then show "scans_piece s (scan_word s)" using word_piece[OF s] word_start by blast
  next
    assume "is_digit c"
    then show "scans_piece s (scan_number s)" by (rule number_piece[OF s])
  next
    assume "c = backslash_char"
    then show "scans_piece s (scan_escape d s)" using escape_piece s by blast
  next
    assume "c = CHR ''$''"
    then show "scans_piece s (scan_dollar d s)" using dollar_piece s by blast
  next
    assume "c = tick_char"
    then show "scans_piece s (scan_tick s)" using tick_piece s by blast
  next
    assume "c = quote_char"
    then show "scans_piece s (scan_quote d s)" using quote_piece s by blast
  next
    assume "c = dquote_char"
    then show "scans_piece s (Some (1, Some (Sym [dquote_char])))" using s by (simp add: scans_piece_def piece_form_def)
  next
    show "scans_piece s (scan_fixed s)" by (rule fixed_piece[OF assms])
  qed
qed

section \<open>The whole text\<close>

text \<open>C34 (roundtrip): the tokens of a script are its text cut into consecutive pieces: put together again,
  with the comments and continuation lines that the parser does not see, they give the script, character for
  character, and each token has the form of its lexer rule (a name of two characters or more that is no reserved word, a
  number of digits only, a quoted string with its quotes and none inside, and so on).\<close>

theorem tokens_cover_text:
  assumes "tokenize d s = Some ts"
  shows "\<exists>pieces. concat (map fst pieces) = s \<and> List.map_filter snd pieces = ts \<and>
    (\<forall>(p, t)\<in>set pieces. p \<noteq> [] \<and> (case t of Some t' \<Rightarrow> lexeme_text t' = p \<and> token_form t' | None \<Rightarrow> hidden_form p))"
  using assms
proof (induction d s arbitrary: ts rule: tokenize.induct)
  case (1 d s)
  show ?case
  proof (cases "s = []")
    case True
    with 1(2) have "ts = []" by (simp add: tokenize.simps)
    with True show ?thesis by (intro exI[of _ "[]"]) (simp add: map_filter_simps)
  next
    case False
    obtain n t where n: "scan d s = Some (Suc n, t)"
      using 1(2) False by (subst (asm) tokenize.simps) (auto split: option.splits prod.splits nat.splits)
    let ?d = "if t = Some (Sym [dquote_char]) then \<not> d else d"
    obtain us where us: "tokenize ?d (drop (Suc n) s) = Some us" "ts = (case t of Some t' \<Rightarrow> t' # us | None \<Rightarrow> us)"
      using 1(2) False n by (subst (asm) tokenize.simps) auto
    from 1(1)[OF False n refl refl us(1)] obtain ps where ps: "concat (map fst ps) = drop (Suc n) s"
      "List.map_filter snd ps = us"
      "\<forall>(p, t)\<in>set ps. p \<noteq> [] \<and> (case t of Some t' \<Rightarrow> lexeme_text t' = p \<and> token_form t' | None \<Rightarrow> hidden_form p)"
      by blast
    have "piece_form (take (Suc n) s, t)" using scan_piece[OF False, of d] n by (simp add: scans_piece_def)
    with ps us(2) False show ?thesis
      by (intro exI[of _ "(take (Suc n) s, t) # ps"]) (simp add: map_filter_simps piece_form_def split: option.split)
  qed
qed

theorem tokens_cover_text_witness:
  "\<exists>pieces. concat (map fst pieces) = ''a1=$b # c'' \<and>
     List.map_filter snd pieces = [Name_token ''a1'', Sym ''='', Sym ''$'', Letter_token ''b'']"
proof -
  have "tokenize False ''a1=$b # c'' = Some [Name_token ''a1'', Sym ''='', Sym ''$'', Letter_token ''b'']"
    by code_simp
  from tokens_cover_text[OF this] show ?thesis by blast
qed

end
