(* ===== verification/Parsing.thy ===== *)
theory Parsing
  imports Lexer
begin

text \<open>
  The vocabulary of the parser rules of bashast/bashast.g. A rule is a function from the tokens to the trees
  it makes and the tokens that are left; ANTLR lets a rule give several trees without a common
  root, so a rule gives a list of trees. The functions that only read tokens, as \<open>expect\<close>, take what follows
  them in the rule as an argument. Where a rule has alternatives, the generated parser looks ahead as far as it
  must to exclude those that cannot match, and then follows the syntactic predicates of the grammar;
  the model has each choice written out as a test of the tokens ahead. Any error of syntax makes
  \<open>init_parser\<close> throw in the end, so how the parser recovers from it does not matter.
\<close>

section \<open>Trees and results\<close>

datatype node =
    Imaginary string   \<comment> \<open>a token of the section \<open>tokens\<close>, made by a rule\<close>
  | Operator string    \<comment> \<open>an \<open>OP\<close> with the text it was given\<close>
  | Real lexeme        \<comment> \<open>a token of the script\<close>

datatype ptree = Tree node "ptree list"

type_synonym forest = "ptree list"

datatype 'r parsed =
    Parsed 'r "lexeme list"
  | Syntax_error
  | Not_modelled       \<comment> \<open>nesting beyond the bound\<close>

type_synonym 'r parser = "lexeme list \<Rightarrow> 'r parsed"

definition leaf :: "lexeme \<Rightarrow> ptree" where
  "leaf t = Tree (Real t) []"

definition imaginary :: "string \<Rightarrow> forest \<Rightarrow> forest" where
  "imaginary name f = [Tree (Imaginary name) f]"

section \<open>Sequences\<close>

definition fail :: "'r parser" where
  "fail ts = Syntax_error"

definition get :: "'a parser \<Rightarrow> ('a \<Rightarrow> 'b parser) \<Rightarrow> 'b parser" where
  "get p k ts = (case p ts of
       Parsed x ts' \<Rightarrow> k x ts' | Syntax_error \<Rightarrow> Syntax_error | Not_modelled \<Rightarrow> Not_modelled)"

definition next_token :: "(lexeme \<Rightarrow> 'r parser) \<Rightarrow> 'r parser" where
  \<comment> \<open>one token, whatever it is\<close>
  "next_token k ts = (case ts of t # ts' \<Rightarrow> k t ts' | [] \<Rightarrow> Syntax_error)"

definition expect :: "lexeme \<Rightarrow> 'r parser \<Rightarrow> 'r parser" where
  "expect t k = next_token (\<lambda>t'. if t' = t then k else fail)"

definition satisfying :: "(lexeme \<Rightarrow> bool) \<Rightarrow> (lexeme \<Rightarrow> 'r parser) \<Rightarrow> 'r parser" where
  "satisfying P k = next_token (\<lambda>t. if P t then k t else fail)"

fun is_blank :: "lexeme \<Rightarrow> bool" where
  "is_blank (Blank_token s) = True"
| "is_blank _ = False"

fun is_eol :: "lexeme \<Rightarrow> bool" where
  "is_eol (Eol_token s) = True"
| "is_eol _ = False"

definition skip_blank :: "lexeme list \<Rightarrow> lexeme list" where
  \<comment> \<open>\<open>BLANK?\<close>\<close>
  "skip_blank ts = (case ts of t # ts' \<Rightarrow> if is_blank t then ts' else ts | [] \<Rightarrow> [])"

definition skip_wspace :: "lexeme list \<Rightarrow> lexeme list" where
  \<comment> \<open>\<open>wspace?\<close>\<close>
  "skip_wspace = dropWhile (\<lambda>t. is_blank t \<or> is_eol t)"

definition opt_blank :: "'r parser \<Rightarrow> 'r parser" where
  "opt_blank k ts = k (skip_blank ts)"

definition blank :: "'r parser \<Rightarrow> 'r parser" where
  "blank k = satisfying is_blank (\<lambda>_. k)"

definition opt_wspace :: "'r parser \<Rightarrow> 'r parser" where
  "opt_wspace k ts = k (skip_wspace ts)"

definition wspace :: "'r parser \<Rightarrow> 'r parser" where
  \<comment> \<open>the rule \<open>wspace\<close>\<close>
  "wspace k = satisfying (\<lambda>t. is_blank t \<or> is_eol t) (\<lambda>_. opt_wspace k)"

definition all_blanks :: "'r parser \<Rightarrow> 'r parser" where
  \<comment> \<open>\<open>BLANK*\<close>\<close>
  "all_blanks k ts = k (dropWhile is_blank ts)"

section \<open>Choices and loops\<close>

definition looking_at :: "(lexeme \<Rightarrow> bool) list \<Rightarrow> lexeme list \<Rightarrow> bool" where
  "looking_at Ps ts \<longleftrightarrow> length Ps \<le> length ts \<and> list_all2 (\<lambda>P t. P t) Ps (take (length Ps) ts)"

definition sees :: "lexeme list \<Rightarrow> lexeme list \<Rightarrow> bool" where
  \<comment> \<open>these tokens are ahead\<close>
  "sees as ts \<longleftrightarrow> take (length as) ts = as"

definition either :: "(lexeme list \<Rightarrow> bool) \<Rightarrow> 'r parser \<Rightarrow> 'r parser \<Rightarrow> 'r parser" where
  "either P p q ts = (if P ts then p ts else q ts)"

definition if_matches :: "'a parser \<Rightarrow> 'r parser \<Rightarrow> 'r parser \<Rightarrow> 'r parser" where
  \<comment> \<open>a syntactic predicate that is a rule\<close>
  "if_matches p q r ts = (case p ts of
       Parsed _ _ \<Rightarrow> q ts | Syntax_error \<Rightarrow> r ts | Not_modelled \<Rightarrow> Not_modelled)"

primrec repeat_while :: "nat \<Rightarrow> (lexeme list \<Rightarrow> bool) \<Rightarrow> ('a \<Rightarrow> 'a parser) \<Rightarrow> 'a \<Rightarrow> 'a parser" where
  "repeat_while 0 P body x ts = Parsed x ts"
| "repeat_while (Suc n) P body x ts = (if P ts then get (body x) (repeat_while n P body) ts else Parsed x ts)"

definition repeating :: "(lexeme list \<Rightarrow> bool) \<Rightarrow> ('a \<Rightarrow> 'a parser) \<Rightarrow> 'a \<Rightarrow> 'a parser" where
  \<comment> \<open>the loop \<open>( ... )*\<close>, entered as long as the test of the tokens ahead holds; each round takes a
    token, so the number of tokens bounds the rounds\<close>
  "repeating P body x ts = repeat_while (length ts) P body x ts"

definition many :: "(lexeme list \<Rightarrow> bool) \<Rightarrow> forest parser \<Rightarrow> forest parser" where
  "many P p = repeating P (\<lambda>f. get p (\<lambda>g. Parsed (f @ g))) []"

definition some_more :: "(lexeme list \<Rightarrow> bool) \<Rightarrow> forest parser \<Rightarrow> forest parser" where
  \<comment> \<open>the loop \<open>( ... )+\<close>\<close>
  "some_more P p = get p (\<lambda>f. repeating P (\<lambda>f. get p (\<lambda>g. Parsed (f @ g))) f)"

definition left_assoc :: "lexeme set \<Rightarrow> forest parser \<Rightarrow> forest parser" where
  \<comment> \<open>\<open>sub (op^ BLANK!? sub)*\<close>\<close>
  "left_assoc ops sub = get sub (repeating (\<lambda>ts. ts \<noteq> [] \<and> hd ts \<in> ops)
     (\<lambda>f. next_token (\<lambda>op. opt_blank (get sub (\<lambda>g. Parsed [Tree (Real op) (f @ g)])))))"

section \<open>Rules that call each other\<close>

text \<open>The rules that are part of their own parts. The rules of the grammar take them from this record.\<close>

record rules =
  r_arithmetics :: "forest parser"
  r_string_expr_part :: "forest parser"
  r_extended_pattern :: "forest parser"
  r_keyword_condition :: "forest parser"
  r_builtin_condition :: "forest parser"
  r_command_list :: "forest parser"

section \<open>Token classes\<close>

fun is_name :: "lexeme \<Rightarrow> bool" where
  \<comment> \<open>the rule \<open>name\<close>\<close>
  "is_name (Name_token s) = True"
| "is_name (Letter_token s) = True"
| "is_name (Sym s) \<longleftrightarrow> s = ''_''"
| "is_name _ = False"

fun is_num :: "lexeme \<Rightarrow> bool" where
  \<comment> \<open>the rule \<open>num\<close>\<close>
  "is_num (Digit_token s) = True"
| "is_num (Number_token s) = True"
| "is_num _ = False"

fun is_digit_token :: "lexeme \<Rightarrow> bool" where
  "is_digit_token (Digit_token s) = True"
| "is_digit_token _ = False"

fun is_letter_token :: "lexeme \<Rightarrow> bool" where
  "is_letter_token (Letter_token s) = True"
| "is_letter_token _ = False"

fun is_name_token :: "lexeme \<Rightarrow> bool" where
  "is_name_token (Name_token s) = True"
| "is_name_token _ = False"

fun is_command_substitution :: "lexeme \<Rightarrow> bool" where
  \<comment> \<open>the rule \<open>command_substitution\<close>\<close>
  "is_command_substitution (Command_paren s) = True"
| "is_command_substitution (Command_tick s) = True"
| "is_command_substitution _ = False"

fun is_single_quoted :: "lexeme \<Rightarrow> bool" where
  "is_single_quoted (Single_quoted_token s) = True"
| "is_single_quoted _ = False"

fun is_esc :: "lexeme \<Rightarrow> bool" where
  \<comment> \<open>\<open>ESC\<close> alone\<close>
  "is_esc (Escape s) \<longleftrightarrow> s = [backslash_char]"
| "is_esc _ = False"

definition is_special_token :: "lexeme \<Rightarrow> bool" where
  \<comment> \<open>the function of that name\<close>
  "is_special_token t \<longleftrightarrow> is_blank t \<or> is_eol t \<or>
     t \<in> set (map Sym [''&'', ''<'', ''>'', ''>>'', ''&<'', ''&>'', ''&>>'', '';'', ''('', '')'', '';;'', ''&&'',
       ''||'', ''|'', ''<<<'', ''<<''])"

end
