(* ===== verification/Word_Grammar.thy ===== *)
theory Word_Grammar
  imports Parsing
begin

text \<open>
  bashast/bashast.g, the parser rules for words: names, references and parameter expansions, quoting, brace
  expansion and patterns. Each rule is a function under its name; \<open>G\<close> are the rules that call each other.
\<close>

section \<open>Arithmetic within words\<close>

definition arithmetic_part :: "rules \<Rightarrow> forest parser" where
  "arithmetic_part G = expect (Sym ''$'') (either (sees [Sym ''((''])
     (expect (Sym ''(('') (opt_blank (get (r_arithmetics G) (\<lambda>f.
        opt_blank (expect (Sym '')'') (expect (Sym '')'') (Parsed f)))))))
     (expect (Sym ''['') (opt_blank (get (r_arithmetics G) (\<lambda>f.
        opt_blank (expect (Sym '']'') (Parsed f)))))))"

definition expands_arithmetic :: "lexeme list \<Rightarrow> bool" where
  \<comment> \<open>the predicate \<open>(DOLLAR (LLPAREN|LSQUARE))\<close>\<close>
  "expands_arithmetic ts \<longleftrightarrow> sees [Sym ''$'', Sym ''((''] ts \<or> sees [Sym ''$'', Sym ''[''] ts"

definition explicit_arithmetic :: "rules \<Rightarrow> forest parser" where
  "explicit_arithmetic G = either expands_arithmetic (arithmetic_part G) (r_arithmetics G)"

definition arithmetic_expansion :: "rules \<Rightarrow> forest parser" where
  "arithmetic_expansion G = get (arithmetic_part G) (\<lambda>f. Parsed (imaginary ''ARITHMETIC_EXPRESSION'' f))"

section \<open>References\<close>

definition subscript :: "rules \<Rightarrow> lexeme \<Rightarrow> forest parser" where
  \<comment> \<open>from the bracket on, in \<open>name LSQUARE BLANK? explicit_arithmetic BLANK? RSQUARE\<close>\<close>
  "subscript G t = expect (Sym ''['') (opt_blank (get (explicit_arithmetic G) (\<lambda>f.
     opt_blank (expect (Sym '']'') (Parsed [Tree (Real t) f])))))"

definition variable_name_no_digit :: "rules \<Rightarrow> forest parser" where
  "variable_name_no_digit G = satisfying is_name (\<lambda>t. either (sees [Sym ''['']) (subscript G t) (Parsed [leaf t]))"

definition bang_name :: "lexeme \<Rightarrow> bool" where
  \<comment> \<open>the rule \<open>variable_name_for_bang\<close>\<close>
  "bang_name t \<longleftrightarrow> is_num t \<or> is_name t \<or> t = Sym ''#''"

definition variable_name :: "rules \<Rightarrow> forest parser" where
  "variable_name G = either (looking_at [is_name, (=) (Sym ''[''), \<lambda>t. t = Sym ''@'' \<or> t = Sym ''*''])
     (next_token (\<lambda>t. next_token (\<lambda>_. next_token (\<lambda>u.
        expect (Sym '']'') (Parsed (imaginary ''ARRAY'' [leaf t, leaf u]))))))
     (either (looking_at [is_name]) (variable_name_no_digit G)
     (next_token (\<lambda>t.
        if t = Sym ''!'' then satisfying bang_name (\<lambda>u. Parsed (imaginary ''VAR_REF'' [leaf u]))
        else if is_num t \<or> t \<in> set (map Sym [''$'', ''*'', ''@'', ''?'', ''#'']) then Parsed [leaf t]
        else fail)))"

definition value_operators :: "(lexeme list \<times> string) list" where
  \<comment> \<open>the rule \<open>parameter_value_operator\<close>\<close>
  "value_operators = [
     ([Sym '':'', Sym ''-''], ''USE_DEFAULT_WHEN_UNSET_OR_NULL''),
     ([Sym '':'', Sym ''=''], ''ASSIGN_DEFAULT_WHEN_UNSET_OR_NULL''),
     ([Sym '':'', Sym ''?''], ''DISPLAY_ERROR_WHEN_UNSET_OR_NULL''),
     ([Sym '':'', Sym ''+''], ''USE_ALTERNATE_WHEN_UNSET_OR_NULL''),
     ([Sym ''-''], ''USE_DEFAULT_WHEN_UNSET''),
     ([Sym ''=''], ''ASSIGN_DEFAULT_WHEN_UNSET''),
     ([Sym ''?''], ''DISPLAY_ERROR_WHEN_UNSET''),
     ([Sym ''+''], ''USE_ALTERNATE_WHEN_UNSET'')]"

definition delete_operators :: "(lexeme list \<times> string) list" where
  \<comment> \<open>the rule \<open>parameter_delete_operator\<close>\<close>
  "delete_operators = [
     ([Sym ''#'', Sym ''#''], ''REPLACE_AT_START''), ([Sym ''#''], ''LAZY_REMOVE_AT_START''),
     ([Sym ''%''], ''LAZY_REMOVE_AT_END''), ([Sym ''%%''], ''REPLACE_AT_END'')]"

definition replace_operators :: "(lexeme list \<times> string) list" where
  \<comment> \<open>the rule \<open>parameter_replace_operator\<close>\<close>
  "replace_operators = [
     ([Sym ''/'', Sym ''/''], ''REPLACE_ALL''), ([Sym ''/'', Sym ''%''], ''REPLACE_AT_END''),
     ([Sym ''/'', Sym ''#''], ''REPLACE_AT_START''), ([Sym ''/''], ''REPLACE_FIRST'')]"

definition operator_ahead :: "(lexeme list \<times> string) list \<Rightarrow> lexeme list \<Rightarrow> (lexeme list \<times> string) option" where
  "operator_ahead ops ts = find (\<lambda>(op, _). sees op ts) ops"

definition operator_of :: "(lexeme list \<times> string) list \<Rightarrow> (string \<Rightarrow> 'r parser) \<Rightarrow> 'r parser" where
  "operator_of ops k ts = (case operator_ahead ops ts of
       Some (op, name) \<Rightarrow> k name (drop (length op) ts) | None \<Rightarrow> Syntax_error)"

fun value_tokens :: "nat \<Rightarrow> lexeme list \<Rightarrow> forest parsed" where
  \<comment> \<open>the loop of \<open>parameter_expansion_value_atom\<close>, with \<open>num_of_braces\<close>: each token is taken before
    the one after it is counted\<close>
  "value_tokens braces [] = Parsed [] []"
| "value_tokens braces (t # ts) =
     (let braces' = (if is_esc t then braces
        else if sees [Sym ''{''] ts then braces + 1
        else if sees [Sym ''}''] ts then braces - 1 else braces)
      in if braces' = 0 then Parsed [leaf t] ts
         else (case value_tokens braces' ts of Parsed f rest \<Rightarrow> Parsed (leaf t # f) rest | r \<Rightarrow> r))"

definition parameter_expansion_value :: "forest parser" where
  "parameter_expansion_value = either (\<lambda>ts. ts = [] \<or> sees [Sym ''}''] ts)
     (Parsed (imaginary ''STRING'' (imaginary ''EMPTY_EXPANSION_VALUE'' [])))
     (get (value_tokens 1) (\<lambda>f. Parsed (imaginary ''STRING'' f)))"

definition offset_expansion :: "rules \<Rightarrow> forest \<Rightarrow> forest parser" where
  \<comment> \<open>after \<open>variable_name COLON\<close>\<close>
  "offset_expansion G v = opt_blank (either (sees [Sym '':''])
     (expect (Sym '':'') (opt_blank (get (explicit_arithmetic G) (\<lambda>len.
        Parsed (imaginary ''OFFSET'' (v @ imaginary ''OFFSET'' [leaf (Number_token ''0'')] @
          imaginary ''OFFSET'' len))))))
     (get (explicit_arithmetic G) (\<lambda>os. either (sees [Sym '':''])
        (expect (Sym '':'') (opt_blank (get (explicit_arithmetic G) (\<lambda>len.
           Parsed (imaginary ''OFFSET'' (v @ imaginary ''OFFSET'' os @ imaginary ''OFFSET'' len))))))
        (Parsed (imaginary ''OFFSET'' (v @ imaginary ''OFFSET'' os))))))"

definition size_index :: "lexeme \<Rightarrow> bool" where
  "size_index t \<longleftrightarrow> t = Sym ''@'' \<or> t = Sym ''*'' \<or> is_digit_token t"

definition variable_size_ref :: "rules \<Rightarrow> forest parser" where
  \<comment> \<open>a run of digits is one token of another kind, so \<open>DIGIT+\<close> is a single one\<close>
  "variable_size_ref G = expect (Sym ''#'') (either (looking_at [is_name, (=) (Sym ''[''), size_index])
     (next_token (\<lambda>t. next_token (\<lambda>_. next_token (\<lambda>u. expect (Sym '']'') (Parsed
        [Tree (Real (Sym ''#'')) [Tree (Real t)
           (if is_digit_token u then [leaf u] else imaginary ''ARRAY_SIZE'' [])]])))))
     (get (variable_name G) (\<lambda>v. Parsed [Tree (Real (Sym ''#'')) v])))"

definition is_size_ref :: "lexeme list \<Rightarrow> bool" where
  \<comment> \<open>the choice of \<open>variable_size_ref\<close>, where \<open>${#\<close> can be a reference to \<open>$#\<close> with an operator too\<close>
  "is_size_ref ts \<longleftrightarrow> looking_at [(=) (Sym ''#''), \<lambda>t. is_num t \<or> is_name t \<or>
       t \<in> set (map Sym [''!'', ''$'', ''*'', ''@''])] ts \<or>
     looking_at [(=) (Sym ''#''), \<lambda>t. t = Sym ''?'' \<or> t = Sym ''#'', (=) (Sym ''}'')] ts"

definition is_list_expansion :: "lexeme list \<Rightarrow> bool" where
  "is_list_expansion = looking_at [(=) (Sym ''!''), bang_name, \<lambda>t. t \<in> set (map Sym [''*'', ''@'', ''[''])]"

definition list_expansion :: "forest parser" where
  \<comment> \<open>\<open>BANG variable_name_for_bang\<close> with what follows\<close>
  "list_expansion = next_token (\<lambda>_. next_token (\<lambda>v. next_token (\<lambda>u.
     if u = Sym ''[''
     then satisfying (\<lambda>w. w = Sym ''*'' \<or> w = Sym ''@'') (\<lambda>w.
            expect (Sym '']'') (Parsed (imaginary ''LIST_EXPAND'' [leaf v, leaf w])))
     else Parsed [Tree (Real (Sym ''!'')) [leaf v, leaf u]])))"

section \<open>Parts of a word\<close>

definition plain_syms :: "string list" where
  \<comment> \<open>the tokens of fixed text in \<open>ns_string_part\<close>, \<open>SLASH\<close> and \<open>BANG\<close>\<close>
  "plain_syms = [''='', ''%'', ''%%'', ''+'', ''-'', ''.'', ''..'', '':'', ''~'', ''['', '']'', ''^'', ''#'', '','',
     ''@'', ''*'', ''?'', ''/'', ''!'']"

fun is_plain :: "lexeme \<Rightarrow> bool" where
  \<comment> \<open>a token that is a part of a word by itself, reserved words included\<close>
  "is_plain (Sym s) \<longleftrightarrow> s = ''_'' \<or> s \<in> set plain_syms"
| "is_plain (Keyword s) = True"
| "is_plain (Name_token s) = True"
| "is_plain (Letter_token s) = True"
| "is_plain (Digit_token s) = True"
| "is_plain (Number_token s) = True"
| "is_plain (Escape s) \<longleftrightarrow> s \<noteq> [backslash_char]"
| "is_plain (Other_token s) = True"
| "is_plain _ = False"

definition starts_part :: "lexeme \<Rightarrow> bool" where
  \<comment> \<open>the tokens that \<open>string_expr_part\<close> can begin with\<close>
  "starts_part t \<longleftrightarrow> is_plain t \<or> is_esc t \<or> is_command_substitution t \<or> is_single_quoted t \<or>
     t \<in> {Sym ''$'', Sym ''{'', Sym [dquote_char]}"

fun is_reserved_word :: "lexeme \<Rightarrow> bool" where
  "is_reserved_word (Keyword s) \<longleftrightarrow> s \<notin> {''export'', ''local'', ''declare''}"
| "is_reserved_word _ = False"

abbreviation part_ahead :: "lexeme list \<Rightarrow> bool" where
  "part_ahead ts \<equiv> ts \<noteq> [] \<and> starts_part (hd ts)"

definition command_substitution :: "forest parser" where
  "command_substitution = satisfying is_command_substitution (\<lambda>t. Parsed (imaginary ''COMMAND_SUB'' [leaf t]))"

definition brace_expansion_part :: "rules \<Rightarrow> forest parser" where
  "brace_expansion_part G = get (many (\<lambda>ts. part_ahead ts \<and> hd ts \<noteq> Sym '','') (r_string_expr_part G))
     (\<lambda>f. Parsed (imaginary ''STRING'' f))"

definition commasep :: "rules \<Rightarrow> forest parser" where
  "commasep G = get (brace_expansion_part G) (\<lambda>f.
     get (some_more (sees [Sym '','']) (expect (Sym '','') (brace_expansion_part G))) (\<lambda>g. Parsed (f @ g)))"

definition is_range :: "lexeme list \<Rightarrow> bool" where
  "is_range ts \<longleftrightarrow> (let close = \<lambda>t. is_blank t \<or> t = Sym ''}''
     in looking_at [is_digit_token, (=) (Sym ''..''), is_digit_token, close] ts \<or>
        looking_at [is_letter_token, (=) (Sym ''..''), is_letter_token, close] ts)"

definition range_rule :: "forest parser" where
  "range_rule = next_token (\<lambda>a. next_token (\<lambda>op. next_token (\<lambda>b. Parsed [Tree (Real op) [leaf a, leaf b]])))"

definition brace_expansion :: "rules \<Rightarrow> forest parser" where
  "brace_expansion G = expect (Sym ''{'') (all_blanks (get (either is_range range_rule (commasep G)) (\<lambda>f.
     all_blanks (expect (Sym ''}'') (Parsed (imaginary ''BRACE_EXP'' f))))))"

section \<open>Patterns\<close>

definition extended_operators :: "(string \<times> string) list" where
  "extended_operators = [(''?'', ''EXTENDED_MATCH_AT_MOST_ONE''), (''*'', ''EXTENDED_MATCH_ANY''),
     (''+'', ''EXTENDED_MATCH_AT_LEAST_ONE''), (''@'', ''EXTENDED_MATCH_EXACTLY_ONE''),
     (''!'', ''EXTENDED_MATCH_NONE'')]"

definition extended_ahead :: "lexeme list \<Rightarrow> string option" where
  \<comment> \<open>the predicates \<open>(QMARK LPAREN)\<close> and so on\<close>
  "extended_ahead ts = (case ts of
       Sym s # u # _ \<Rightarrow> if u = Sym ''('' then map_of extended_operators s else None
     | _ \<Rightarrow> None)"

definition extended_group :: "rules \<Rightarrow> string \<Rightarrow> forest parser" where
  "extended_group G name = next_token (\<lambda>_. next_token (\<lambda>_. get (r_extended_pattern G) (\<lambda>f.
     get (many (sees [Sym ''|'']) (expect (Sym ''|'') (r_extended_pattern G))) (\<lambda>g.
       expect (Sym '')'') (Parsed (imaginary name (f @ g)))))))"

fun is_other :: "lexeme \<Rightarrow> bool" where
  "is_other (Other_token s) = True"
| "is_other _ = False"

definition pattern_char :: "lexeme \<Rightarrow> bool" where
  "pattern_char t \<longleftrightarrow> is_letter_token t \<or> is_digit_token t \<or> is_other t \<or>
     t \<in> set (map Sym [''?'', '':'', ''@'', '';'', ''#'', ''/'', ''!'', ''*'', '','', ''|'', ''&'', ''-'', ''+'', ''%'',
       ''['', '']'', '')'', ''('', ''}'', ''{'', ''$'', [tick_char], ''.'', ''<'', ''>'', [quote_char], [dquote_char],
       ''&<'', ''&>'', ''&>>''])"

definition pattern_class_match :: "forest parser" where
  "pattern_class_match = expect (Sym ''['') (next_token (\<lambda>t.
     if t = Sym '':'' \<or> t = Sym ''.''
     then satisfying is_name_token (\<lambda>u. expect t (expect (Sym '']'') (Parsed
            (imaginary (if t = Sym '':'' then ''CHARACTER_CLASS'' else ''COLLATING_SYMBOL'') [leaf u]))))
     else if t = Sym ''=''
     then satisfying pattern_char (\<lambda>u. expect t (expect (Sym '']'') (Parsed
            (imaginary ''EQUIVALENCE_CLASS'' [leaf u]))))
     else fail))"

definition bracket_pattern_part :: "rules \<Rightarrow> forest parser" where
  "bracket_pattern_part G = if_matches pattern_class_match pattern_class_match (r_string_expr_part G)"

definition bracket_pattern_rule :: "rules \<Rightarrow> forest parser" where
  "bracket_pattern_rule G = some_more (\<lambda>ts. part_ahead ts \<and> hd ts \<noteq> Sym '']'') (bracket_pattern_part G)"

definition bracket_pattern_match :: "rules \<Rightarrow> forest parser" where
  "bracket_pattern_match G = next_token (\<lambda>t.
     if t = Sym ''*'' then Parsed (imaginary ''MATCH_ALL'' [])
     else if t = Sym ''?'' then Parsed (imaginary ''MATCH_ONE'' [])
     else if t = Sym ''[''
     then (let inside = (\<lambda>name. get (bracket_pattern_rule G) (\<lambda>f. expect (Sym '']'') (Parsed (imaginary name f))))
           in either (\<lambda>ts. sees [Sym ''!''] ts \<or> sees [Sym ''^''] ts)
                (next_token (\<lambda>_. inside ''MATCH_ANY_EXCEPT'')) (inside ''MATCH_ANY''))
     else fail)"

definition extended_pattern_match :: "rules \<Rightarrow> forest parser" where
  "extended_pattern_match G ts = (case extended_ahead ts of
       Some name \<Rightarrow> extended_group G name ts
     | None \<Rightarrow> if_matches (bracket_pattern_match G) (bracket_pattern_match G)
         (if_matches pattern_class_match pattern_class_match (r_string_expr_part G)) ts)"

definition extended_pattern_rule :: "rules \<Rightarrow> forest parser" where
  "extended_pattern_rule G = get (some_more part_ahead (extended_pattern_match G)) (\<lambda>f. Parsed (imaginary ''BRANCH'' f))"

definition parameter_pattern_part :: "rules \<Rightarrow> forest parser" where
  "parameter_pattern_part G = either (looking_at [is_special_token])
     (next_token (\<lambda>t. Parsed [leaf t])) (extended_pattern_match G)"

section \<open>Parameter expansion\<close>

definition parameter_delete_pattern :: "rules \<Rightarrow> forest parser" where
  "parameter_delete_pattern G =
     get (some_more (\<lambda>ts. ts \<noteq> [] \<and> \<not> sees [Sym ''}''] ts) (parameter_pattern_part G))
       (\<lambda>f. Parsed (imaginary ''STRING'' f))"

definition parameter_replace_pattern :: "rules \<Rightarrow> forest parser" where
  "parameter_replace_pattern G = either (sees [Sym ''/'']) (Parsed (imaginary ''STRING'' (imaginary ''NAME'' [])))
     (get (some_more (\<lambda>ts. ts \<noteq> [] \<and> \<not> sees [Sym ''}''] ts \<and> \<not> sees [Sym ''/''] ts) (parameter_pattern_part G))
       (\<lambda>f. Parsed (imaginary ''STRING'' f)))"

definition parameter_expansion :: "rules \<Rightarrow> forest parser" where
  "parameter_expansion G = either is_list_expansion list_expansion (either is_size_ref (variable_size_ref G)
     (get (variable_name G) (\<lambda>v.
        either (\<lambda>ts. operator_ahead value_operators ts \<noteq> None)
          (operator_of value_operators (\<lambda>op. get parameter_expansion_value (\<lambda>f. Parsed (imaginary op (v @ f)))))
       (either (sees [Sym '':'']) (expect (Sym '':'') (offset_expansion G v))
       (either (\<lambda>ts. operator_ahead delete_operators ts \<noteq> None)
          (operator_of delete_operators (\<lambda>op. get (parameter_delete_pattern G) (\<lambda>f. Parsed (imaginary op (v @ f)))))
       (either (sees [Sym ''/''])
          (operator_of replace_operators (\<lambda>op. get (parameter_replace_pattern G) (\<lambda>f.
             either (sees [Sym ''/''])
               (expect (Sym ''/'') (get parameter_expansion_value (\<lambda>g. Parsed (imaginary op (v @ f @ g)))))
               (Parsed (imaginary op (v @ f))))))
          (opt_blank (Parsed v))))))))"

definition variable_reference :: "rules \<Rightarrow> forest parser" where
  "variable_reference G = expect (Sym ''$'') (next_token (\<lambda>t.
     if t = Sym ''{''
     then get (parameter_expansion G) (\<lambda>f. expect (Sym ''}'') (Parsed (imaginary ''VAR_REF'' f)))
     else if is_name t \<or> is_num t \<or> t \<in> set (map Sym [''*'', ''@'', ''#'', ''?'', ''-'', ''$'', ''!''])
     then Parsed (imaginary ''VAR_REF'' [leaf t])
     else fail))"

section \<open>Words\<close>

definition names_variable :: "lexeme list \<Rightarrow> bool" where
  \<comment> \<open>the first predicate of \<open>expansion_base\<close>\<close>
  "names_variable = looking_at [(=) (Sym ''$''), \<lambda>t. is_name t \<or> is_num t \<or>
     t \<in> set (map Sym [''{'', ''*'', ''@'', ''#'', ''?'', ''-'', ''$'', ''!''])]"

definition ansi_c_quoting :: "forest parser" where
  "ansi_c_quoting = next_token (\<lambda>_. next_token (\<lambda>t. Parsed (imaginary ''ANSI_C_QUOTING'' [leaf t])))"

definition expansion_base :: "rules \<Rightarrow> forest parser" where
  "expansion_base G = either names_variable (variable_reference G)
     (either (looking_at [is_command_substitution]) command_substitution
     (either expands_arithmetic (arithmetic_expansion G)
     (either (looking_at [is_esc, \<lambda>t. t \<in> {Sym [dquote_char], Sym [tick_char], Sym ''$''}])
        (next_token (\<lambda>_. next_token (\<lambda>t. Parsed [leaf t])))
     (if_matches (brace_expansion G) (brace_expansion G)
     (either (looking_at [(=) (Sym ''$''), is_single_quoted]) ansi_c_quoting
     (next_token (\<lambda>t. Parsed [leaf t])))))))"

definition double_quoted_string :: "rules \<Rightarrow> forest parser" where
  "double_quoted_string G = expect (Sym [dquote_char])
     (get (many (\<lambda>ts. ts \<noteq> [] \<and> \<not> sees [Sym [dquote_char]] ts) (expansion_base G)) (\<lambda>f.
        expect (Sym [dquote_char]) (Parsed (imaginary ''DOUBLE_QUOTED_STRING'' f))))"

definition all_expansions :: "rules \<Rightarrow> forest parser" where
  "all_expansions G = get (some_more (\<lambda>ts. ts \<noteq> [])
     (either (sees [Sym [dquote_char]]) (double_quoted_string G) (expansion_base G)))
     (\<lambda>f. Parsed (imaginary ''STRING'' f))"

definition string_expr_part :: "rules \<Rightarrow> forest parser" where
  \<comment> \<open>\<open>quoted_string\<close>, \<open>non_quoted_string\<close> and \<open>reserved_word\<close>, by the first tokens\<close>
  "string_expr_part G = either (sees [Sym [dquote_char]]) (double_quoted_string G)
     (either (looking_at [(=) (Sym ''$''), is_single_quoted]) ansi_c_quoting
     (either expands_arithmetic (arithmetic_expansion G)
     (either (sees [Sym ''$'']) (variable_reference G)
     (either (sees [Sym ''{'']) (brace_expansion G)
     (next_token (\<lambda>t.
        if is_single_quoted t then Parsed (imaginary ''SINGLE_QUOTED_STRING'' [leaf t])
        else if is_command_substitution t then Parsed (imaginary ''COMMAND_SUB'' [leaf t])
        else if is_esc t then next_token (\<lambda>u. Parsed [leaf t, leaf u])
        else if is_plain t then Parsed [leaf t] else fail))))))"

definition string_expr_rule :: "rules \<Rightarrow> forest parser" where
  "string_expr_rule G = get (some_more part_ahead (string_expr_part G)) (\<lambda>f. Parsed (imaginary ''STRING'' f))"

definition string_expr_no_reserved_word :: "rules \<Rightarrow> forest parser" where
  "string_expr_no_reserved_word G = either (looking_at [is_reserved_word]) fail (string_expr_rule G)"

end
