(* ===== verification/Arith_Grammar.thy ===== *)
theory Arith_Grammar
  imports Word_Grammar
begin

text \<open>
  bashast/bashast.g, the parser rules of shell arithmetic, one function for each rule.
\<close>

section \<open>Operands\<close>

definition primary_rule :: "rules \<Rightarrow> forest parser" where
  "primary_rule G = either (looking_at [is_name])
     (get (variable_name_no_digit G) (\<lambda>v. Parsed (imaginary ''VAR_REF'' v)))
     (either expands_arithmetic (arithmetic_expansion G)
     (either (sees [Sym ''$'']) (variable_reference G)
     (next_token (\<lambda>t.
        if is_num t then Parsed [leaf t]
        else if is_command_substitution t then Parsed (imaginary ''COMMAND_SUB'' [leaf t])
        else if t = Sym ''('' then get (r_arithmetics G) (\<lambda>f. expect (Sym '')'') (Parsed f))
        else fail))))"

definition opt_dquote :: "'r parser \<Rightarrow> 'r parser" where
  \<comment> \<open>\<open>DQUOTE!?\<close>\<close>
  "opt_dquote k = either (sees [Sym [dquote_char]]) (next_token (\<lambda>_. k)) k"

definition pre_post_primary :: "rules \<Rightarrow> forest parser" where
  "pre_post_primary G = opt_dquote (get (primary_rule G) (\<lambda>f. opt_dquote (Parsed f)))"

definition post_inc_dec :: "rules \<Rightarrow> forest parser" where
  "post_inc_dec G = get (pre_post_primary G) (\<lambda>f. opt_blank
     (either (sees [Sym ''+'', Sym ''+'']) (next_token (\<lambda>_. next_token (\<lambda>_. Parsed (imaginary ''POST_INCR'' f))))
     (either (sees [Sym ''-'', Sym ''-'']) (next_token (\<lambda>_. next_token (\<lambda>_. Parsed (imaginary ''POST_DECR'' f))))
     (Parsed f))))"

definition pre_inc_dec :: "rules \<Rightarrow> forest parser" where
  \<comment> \<open>after the predicate \<open>(PLUS PLUS|MINUS MINUS)\<close>\<close>
  "pre_inc_dec G = next_token (\<lambda>t. next_token (\<lambda>_. opt_blank (get (pre_post_primary G) (\<lambda>f.
     Parsed (imaginary (if t = Sym ''+'' then ''PRE_INCR'' else ''PRE_DECR'') f)))))"

definition unary_node :: "lexeme \<Rightarrow> node option" where
  \<comment> \<open>the rewriting of \<open>unary_with_operator\<close>\<close>
  "unary_node t = (if t = Sym ''+'' then Some (Imaginary ''PLUS_SIGN'')
     else if t = Sym ''-'' then Some (Imaginary ''MINUS_SIGN'')
     else if t = Sym ''~'' \<or> t = Sym ''!'' then Some (Real t) else None)"

primrec unary_within :: "nat \<Rightarrow> rules \<Rightarrow> forest parser" where
  \<comment> \<open>with at most \<open>n\<close> operators\<close>
  "unary_within 0 G ts = Not_modelled"
| "unary_within (Suc n) G ts = (case ts of
       t # ts' \<Rightarrow>
         if sees [Sym ''+'', Sym ''+''] ts \<or> sees [Sym ''-'', Sym ''-''] ts then pre_inc_dec G ts
         else (case unary_node t of
             Some op \<Rightarrow> opt_blank (get (unary_within n G) (\<lambda>f. Parsed [Tree op f])) ts'
           | None \<Rightarrow> post_inc_dec G ts)
     | [] \<Rightarrow> Syntax_error)"

definition unary :: "rules \<Rightarrow> forest parser" where
  \<comment> \<open>each operator is a token\<close>
  "unary G ts = unary_within (Suc (length ts)) G ts"

section \<open>Operators\<close>

definition exponential :: "rules \<Rightarrow> forest parser" where
  "exponential G = left_assoc {Sym ''**''} (unary G)"

definition times_division_modulus :: "rules \<Rightarrow> forest parser" where
  "times_division_modulus G = left_assoc {Sym ''*'', Sym ''/'', Sym ''%''} (exponential G)"

definition addsub :: "rules \<Rightarrow> forest parser" where
  "addsub G = left_assoc {Sym ''+'', Sym ''-''} (times_division_modulus G)"

definition shifts :: "rules \<Rightarrow> forest parser" where
  "shifts G = left_assoc {Sym ''<<'', Sym ''>>''} (addsub G)"

definition compare_operator :: "(node \<Rightarrow> 'r parser) \<Rightarrow> 'r parser" where
  "compare_operator k = next_token (\<lambda>t. either (sees [Sym ''=''])
     (next_token (\<lambda>_.
        if t = Sym ''<'' then k (Imaginary ''LEQ'') else if t = Sym ''>'' then k (Imaginary ''GEQ'')
        else if t = Sym ''='' then k (Imaginary ''EQUALS_TO'') else if t = Sym ''!'' then k (Imaginary ''NOT_EQUALS'')
        else fail))
     (if t = Sym ''<'' \<or> t = Sym ''>'' then k (Real t) else fail))"

definition compare :: "rules \<Rightarrow> forest parser" where
  "compare G = get (shifts G) (\<lambda>f.
     either (looking_at [\<lambda>t. t \<in> {Sym ''<'', Sym ''>'', Sym ''='', Sym ''!''}])
       (compare_operator (\<lambda>op. opt_blank (get (shifts G) (\<lambda>g. Parsed [Tree op (f @ g)]))))
       (Parsed f))"

definition bitwiseand :: "rules \<Rightarrow> forest parser" where
  "bitwiseand G = left_assoc {Sym ''&''} (compare G)"

definition bitwisexor :: "rules \<Rightarrow> forest parser" where
  "bitwisexor G = left_assoc {Sym ''^''} (bitwiseand G)"

definition bitwiseor :: "rules \<Rightarrow> forest parser" where
  "bitwiseor G = left_assoc {Sym ''|''} (bitwisexor G)"

definition logicand :: "rules \<Rightarrow> forest parser" where
  "logicand G = left_assoc {Sym ''&&''} (bitwiseor G)"

definition logicor :: "rules \<Rightarrow> forest parser" where
  "logicor G = left_assoc {Sym ''||''} (logicand G)"

section \<open>Assignments and whole expressions\<close>

definition assignment_operators :: "(lexeme \<times> string) list" where
  "assignment_operators = [(Sym ''*'', ''MUL_ASSIGN''), (Sym ''/'', ''DIVIDE_ASSIGN''),
     (Sym ''%'', ''MOD_ASSIGN''), (Sym ''+'', ''PLUS_ASSIGN''), (Sym ''-'', ''MINUS_ASSIGN''),
     (Sym ''<<'', ''LSHIFT_ASSIGN''), (Sym ''>>'', ''RSHIFT_ASSIGN''), (Sym ''&'', ''AND_ASSIGN''),
     (Sym ''^'', ''XOR_ASSIGN''), (Sym ''|'', ''OR_ASSIGN'')]"

definition arithmetic_assignment_operator :: "(node \<Rightarrow> 'r parser) \<Rightarrow> 'r parser" where
  "arithmetic_assignment_operator k = next_token (\<lambda>t.
     if t = Sym ''='' then either (sees [Sym ''='']) fail (k (Real t))
     else case map_of assignment_operators t of
       Some name \<Rightarrow> expect (Sym ''='') (k (Imaginary name)) | None \<Rightarrow> fail)"

definition assigned_variable :: "rules \<Rightarrow> (forest \<Rightarrow> node \<Rightarrow> 'r parser) \<Rightarrow> 'r parser" where
  \<comment> \<open>what both predicates of \<open>arithmetic\<close> look for; the second is \<open>arithmetic_variable_reference\<close>\<close>
  "assigned_variable G k = get (either (sees [Sym ''$''])
       (get (variable_reference G) (\<lambda>v. Parsed (imaginary ''VAR_REF'' v))) (variable_name_no_digit G))
     (\<lambda>v. opt_blank (arithmetic_assignment_operator (k v)))"

definition arithmetic :: "rules \<Rightarrow> forest parser" where
  "arithmetic G = if_matches (assigned_variable G (\<lambda>_ _. Parsed ()))
     (assigned_variable G (\<lambda>v op. opt_blank (get (logicor G) (\<lambda>f. Parsed [Tree op (v @ f)]))))
     (get (logicor G) (\<lambda>c. either (sees [Sym ''?''])
        (expect (Sym ''?'') (get (logicor G) (\<lambda>t. expect (Sym '':'') (get (logicor G) (\<lambda>f.
           Parsed (imaginary ''ARITHMETIC_CONDITION'' (c @ t @ f)))))))
        (Parsed c)))"

definition arithmetics :: "rules \<Rightarrow> forest parser" where
  "arithmetics G = get (arithmetic G) (\<lambda>f. repeating (sees [Sym '',''])
     (\<lambda>f. expect (Sym '','') (opt_blank (get (arithmetic G) (\<lambda>g. Parsed (f @ imaginary ''ARITHMETIC'' g)))))
     (imaginary ''ARITHMETIC'' f))"

end
