(* ===== verification/Command_Grammar.thy ===== *)
theory Command_Grammar
  imports Arith_Grammar
begin

text \<open>
  bashast/bashast.g, the parser rules for commands, and the parser as a whole: the rules \<open>start\<close>, \<open>arithmetics\<close>,
  \<open>all_expansions\<close> and \<open>builtin_variable_definitions\<close> that src/core/bash_ast.cpp starts.
\<close>

section \<open>Redirections\<close>

definition process_substitution :: "rules \<Rightarrow> forest parser" where
  "process_substitution G = satisfying (\<lambda>t. t = Sym ''<'' \<or> t = Sym ''>'') (\<lambda>dir.
     expect (Sym ''('') (all_blanks (get (r_command_list G) (\<lambda>f. all_blanks (expect (Sym '')'')
       (Parsed (imaginary ''PROCESS_SUBSTITUTION'' (leaf dir # f))))))))"

definition redirection_syms :: "lexeme list" where
  "redirection_syms = map Sym [''&<'', ''>'', ''<'', ''>>'', ''&>'', ''&>>'']"

definition redirection_sym :: "(node \<Rightarrow> 'r parser) \<Rightarrow> 'r parser" where
  \<comment> \<open>the operators of \<open>redirection_operator\<close>\<close>
  "redirection_sym k = next_token (\<lambda>t.
     if t = Sym ''>'' then either (sees [Sym ''&'']) (next_token (\<lambda>_. k (Operator ''>&''))) (k (Real t))
     else if t = Sym ''<''
     then either (sees [Sym ''&'']) (next_token (\<lambda>_. k (Operator ''<&'')))
            (either (sees [Sym ''>'']) (next_token (\<lambda>_. k (Operator ''<>''))) (k (Real t)))
     else if t \<in> set redirection_syms then k (Operator (lexeme_text t)) else fail)"

primrec redirection_operator_within :: "nat \<Rightarrow> forest parser" where
  "redirection_operator_within 0 ts = Not_modelled"
| "redirection_operator_within (Suc n) ts =
     either (looking_at [is_blank, is_digit_token])
       (next_token (\<lambda>_. next_token (\<lambda>d. get (redirection_operator_within n) (\<lambda>f. Parsed (leaf d # f)))))
       (opt_blank (redirection_sym (\<lambda>op. Parsed [Tree op []]))) ts"

definition redirection_operator :: "forest parser" where
  "redirection_operator ts = redirection_operator_within (Suc (length ts)) ts"

definition file_descriptor :: "forest parser" where
  "file_descriptor = satisfying is_digit_token (\<lambda>d. either (sees [Sym ''-''])
     (next_token (\<lambda>_. Parsed (imaginary ''FILE_DESCRIPTOR_MOVE'' [leaf d])))
     (Parsed (imaginary ''FILE_DESCRIPTOR'' [leaf d])))"

definition redirection_destination :: "rules \<Rightarrow> forest parser" where
  "redirection_destination G = either (\<lambda>ts. looking_at [is_digit_token] (skip_blank ts)) (opt_blank file_descriptor)
     (either (looking_at [is_blank, \<lambda>t. t = Sym ''<'' \<or> t = Sym ''>'']) (blank (process_substitution G))
     (opt_blank (string_expr_rule G)))"

definition here_string :: "rules \<Rightarrow> forest parser" where
  "here_string G = opt_blank (expect (Sym ''<<<'') (opt_blank (get (string_expr_rule G) (\<lambda>f.
     Parsed [Tree (Real (Sym ''<<<'')) f]))))"

definition process_ahead :: "lexeme list \<Rightarrow> bool" where
  "process_ahead = looking_at [is_blank, \<lambda>t. t = Sym ''<'' \<or> t = Sym ''>'', (=) (Sym ''('')]"

definition redirection_atom :: "rules \<Rightarrow> forest parser" where
  "redirection_atom G = either (\<lambda>ts. sees [Sym ''<<<''] (skip_blank ts)) (here_string G)
     (either process_ahead (blank (process_substitution G))
     (get redirection_operator (\<lambda>f. get (redirection_destination G) (\<lambda>g. Parsed (imaginary ''REDIR'' (f @ g))))))"

definition redirection_ahead :: "lexeme list \<Rightarrow> bool" where
  "redirection_ahead ts \<longleftrightarrow> looking_at [\<lambda>t. t = Sym ''<<<'' \<or> t \<in> set redirection_syms] (skip_blank ts) \<or>
     looking_at [is_blank, is_digit_token, \<lambda>t. is_blank t \<or> t \<in> set redirection_syms] ts"

definition redirection :: "rules \<Rightarrow> forest parser" where
  "redirection G = some_more redirection_ahead (redirection_atom G)"

section \<open>Variable definitions\<close>

definition array_atom :: "rules \<Rightarrow> (forest \<times> bool) parser" where
  \<comment> \<open>with \<open>array_value_end\<close>\<close>
  "array_atom G = get (either (sees [Sym ''[''])
       (expect (Sym ''['') (opt_blank (get (explicit_arithmetic G) (\<lambda>f. opt_blank (expect (Sym '']'')
          (expect (Sym ''='') (get (string_expr_rule G) (\<lambda>g. Parsed [Tree (Real (Sym ''='')) (f @ g)]))))))))
       (string_expr_rule G))
     (\<lambda>f. either (\<lambda>ts. sees [Sym '')''] (skip_wspace ts)) (opt_wspace (expect (Sym '')'') (Parsed (f, True))))
       (Parsed (f, False)))"

definition array_value :: "rules \<Rightarrow> forest parser" where
  "array_value G = expect (Sym ''('') (opt_wspace (either (sees [Sym '')''])
     (expect (Sym '')'') (Parsed (imaginary ''ARRAY'' [])))
     (get (array_atom G) (\<lambda>(f, ended). get
        (\<lambda>ts. repeat_while (length ts) (\<lambda>_. True) (\<lambda>(f, ended).
           if ended then Parsed (f, ended)
           else either (looking_at [\<lambda>t. is_blank t \<or> is_eol t])
             (wspace (get (array_atom G) (\<lambda>(g, ended). Parsed (f @ g, ended)))) (Parsed (f, ended)))
           (f, ended) ts)
        (\<lambda>(f, _). Parsed (imaginary ''ARRAY'' f))))))"

definition value_rule :: "rules \<Rightarrow> forest parser" where
  "value_rule G = either (sees [Sym ''('']) (array_value G) (string_expr_rule G)"

definition equals_node :: "forest \<Rightarrow> forest" where
  "equals_node f = [Tree (Real (Sym ''='')) f]"

definition variable_definition_atom :: "rules \<Rightarrow> forest parser" where
  "variable_definition_atom G = satisfying is_name (\<lambda>t.
     either (sees [Sym ''['']) (get (subscript G t) (\<lambda>n. expect (Sym ''='')
       (either part_ahead (get (string_expr_rule G) (\<lambda>f. Parsed (equals_node (n @ f)))) (Parsed (equals_node n)))))
     (either (sees [Sym ''='']) (expect (Sym ''='')
       (either (\<lambda>ts. part_ahead ts \<or> sees [Sym ''(''] ts)
          (get (value_rule G) (\<lambda>f. Parsed (equals_node (leaf t # f)))) (Parsed (equals_node [leaf t]))))
     (expect (Sym ''+'') (expect (Sym ''='') (either (sees [Sym ''(''])
       (get (array_value G) (\<lambda>f. Parsed (imaginary ''PLUS_ASSIGN'' (leaf t # f))))
       (get (many part_ahead (string_expr_part G)) (\<lambda>f.
          Parsed (equals_node (leaf t # imaginary ''STRING'' (imaginary ''VAR_REF'' [leaf t] @ f))))))))))"

definition definition_ahead :: "lexeme list \<Rightarrow> bool" where
  \<comment> \<open>the predicate \<open>(name (LSQUARE|EQUALS|PLUS EQUALS))\<close>\<close>
  "definition_ahead ts \<longleftrightarrow> looking_at [is_name, \<lambda>t. t = Sym ''['' \<or> t = Sym ''=''] ts \<or>
     looking_at [is_name, (=) (Sym ''+''), (=) (Sym ''='')] ts"

definition variable_definitions :: "rules \<Rightarrow> forest parser" where
  "variable_definitions G = some_more (\<lambda>ts. looking_at [is_blank] ts \<and> definition_ahead (tl ts))
     (opt_blank (variable_definition_atom G))"

definition builtin_variable_definition_atom :: "rules \<Rightarrow> forest parser" where
  "builtin_variable_definition_atom G = either (looking_at [(=) (Sym ''-''), is_letter_token, is_blank])
     (next_token (\<lambda>_. next_token (\<lambda>_. Parsed [])))
     (either definition_ahead (variable_definition_atom G)
     (satisfying is_name (\<lambda>t. Parsed (imaginary ''EQUALS'' (leaf t # imaginary ''STRING'' (imaginary ''VAR_REF'' [leaf t]))))))"

definition builtin_variable_definitions :: "rules \<Rightarrow> bool \<Rightarrow> forest parser" where
  "builtin_variable_definitions G local = get (builtin_variable_definition_atom G) (\<lambda>f.
     get (many (looking_at [is_blank]) (blank (builtin_variable_definition_atom G))) (\<lambda>g.
       Parsed (imaginary ''LIST'' (imaginary ''COMMAND'' (imaginary ''VARIABLE_DEFINITIONS''
         ((if local then imaginary ''LOCAL'' [] else []) @ f @ g))))))"

definition item_step :: "rules \<Rightarrow> forest \<times> int \<times> bool \<Rightarrow> (forest \<times> int \<times> bool) parser" where
  \<comment> \<open>a round of the loop of \<open>builtin_variable_definition_item\<close>, with \<open>parens\<close> and \<open>dquotes\<close>\<close>
  "item_step G = (\<lambda>(f, parens, dquotes).
     either (\<lambda>ts. ts \<noteq> [] \<and> hd ts \<in> {Sym ''('', Sym '')'', Sym [dquote_char], Sym '';''} \<or> looking_at [is_eol] ts)
       (next_token (\<lambda>t. Parsed (f @ [leaf t],
          if t = Sym ''('' then parens + 1 else if t = Sym '')'' then parens - 1 else parens,
          if t = Sym [dquote_char] then \<not> dquotes else dquotes)))
       (get (expansion_base G) (\<lambda>g. Parsed (f @ g, parens, dquotes))))"

definition item_goes_on :: "int \<Rightarrow> bool \<Rightarrow> lexeme list \<Rightarrow> bool" where
  "item_goes_on parens dquotes ts \<longleftrightarrow> ts \<noteq> [] \<and>
     (if hd ts = Sym '';'' then dquotes else if is_eol (hd ts) then 0 < parens \<or> dquotes else True)"

definition builtin_variable_definition_item :: "rules \<Rightarrow> forest parser" where
  "builtin_variable_definition_item G = either (item_goes_on 0 False)
     (get (\<lambda>ts. repeat_while (length ts) (\<lambda>_. True) (\<lambda>(f, parens, dquotes).
           either (item_goes_on parens dquotes) (item_step G (f, parens, dquotes)) (Parsed (f, parens, dquotes)))
         ([], 0, False) ts)
       (\<lambda>(f, _, _). Parsed f)) fail"

section \<open>Conditions\<close>

definition unary_ahead :: "lexeme list \<Rightarrow> bool" where
  \<comment> \<open>the predicate \<open>(unary_operator)\<close>\<close>
  "unary_ahead = looking_at [(=) (Sym ''-''), is_letter_token]"

definition condition_unary :: "rules \<Rightarrow> forest parser" where
  \<comment> \<open>\<open>keyword_condition_unary\<close> and \<open>builtin_condition_unary\<close>\<close>
  "condition_unary G = next_token (\<lambda>_. next_token (\<lambda>op. blank (get (string_expr_rule G) (\<lambda>f.
     Parsed [Tree (Real op) f]))))"

primrec pattern_part_loop ::
  "nat \<Rightarrow> lexeme option \<Rightarrow> int \<Rightarrow> bool \<Rightarrow> forest \<Rightarrow> forest parser" where
  \<comment> \<open>the loop of \<open>bash_pattern_part\<close> with the token before, \<open>parens\<close> and \<open>quoted\<close>\<close>
  "pattern_part_loop 0 prev parens quoted f ts = Parsed f ts"
| "pattern_part_loop (Suc n) prev parens quoted f ts = (case ts of
       [] \<Rightarrow> Parsed f ts
     | t # ts' \<Rightarrow>
         let counts = (\<lambda>k :: int. if map_option is_esc prev = Some True then parens else parens + k)
         in if t = Sym [dquote_char] then pattern_part_loop n (Some t) parens (\<not> quoted) f ts'
         else if quoted
         then pattern_part_loop n (Some t) parens quoted (f @ imaginary ''ESCAPED_CHAR'' [] @ [leaf t]) ts'
         else if is_esc t \<and> looking_at [is_blank] ts'
         then pattern_part_loop n (Some (hd ts')) parens quoted (f @ [leaf t, leaf (hd ts')]) (tl ts')
         else if t = Sym ''('' then pattern_part_loop n (Some t) (counts 1) quoted (f @ [leaf t]) ts'
         else if t = Sym ''(('' then pattern_part_loop n (Some t) (counts 2) quoted (f @ [leaf t]) ts'
         else if t = Sym '')'' \<and> parens \<noteq> 0
         then pattern_part_loop n (Some t) (counts (- 1)) quoted (f @ [leaf t]) ts'
         else if is_blank t \<or> is_eol t \<or> t \<in> {Sym ''&&'', Sym ''||'', Sym '')''} then Parsed f ts
         else pattern_part_loop n (Some t) parens quoted (f @ [leaf t]) ts')"

definition bash_pattern_part :: "forest parser" where
  "bash_pattern_part ts = get (pattern_part_loop (Suc (length ts)) None 0 False [])
     (\<lambda>f ts'. if ts' = ts then Syntax_error else Parsed f ts') ts"

definition pattern_condition :: "rules \<Rightarrow> string \<Rightarrow> forest \<Rightarrow> forest parser" where
  \<comment> \<open>\<open>BLANK extended_pattern_match+\<close>\<close>
  "pattern_condition G name l = blank (get (some_more part_ahead (extended_pattern_match G)) (\<lambda>f.
     Parsed (imaginary name (l @ imaginary ''STRING'' f))))"

definition keyword_condition_binary :: "rules \<Rightarrow> forest parser" where
  "keyword_condition_binary G = get (string_expr_rule G) (\<lambda>l.
     either (looking_at [is_blank, (=) (Sym ''=''), (=) (Sym ''~'')])
       (next_token (\<lambda>_. next_token (\<lambda>_. next_token (\<lambda>_. blank (get bash_pattern_part (\<lambda>f.
          Parsed (imaginary ''MATCH_REGULAR_EXPRESSION'' (l @ imaginary ''STRING'' f))))))))
    (either (looking_at [is_blank, (=) (Sym ''-'')])
       (next_token (\<lambda>_. next_token (\<lambda>_. satisfying is_name_token (\<lambda>op. blank (get (string_expr_rule G) (\<lambda>r.
          Parsed [Tree (Real op) (l @ r)]))))))
    (either (looking_at [is_blank, (=) (Sym ''=''), is_blank])
       (next_token (\<lambda>_. next_token (\<lambda>op. blank (get (string_expr_rule G) (\<lambda>r. Parsed [Tree (Real op) (l @ r)])))))
    (either (\<lambda>ts. looking_at [\<lambda>t. t = Sym ''<'' \<or> t = Sym ''>''] (skip_blank ts))
       (opt_blank (next_token (\<lambda>op. opt_blank (get (string_expr_rule G) (\<lambda>r. Parsed [Tree (Real op) (l @ r)])))))
    (either (looking_at [is_blank, (=) (Sym ''!''), (=) (Sym ''='')])
       (next_token (\<lambda>_. next_token (\<lambda>_. next_token (\<lambda>_. pattern_condition G ''NOT_MATCH_PATTERN'' l))))
    (either (looking_at [is_blank, (=) (Sym ''=''), (=) (Sym ''='')])
       (next_token (\<lambda>_. next_token (\<lambda>_. next_token (\<lambda>_. pattern_condition G ''MATCH_PATTERN'' l))))
       (Parsed l)))))))"

primrec condition_primary ::
  "nat \<Rightarrow> forest parser \<Rightarrow> forest parser \<Rightarrow> forest parser \<Rightarrow> forest parser" where
  \<comment> \<open>\<open>keyword_condition_primary\<close> and \<open>builtin_condition_primary\<close>, with at most \<open>n\<close> negations\<close>
  "condition_primary 0 condition one two ts = Not_modelled"
| "condition_primary (Suc n) condition one two ts =
     either (sees [Sym ''('']) (expect (Sym ''('') (opt_blank (get condition (\<lambda>f.
        opt_blank (expect (Sym '')'') (Parsed f))))))
     (either (sees [Sym ''!'']) (expect (Sym ''!'') (blank (get (condition_primary n condition one two) (\<lambda>f.
        Parsed (imaginary ''NEGATION'' f)))))
     (either unary_ahead one two)) ts"

definition keyword_condition_primary :: "rules \<Rightarrow> forest parser" where
  "keyword_condition_primary G ts =
     condition_primary (Suc (length ts)) (r_keyword_condition G) (condition_unary G) (keyword_condition_binary G) ts"

definition wspace_chain :: "string \<Rightarrow> forest parser \<Rightarrow> forest parser" where
  \<comment> \<open>\<open>sub (wspace!? OP^ wspace!? sub)*\<close>\<close>
  "wspace_chain op sub = get sub (repeating (\<lambda>ts. sees [Sym op] (skip_wspace ts))
     (\<lambda>f. opt_wspace (expect (Sym op) (opt_wspace (get sub (\<lambda>g. Parsed [Tree (Real (Sym op)) (f @ g)]))))))"

definition keyword_condition_and :: "rules \<Rightarrow> forest parser" where
  "keyword_condition_and G = wspace_chain ''&&'' (keyword_condition_primary G)"

definition keyword_condition_rule :: "rules \<Rightarrow> forest parser" where
  "keyword_condition_rule G = wspace_chain ''||'' (keyword_condition_and G)"

definition builtin_operator_ahead :: "lexeme list \<Rightarrow> bool" where
  "builtin_operator_ahead ts \<longleftrightarrow> looking_at [is_blank, (=) (Sym ''-''), is_name_token] ts \<or>
     looking_at [is_blank, \<lambda>t. t \<in> {Sym ''='', Sym ''!'', Escape [backslash_char, CHR ''<''], Escape [backslash_char, CHR ''>'']}] ts"

definition builtin_binary_string_operator :: "(node \<Rightarrow> 'r parser) \<Rightarrow> 'r parser" where
  "builtin_binary_string_operator k = next_token (\<lambda>t.
     if t = Sym ''-'' then satisfying is_name_token (\<lambda>op. k (Real op))
     else if t = Sym ''='' then either (sees [Sym ''='']) (next_token (\<lambda>_. k (Real t))) (k (Real t))
     else if t = Sym ''!'' then expect (Sym ''='') (k (Imaginary ''NOT_EQUALS''))
     else k (Real t))"

definition builtin_condition_binary :: "rules \<Rightarrow> forest parser" where
  "builtin_condition_binary G = get (string_expr_rule G) (\<lambda>l. either builtin_operator_ahead
     (blank (builtin_binary_string_operator (\<lambda>op. blank (get (string_expr_rule G) (\<lambda>r. Parsed [Tree op (l @ r)])))))
     (Parsed l))"

definition builtin_condition_primary :: "rules \<Rightarrow> forest parser" where
  "builtin_condition_primary G ts =
     condition_primary (Suc (length ts)) (r_builtin_condition G) (condition_unary G) (builtin_condition_binary G) ts"

definition logic_chain :: "string \<Rightarrow> string \<Rightarrow> forest parser \<Rightarrow> forest parser" where
  \<comment> \<open>\<open>sub (op^ BLANK! sub)*\<close> with the operators \<open>builtin_logic_and\<close> and \<open>builtin_logic_or\<close>\<close>
  "logic_chain letter name sub = get sub (repeating (looking_at [is_blank, (=) (Sym ''-''), (=) (Letter_token letter)])
     (\<lambda>f. next_token (\<lambda>_. next_token (\<lambda>_. next_token (\<lambda>_. blank (get sub (\<lambda>g. Parsed (imaginary name (f @ g)))))))))"

definition builtin_condition_and :: "rules \<Rightarrow> forest parser" where
  "builtin_condition_and G = logic_chain ''a'' ''BUILTIN_LOGIC_AND'' (builtin_condition_primary G)"

definition builtin_condition_rule :: "rules \<Rightarrow> forest parser" where
  "builtin_condition_rule G = logic_chain ''o'' ''BUILTIN_LOGIC_OR'' (builtin_condition_and G)"

definition is_test :: "lexeme list \<Rightarrow> bool" where
  \<comment> \<open>\<open>LA(1) == NAME && LA(2) == BLANK\<close> with the name \<open>test\<close>\<close>
  "is_test = looking_at [(=) (Name_token ''test''), is_blank]"

definition condition_expr :: "rules \<Rightarrow> forest parser" where
  "condition_expr G = either (sees [Sym ''['', Sym ''[''])
     (next_token (\<lambda>_. next_token (\<lambda>_. wspace (get (keyword_condition_rule G) (\<lambda>f.
        wspace (expect (Sym '']'') (expect (Sym '']'') (Parsed (imaginary ''KEYWORD_TEST'' f)))))))))
     (either (sees [Sym ''[''])
       (next_token (\<lambda>_. wspace (get (builtin_condition_rule G) (\<lambda>f.
          wspace (expect (Sym '']'') (Parsed (imaginary ''BUILTIN_TEST'' f)))))))
     (either is_test
       (next_token (\<lambda>_. opt_wspace (get (builtin_condition_rule G) (\<lambda>f. Parsed (imaginary ''BUILTIN_TEST'' f))))) fail))"

section \<open>Compound commands\<close>

definition keyword :: "string \<Rightarrow> 'r parser \<Rightarrow> 'r parser" where
  "keyword w = expect (Keyword w)"

definition semiel :: "'r parser \<Rightarrow> 'r parser" where
  "semiel k = opt_blank (satisfying (\<lambda>t. t = Sym '';'' \<or> is_eol t) (\<lambda>_. opt_wspace k))"

definition do_done :: "rules \<Rightarrow> (forest \<Rightarrow> 'r parser) \<Rightarrow> 'r parser" where
  \<comment> \<open>\<open>DO wspace command_list semiel DONE\<close>\<close>
  "do_done G k = keyword ''do'' (wspace (get (r_command_list G) (\<lambda>f. semiel (keyword ''done'' (k f)))))"

definition for_each_value_ahead :: "lexeme list \<Rightarrow> bool" where
  "for_each_value_ahead = looking_at [is_blank, \<lambda>t. \<not> is_eol t \<and> t \<noteq> Sym '';'' \<and> t \<noteq> Keyword ''do'']"

definition for_each_values :: "rules \<Rightarrow> forest parser" where
  "for_each_values G = many for_each_value_ahead (blank (string_expr_rule G))"

definition opt_arithmetics :: "rules \<Rightarrow> string \<Rightarrow> (forest \<Rightarrow> 'r parser) \<Rightarrow> 'r parser" where
  \<comment> \<open>\<open>(BLANK? arithmetics BLANK?|BLANK)?\<close>\<close>
  "opt_arithmetics G name k = opt_blank
     (either (looking_at [\<lambda>t. t = Sym '';'' \<or> t = Sym '';;'']) (k [])
     (get (r_arithmetics G) (\<lambda>f. opt_blank (k (imaginary name f)))))"

definition cfor_modification :: "rules \<Rightarrow> (forest \<Rightarrow> 'r parser) \<Rightarrow> 'r parser" where
  \<comment> \<open>\<open>(BLANK? mod=arithmetics)? wspace?\<close>\<close>
  "cfor_modification G k = either (\<lambda>ts. looking_at [\<lambda>t. t = Sym '')'' \<or> is_eol t] (skip_blank ts)) (opt_wspace (k []))
     (opt_blank (get (r_arithmetics G) (\<lambda>f. opt_wspace (k (imaginary ''FOR_MOD'' f)))))"

definition cfor_rest :: "rules \<Rightarrow> forest parser" where
  "cfor_rest G = opt_arithmetics G ''FOR_INIT'' (\<lambda>f.
     let modification = (\<lambda>g. cfor_modification G (\<lambda>m. expect (Sym '')'') (expect (Sym '')'') (semiel (do_done G (\<lambda>c.
           Parsed (imaginary ''CFOR'' (f @ g @ c @ m))))))))
     in either (sees [Sym '';;'']) (next_token (\<lambda>_. modification []))
          (expect (Sym '';'') (opt_arithmetics G ''FOR_COND'' (\<lambda>g. expect (Sym '';'') (modification g)))))"

definition cfor_expr :: "rules \<Rightarrow> forest parser" where
  "cfor_expr G = expect (Sym ''(('') (either (looking_at [is_eol]) (next_token (\<lambda>_. cfor_rest G)) (cfor_rest G))"

definition for_in_expr :: "rules \<Rightarrow> forest parser" where
  "for_in_expr G = satisfying is_name (\<lambda>t.
     either (\<lambda>ts. looking_at [(=) (Keyword ''in'')] (skip_wspace ts))
       (wspace (keyword ''in'' (get (for_each_values G) (\<lambda>f. opt_blank
          (satisfying (\<lambda>u. u = Sym '';'' \<or> is_eol u) (\<lambda>_. opt_wspace (do_done G (\<lambda>g.
             Parsed [Tree (Real (Keyword ''for'')) (leaf t # f @ g)]))))))))
     (either (\<lambda>ts. sees [Sym '';''] (skip_wspace ts))
       (opt_wspace (expect (Sym '';'') (opt_wspace (do_done G (\<lambda>g. Parsed [Tree (Real (Keyword ''for'')) (leaf t # g)])))))
       (wspace (do_done G (\<lambda>g. Parsed [Tree (Real (Keyword ''for'')) (leaf t # g)])))))"

definition for_expr :: "rules \<Rightarrow> forest parser" where
  "for_expr G = keyword ''for'' (opt_blank (either (sees [Sym ''((''])  (cfor_expr G) (for_in_expr G)))"

definition select_expr :: "rules \<Rightarrow> forest parser" where
  "select_expr G = keyword ''select'' (blank (satisfying is_name (\<lambda>t.
     either (\<lambda>ts. looking_at [(=) (Keyword ''in'')] (skip_wspace ts))
       (wspace (keyword ''in'' (blank (get (string_expr_rule G) (\<lambda>f. semiel (do_done G (\<lambda>g.
          Parsed [Tree (Real (Keyword ''select'')) (leaf t # f @ g)])))))))
       (semiel (do_done G (\<lambda>g. Parsed [Tree (Real (Keyword ''select'')) (leaf t # g)]))))))"

definition then_branch :: "rules \<Rightarrow> (forest \<Rightarrow> forest) \<Rightarrow> forest parser" where
  \<comment> \<open>\<open>ag=command_list semiel THEN wspace iflist=command_list semiel\<close>\<close>
  "then_branch G mk = get (r_command_list G) (\<lambda>f. semiel (keyword ''then'' (wspace
     (get (r_command_list G) (\<lambda>g. semiel (Parsed (mk (f @ g))))))))"

definition if_node :: "forest \<Rightarrow> forest" where
  "if_node f = [Tree (Real (Keyword ''if'')) f]"

definition elif_expr :: "rules \<Rightarrow> forest parser" where
  "elif_expr G = keyword ''elif'' (blank (then_branch G if_node))"

definition if_expr :: "rules \<Rightarrow> forest parser" where
  "if_expr G = keyword ''if'' (wspace (get (then_branch G if_node) (\<lambda>f.
     get (many (looking_at [(=) (Keyword ''elif'')]) (elif_expr G)) (\<lambda>g.
     either (looking_at [(=) (Keyword ''else'')])
       (keyword ''else'' (wspace (get (r_command_list G) (\<lambda>h. semiel (keyword ''fi''
          (Parsed (imaginary ''IF_STATEMENT'' (f @ g @ [Tree (Real (Keyword ''else'')) h]))))))))
       (keyword ''fi'' (Parsed (imaginary ''IF_STATEMENT'' (f @ g))))))))"

definition while_expr :: "rules \<Rightarrow> forest parser" where
  \<comment> \<open>and \<open>until_expr\<close>\<close>
  "while_expr G = next_token (\<lambda>w. opt_wspace (get (r_command_list G) (\<lambda>f. semiel (do_done G (\<lambda>g.
     Parsed [Tree (Real w) (f @ g)])))))"

definition starts_command :: "lexeme \<Rightarrow> bool" where
  \<comment> \<open>the tokens that \<open>list_level_1\<close> can begin with\<close>
  "starts_command t \<longleftrightarrow> (starts_part t \<and> \<not> is_reserved_word t) \<or> t \<in> {Sym ''('', Sym ''(('', Sym ''>''} \<or>
     t \<in> set (map Keyword [''time'', ''for'', ''select'', ''if'', ''while'', ''until'', ''case''])"

definition esac_ahead :: "lexeme list \<Rightarrow> bool" where
  "esac_ahead ts \<longleftrightarrow> looking_at [\<lambda>t. is_blank t \<or> is_eol t] ts \<and> looking_at [(=) (Keyword ''esac'')] (skip_wspace ts)"

definition case_statement :: "rules \<Rightarrow> (forest \<times> bool) parser" where
  \<comment> \<open>with \<open>case_end\<close>\<close>
  "case_statement G = opt_wspace
     (let patterns = get (extended_pattern_rule G) (\<lambda>f.
            get (many (\<lambda>ts. sees [Sym ''|''] (skip_blank ts))
              (opt_blank (expect (Sym ''|'') (opt_blank (extended_pattern_rule G))))) (\<lambda>g.
              opt_blank (expect (Sym '')'') (Parsed (f @ g)))));
          finish = (\<lambda>f. either esac_ahead (wspace (keyword ''esac'' (Parsed (imaginary ''CASE_PATTERN'' f, True))))
            (opt_wspace (expect (Sym '';;'') (either esac_ahead
               (wspace (keyword ''esac'' (Parsed (imaginary ''CASE_PATTERN'' f, True))))
               (Parsed (imaginary ''CASE_PATTERN'' f, False))))))
      in get (either (sees [Sym ''('']) (expect (Sym ''('') (opt_blank patterns)) patterns) (\<lambda>f.
           either (\<lambda>ts. looking_at [\<lambda>t. is_blank t \<or> is_eol t] ts \<and> looking_at [starts_command] (skip_wspace ts))
             (wspace (get (r_command_list G) (\<lambda>g. finish (f @ imaginary ''CASE_COMMAND'' [] @ g))))
             (finish f)))"

definition case_ahead :: "lexeme list \<Rightarrow> bool" where
  \<comment> \<open>a \<open>case_statement\<close> can begin\<close>
  "case_ahead ts \<longleftrightarrow> looking_at [\<lambda>t. starts_part t \<or> t = Sym ''(''] (skip_wspace ts)"

definition case_body :: "rules \<Rightarrow> forest parser" where
  "case_body G = either esac_ahead (wspace (keyword ''esac'' (Parsed (imaginary ''CASE_PATTERN'' []))))
     (get (case_statement G) (\<lambda>s. get
        (\<lambda>ts. repeat_while (length ts) (\<lambda>_. True) (\<lambda>(f, ended).
           if ended then Parsed (f, ended)
           else either case_ahead (get (case_statement G) (\<lambda>(g, ended). Parsed (f @ g, ended))) (Parsed (f, ended))) s ts)
        (\<lambda>(f, _). Parsed f)))"

definition case_expr :: "rules \<Rightarrow> forest parser" where
  "case_expr G = keyword ''case'' (blank (get (string_expr_rule G) (\<lambda>f. wspace (keyword ''in'' (get (case_body G) (\<lambda>g.
     Parsed [Tree (Real (Keyword ''case'')) (f @ g)]))))))"

definition subshell :: "rules \<Rightarrow> forest parser" where
  "subshell G = expect (Sym ''('') (opt_wspace (get (r_command_list G) (\<lambda>f.
     either (\<lambda>ts. sees [Sym '';''] (skip_blank ts))
       (opt_blank (expect (Sym '';'') (opt_wspace (expect (Sym '')'') (Parsed (imaginary ''SUBSHELL'' f))))))
       (opt_wspace (expect (Sym '')'') (Parsed (imaginary ''SUBSHELL'' f)))))))"

definition current_shell :: "rules \<Rightarrow> forest parser" where
  "current_shell G = expect (Sym ''{'') (wspace (get (r_command_list G) (\<lambda>f.
     semiel (expect (Sym ''}'') (Parsed (imaginary ''CURRENT_SHELL'' f))))))"

definition arithmetic_expression :: "rules \<Rightarrow> forest parser" where
  "arithmetic_expression G = expect (Sym ''(('') (opt_wspace (get (r_arithmetics G) (\<lambda>f.
     opt_wspace (expect (Sym '')'') (expect (Sym '')'') (Parsed (imaginary ''ARITHMETIC_EXPRESSION'' f)))))))"

definition compound_command :: "rules \<Rightarrow> forest parser" where
  "compound_command G ts = (case ts of
       Keyword w # _ \<Rightarrow>
         if w = ''for'' then for_expr G ts else if w = ''select'' then select_expr G ts
         else if w = ''if'' then if_expr G ts else if w = ''while'' \<or> w = ''until'' then while_expr G ts
         else if w = ''case'' then case_expr G ts else Syntax_error
     | t # _ \<Rightarrow>
         if t = Sym ''('' then subshell G ts else if t = Sym ''{'' then current_shell G ts
         else if t = Sym ''(('' then arithmetic_expression G ts
         else get (condition_expr G) (\<lambda>f. Parsed (imaginary ''COMPOUND_COND'' f)) ts
     | [] \<Rightarrow> Syntax_error)"

section \<open>Simple commands and function definitions\<close>

definition bash_command_argument_atom :: "rules \<Rightarrow> forest parser" where
  "bash_command_argument_atom G = either (sees [Sym ''{''])
     (if_matches (brace_expansion G) (brace_expansion G) (next_token (\<lambda>t. Parsed [leaf t])))
     (either (sees [Sym ''}'']) (next_token (\<lambda>t. Parsed [leaf t])) (string_expr_part G))"

definition bash_command_arguments :: "rules \<Rightarrow> forest parser" where
  "bash_command_arguments G = get (some_more (\<lambda>ts. part_ahead ts \<or> sees [Sym ''}''] ts) (bash_command_argument_atom G))
     (\<lambda>f. Parsed (imaginary ''STRING'' f))"

definition bash_command :: "rules \<Rightarrow> forest parser" where
  "bash_command G = get (string_expr_no_reserved_word G) (\<lambda>f. \<lambda>ts. repeat_while (length ts) (\<lambda>_. True)
     (\<lambda>f. if_matches (blank (bash_command_arguments G))
        (blank (get (bash_command_arguments G) (\<lambda>g. Parsed (f @ g)))) (Parsed f)) f ts)"

definition parens_ahead :: "lexeme list \<Rightarrow> bool" where
  \<comment> \<open>\<open>BLANK? parens\<close>\<close>
  "parens_ahead ts \<longleftrightarrow> (case skip_blank ts of t # ts' \<Rightarrow> t = Sym ''('' \<and> sees [Sym '')''] (skip_blank ts') | [] \<Rightarrow> False)"

definition function_body :: "rules \<Rightarrow> forest \<Rightarrow> forest parser" where
  \<comment> \<open>from \<open>BLANK? parens wspace?\<close> on\<close>
  "function_body G f = opt_blank (expect (Sym ''('') (opt_blank (expect (Sym '')'') (opt_wspace
     (get (compound_command G) (\<lambda>g. Parsed (imaginary ''FUNCTION'' (f @ g))))))))"

definition argument_ahead :: "lexeme list \<Rightarrow> bool" where
  \<comment> \<open>the predicate of the loop over \<open>bash_command_arguments\<close> in \<open>command_atom\<close>\<close>
  "argument_ahead ts \<longleftrightarrow> looking_at [is_blank, \<lambda>t. \<not> is_special_token t] ts \<and>
     \<not> looking_at [is_blank, is_digit_token, \<lambda>t. t \<in> set redirection_syms] ts"

definition command_name :: "rules \<Rightarrow> forest parser" where
  "command_name G = either (sees [Sym ''>''])
     (get (redirection_atom G) (\<lambda>f. Parsed (f @ imaginary ''STRING'' (imaginary ''NAME'' []))))
     (string_expr_no_reserved_word G)"

definition starts_compound :: "lexeme list \<Rightarrow> bool" where
  \<comment> \<open>the first predicate of \<open>command_atom\<close>\<close>
  "starts_compound ts \<longleftrightarrow> is_test ts \<or> looking_at [\<lambda>t. t \<in> {Sym ''('', Sym ''{'', Sym ''(('', Sym ''[''} \<or>
     t \<in> set (map Keyword [''for'', ''select'', ''if'', ''while'', ''until'', ''case''])] ts"

definition builtin_definition :: "rules \<Rightarrow> forest parser" where
  \<comment> \<open>the alternatives of \<open>command_atom\<close> for \<open>EXPORT\<close>, \<open>LOCAL\<close> and \<open>DECLARE\<close>\<close>
  "builtin_definition G = next_token (\<lambda>t. blank (get (builtin_variable_definition_item G) (\<lambda>f.
     Parsed (imaginary ''STRING'' [leaf t] @ imaginary ''STRING'' f))))"

definition command_atom_rule :: "rules \<Rightarrow> forest parser" where
  "command_atom_rule G = either starts_compound (compound_command G)
     (either (looking_at [(=) (Name_token ''function''), is_blank])
       (next_token (\<lambda>_. blank (get (string_expr_no_reserved_word G) (\<lambda>f. either parens_ahead (function_body G f)
          (wspace (get (compound_command G) (\<lambda>g. Parsed (imaginary ''FUNCTION'' (f @ g)))))))))
     (either definition_ahead
       (get (variable_definitions G) (\<lambda>f. if_matches (blank (bash_command G))
          (blank (get (bash_command G) (\<lambda>g. Parsed (g @ f)))) (Parsed (imaginary ''VARIABLE_DEFINITIONS'' f))))
     (either (looking_at [\<lambda>t. t \<in> set (map Keyword [''export'', ''local'', ''declare''])]) (builtin_definition G)
     (get (command_name G) (\<lambda>f. either parens_ahead (function_body G f)
        (get (many argument_ahead (blank (bash_command_arguments G))) (\<lambda>g. Parsed (f @ g))))))))"

section \<open>Here documents\<close>

text \<open>The grammar accepts them, but the tree walker has no rule for the trees.\<close>

definition here_word_token :: "lexeme \<Rightarrow> bool" where
  \<comment> \<open>the tokens of \<open>here_document_begin\<close>\<close>
  "here_word_token t \<longleftrightarrow> \<not> is_eol t \<and> \<not> is_blank t \<and>
     t \<notin> set (map Sym [''<'', ''<<<'', ''>'', ''>>'', ''&<'', ''&>'', ''&>>''])"

definition add_here_word :: "lexeme \<Rightarrow> string \<times> nat \<Rightarrow> string \<times> nat" where
  \<comment> \<open>\<open>here_document_word\<close> and \<open>number_of_tokens\<close>; \<open>LA(-1)\<close> is the token that was just taken\<close>
  "add_here_word t = (\<lambda>(word, n).
     if t \<noteq> Sym [dquote_char] \<and> \<not> is_esc t then (word @ lexeme_text t, n + 1) else (word, n))"

definition here_document_begin :: "(string \<times> nat) parser" where
  "here_document_begin = satisfying here_word_token (\<lambda>t. repeating (looking_at [here_word_token])
     (\<lambda>w. next_token (\<lambda>t. Parsed (add_here_word t w))) (add_here_word t ([], 0)))"

definition is_here_end :: "string \<Rightarrow> nat \<Rightarrow> lexeme list \<Rightarrow> bool" where
  \<comment> \<open>the text of the token at the end of the input is not a part of a word\<close>
  "is_here_end word n ts \<longleftrightarrow> n \<le> length ts \<and> concat (map lexeme_text (take n ts)) = word"

definition here_document_content :: "string \<Rightarrow> nat \<Rightarrow> forest parser" where
  \<comment> \<open>with the question mark behind it\<close>
  "here_document_content word n = many (\<lambda>ts. ts \<noteq> [] \<and> \<not> is_here_end word n ts) (next_token (\<lambda>t. Parsed [leaf t]))"

definition here_document_end :: "nat \<Rightarrow> 'r parser \<Rightarrow> 'r parser" where
  \<comment> \<open>as many tokens as the word has, at least one\<close>
  "here_document_end n k ts = (if n = 0 \<or> ts = [] then Syntax_error else k (drop n ts))"

definition here_document_operator :: "(string \<Rightarrow> 'r parser) \<Rightarrow> 'r parser" where
  "here_document_operator k = expect (Sym ''<<'')
     (either (sees [Sym ''-'']) (next_token (\<lambda>_. k ''<<-'')) (k ''<<''))"

definition here_document :: "rules \<Rightarrow> forest parser" where
  "here_document G = opt_blank (here_document_operator (\<lambda>op. opt_blank (get here_document_begin (\<lambda>(word, n).
     get (either redirection_ahead (redirection G) (Parsed [])) (\<lambda>r. satisfying is_eol (\<lambda>_.
       get (here_document_content word n) (\<lambda>f. here_document_end n
         (Parsed [Tree (Operator op) (imaginary ''STRING'' f @ r)]))))))))"

definition here_document_ahead :: "lexeme list \<Rightarrow> bool" where
  "here_document_ahead ts \<longleftrightarrow> sees [Sym ''<<''] (skip_blank ts)"

section \<open>Commands and lists\<close>

definition command_rule :: "rules \<Rightarrow> forest parser" where
  "command_rule G = get (command_atom_rule G) (\<lambda>f.
     get (either redirection_ahead (redirection G) (Parsed [])) (\<lambda>r.
     get (either here_document_ahead (here_document G) (Parsed [])) (\<lambda>h.
       Parsed (imaginary ''COMMAND'' (r @ f @ h)))))"

fun add_child :: "forest \<Rightarrow> forest \<Rightarrow> forest" where
  \<comment> \<open>\<open>command^\<close> after what stands before it\<close>
  "add_child [Tree n f] g = [Tree n (f @ g)]"
| "add_child f g = f @ g"

definition time_rule :: "(forest \<Rightarrow> 'r parser) \<Rightarrow> 'r parser" where
  "time_rule k = either (looking_at [(=) (Keyword ''time'')])
     (next_token (\<lambda>t. blank (either (looking_at [(=) (Sym ''-''), is_letter_token, is_blank])
        (next_token (\<lambda>_. next_token (\<lambda>p. next_token (\<lambda>_. k [Tree (Real t) [leaf p]])))) (k [leaf t]))))
     (k [])"

definition piped :: "rules \<Rightarrow> forest \<Rightarrow> forest parser" where
  "piped G f = get (command_rule G) (\<lambda>c. repeating (\<lambda>ts. sees [Sym ''|''] (skip_blank ts))
     (\<lambda>f. opt_blank (next_token (\<lambda>op. opt_wspace (get (command_rule G) (\<lambda>g. Parsed [Tree (Real op) (f @ g)])))))
     (add_child c f))"

definition pipeline :: "rules \<Rightarrow> forest parser" where
  "pipeline G = time_rule (\<lambda>f. either (sees [Sym ''!''])
       (next_token (\<lambda>t. blank (piped G (f @ [leaf t])))) (piped G f))"

definition list_level_1 :: "rules \<Rightarrow> forest parser" where
  "list_level_1 G = get (pipeline G) (repeating
     (\<lambda>ts. looking_at [\<lambda>t. t = Sym ''&&'' \<or> t = Sym ''||''] (skip_blank ts))
     (\<lambda>f. opt_blank (next_token (\<lambda>op. opt_wspace (get (pipeline G) (\<lambda>g. Parsed [Tree (Real op) (f @ g)]))))))"

definition next_command :: "lexeme list \<Rightarrow> (forest \<times> lexeme list) option" where
  \<comment> \<open>\<open>BLANK!? command_separator (BLANK!? EOL!)* BLANK!?\<close> with a command after it: the separator's node
    and what is left\<close>
  "next_command ts = (case skip_blank ts of
       t # ts' \<Rightarrow>
         if (t \<in> {Sym '';'', Sym ''&''} \<or> is_eol t) \<and> looking_at [starts_command] (skip_wspace ts')
         then Some (if t = Sym ''&'' then [leaf t] else [], skip_wspace ts') else None
     | [] \<Rightarrow> None)"

definition list_level_2 :: "rules \<Rightarrow> forest parser" where
  "list_level_2 G = get (list_level_1 G) (repeating (\<lambda>ts. next_command ts \<noteq> None)
     (\<lambda>f ts. case next_command ts of
        Some (sep, ts') \<Rightarrow> get (list_level_1 G) (\<lambda>g. Parsed (f @ sep @ g)) ts' | None \<Rightarrow> Syntax_error))"

definition command_list_parser :: "rules \<Rightarrow> forest parser" where
  \<comment> \<open>the rule \<open>command_list\<close>\<close>
  "command_list_parser G = get (list_level_2 G) (\<lambda>f. Parsed (imaginary ''LIST'' f))"

definition first_line_comment :: "lexeme list \<Rightarrow> lexeme list" where
  \<comment> \<open>without the \<open>EOL\<close>\<close>
  "first_line_comment ts = (if sees [Sym ''#''] ts then dropWhile (\<lambda>t. \<not> is_eol t) ts else ts)"

definition at_end :: "forest \<Rightarrow> forest parser" where
  \<comment> \<open>\<open>EOF\<close>\<close>
  "at_end f ts = (if ts = [] then Parsed f [] else Syntax_error)"

definition start_rule :: "rules \<Rightarrow> forest parser" where
  "start_rule G ts =
     (if sees [Sym ''#''] ts \<and> first_line_comment ts = [] then Syntax_error
      else (opt_blank (get (command_list_parser G) (\<lambda>f. opt_blank
        (either (looking_at [\<lambda>t. t \<in> {Sym '';'', Sym ''&''} \<or> is_eol t]) (next_token (\<lambda>_. at_end f)) (at_end f)))))
        (dropWhile is_eol (first_line_comment ts)))"

section \<open>The parser\<close>

primrec grammar :: "nat \<Rightarrow> rules" where
  \<comment> \<open>the rules, nested at most \<open>n\<close> deep\<close>
  "grammar 0 = \<lparr>r_arithmetics = \<lambda>ts. Not_modelled, r_string_expr_part = \<lambda>ts. Not_modelled,
     r_extended_pattern = \<lambda>ts. Not_modelled, r_keyword_condition = \<lambda>ts. Not_modelled,
     r_builtin_condition = \<lambda>ts. Not_modelled, r_command_list = \<lambda>ts. Not_modelled\<rparr>"
| "grammar (Suc n) = (let G = grammar n in \<lparr>r_arithmetics = arithmetics G, r_string_expr_part = string_expr_part G,
     r_extended_pattern = extended_pattern_rule G, r_keyword_condition = keyword_condition_rule G,
     r_builtin_condition = builtin_condition_rule G, r_command_list = command_list_parser G\<rparr>)"

end
