(* ===== verification/Tree_Rules.thy ===== *)
theory Tree_Rules
  imports Parsing Syntax "HOL-Library.Monad_Syntax"
begin

text \<open>
  bashast/libbashWalker.g, the shape of the rules for arithmetic, expansions and words: which trees of the
  parser they accept, and as which tree of the theory Syntax. What each rule makes of a tree is read from its root
  and from what the rules make of its children. \<open>None\<close> is a tree that the rule does not
  accept. A rule that takes several trees in a row gives those that are left, too.
\<close>

section \<open>What the rules make of a tree\<close>

text \<open>One field for each rule, or alternative of a rule, that takes one tree.\<close>

record reading =
  root_node :: node
  childless :: bool
  as_arithmetic :: "arith option"
  as_part :: "arith option"                             \<comment> \<open>\<open>arithmetic_part\<close>\<close>
  as_primary :: "(arith, var_expansion) primary option"
  as_name :: "arith name option"
  as_var_name :: "arith var_name option"
  as_array_name :: "arith array_name option"
  as_array_size :: "string option"                      \<comment> \<open>\<open>^(name_base ARRAY_SIZE)\<close>\<close>
  as_offset :: "arith option"                           \<comment> \<open>\<open>^(OFFSET arithmetics)\<close>\<close>
  as_raw_string :: "raw_string option"
  as_expansion :: "var_expansion option"
  as_var_ref :: "(arith, var_expansion) var_ref option"
  as_substitution :: "any_token list option"            \<comment> \<open>\<open>command_substitution\<close>\<close>
  as_string_part :: "(arith, var_expansion) string_part option"
  as_class :: "string option"                           \<comment> \<open>\<open>^(CHARACTER_CLASS NAME)\<close>\<close>
  as_basic :: "(arith, var_expansion) basic_pattern option"
  as_branch :: "(arith, var_expansion) branch option"
  as_extended :: "(arith, var_expansion) pattern_item option"
  as_pattern :: "(arith, var_expansion) pattern_item list option"
  as_brace :: "string_expr list option"                 \<comment> \<open>\<open>^(BRACE_EXP brace_expansion)\<close>\<close>
  as_string_expr :: "string_expr option"

section \<open>Sequences of trees\<close>

definition one :: "('r \<Rightarrow> 'x option) \<Rightarrow> 'r list \<Rightarrow> ('x \<times> 'r list) option" where
  "one f rs = (case rs of r # rs' \<Rightarrow> map_option (\<lambda>x. (x, rs')) (f r) | [] \<Rightarrow> None)"

definition only :: "('r list \<Rightarrow> ('x \<times> 'r list) option) \<Rightarrow> 'r list \<Rightarrow> 'x option" where
  \<comment> \<open>up to the last tree\<close>
  "only p rs = (case p rs of Some (x, []) \<Rightarrow> Some x | _ \<Rightarrow> None)"

primrec whole_within :: "nat \<Rightarrow> ('r list \<Rightarrow> ('x \<times> 'r list) option) \<Rightarrow> 'r list \<Rightarrow> 'x list option" where
  "whole_within 0 p rs = (if rs = [] then Some [] else None)"
| "whole_within (Suc n) p rs = (if rs = [] then Some []
     else do {(x, rs') \<leftarrow> p rs; xs \<leftarrow> whole_within n p rs'; Some (x # xs)})"

definition whole :: "('r list \<Rightarrow> ('x \<times> 'r list) option) \<Rightarrow> 'r list \<Rightarrow> 'x list option" where
  \<comment> \<open>\<open>p*\<close>, up to the last tree; each round takes a tree\<close>
  "whole p rs = whole_within (length rs) p rs"

section \<open>Arithmetic\<close>

fun arithmetic_parts :: "'z reading_scheme list \<Rightarrow> (arith list \<times> 'z reading_scheme list) option" where
  \<comment> \<open>the loop \<open>((ARITHMETIC) => arithmetic_part)+\<close> of \<open>arithmetics\<close>: it goes on as long as there are such trees\<close>
  "arithmetic_parts [] = Some ([], [])"
| "arithmetic_parts (r # rs) = (if root_node r = Imaginary ''ARITHMETIC''
     then do {e \<leftarrow> as_part r; (es, rest) \<leftarrow> arithmetic_parts rs; Some (e # es, rest)}
     else Some ([], r # rs))"

definition arithmetics_rule :: "'z reading_scheme list \<Rightarrow> (arith \<times> 'z reading_scheme list) option" where
  "arithmetics_rule rs = (if rs \<noteq> [] \<and> root_node (hd rs) = Imaginary ''ARITHMETIC''
     then do {(es, rest) \<leftarrow> arithmetic_parts rs; Some (Parts es, rest)} else one as_arithmetic rs)"

definition binary_nodes :: "(node \<times> binop) list" where
  "binary_nodes = [(Real (Sym ''|''), Bit_or), (Real (Sym ''^''), Bit_xor), (Real (Sym ''&''), Bit_and),
     (Imaginary ''LEQ'', Op_leq), (Imaginary ''GEQ'', Op_geq), (Real (Sym ''<''), Op_less),
     (Real (Sym ''>''), Op_greater), (Imaginary ''NOT_EQUALS'', Not_equals), (Imaginary ''EQUALS_TO'', Equals_to),
     (Real (Sym ''<<''), Lshift), (Real (Sym ''>>''), Rshift), (Real (Sym ''+''), Op_plus),
     (Real (Sym ''-''), Op_minus), (Real (Sym ''*''), Op_times), (Real (Sym ''/''), Slash),
     (Real (Sym ''%''), Pct), (Real (Sym ''**''), Op_exp)]"

definition unary_nodes :: "(node \<times> unop) list" where
  "unary_nodes = [(Imaginary ''PLUS_SIGN'', Plus_sign), (Imaginary ''MINUS_SIGN'', Minus_sign),
     (Real (Sym ''!''), Bang), (Real (Sym ''~''), Tilde)]"

definition step_nodes :: "(node \<times> step_op) list" where
  "step_nodes = [(Imaginary ''PRE_INCR'', Pre_incr), (Imaginary ''PRE_DECR'', Pre_decr),
     (Imaginary ''POST_INCR'', Post_incr), (Imaginary ''POST_DECR'', Post_decr)]"

definition assign_nodes :: "(node \<times> assign_op) list" where
  "assign_nodes = [(Imaginary ''MUL_ASSIGN'', Mul_assign), (Imaginary ''DIVIDE_ASSIGN'', Divide_assign),
     (Imaginary ''MOD_ASSIGN'', Mod_assign), (Imaginary ''PLUS_ASSIGN'', Plus_assign),
     (Imaginary ''MINUS_ASSIGN'', Minus_assign), (Imaginary ''LSHIFT_ASSIGN'', Lshift_assign),
     (Imaginary ''RSHIFT_ASSIGN'', Rshift_assign), (Imaginary ''AND_ASSIGN'', And_assign),
     (Imaginary ''XOR_ASSIGN'', Xor_assign), (Imaginary ''OR_ASSIGN'', Or_assign)]"

definition logic_node :: "node \<Rightarrow> (arith \<Rightarrow> arith \<Rightarrow> arith) option" where
  "logic_node n = (if n = Real (Sym ''||'') then Some Logic_or
     else if n = Real (Sym ''&&'') then Some Logic_and else None)"

definition number_node :: "node \<Rightarrow> string option" where
  "number_node n = (case n of Real t \<Rightarrow> if is_num t then Some (lexeme_text t) else None | _ \<Rightarrow> None)"

definition arithmetic_node ::
  "node \<Rightarrow> (arith, var_expansion) primary option \<Rightarrow> 'z reading_scheme list \<Rightarrow> arith option" where
  \<comment> \<open>the rule \<open>arithmetic\<close>, with what \<open>primary\<close> makes of the tree. The right operand of \<open>&&\<close> and
    \<open>||\<close> has to be one tree, since the walker skips one tree where it does not evaluate it\<close>
  "arithmetic_node n p rs =
     (case logic_node n of Some f \<Rightarrow> do {(l, rs') \<leftarrow> arithmetics_rule rs; r \<leftarrow> only arithmetics_rule rs';
          if length rs' = 1 then Some (f l r) else None} | None \<Rightarrow>
      case map_of binary_nodes n of
        Some op \<Rightarrow> do {(l, rs') \<leftarrow> arithmetics_rule rs; r \<leftarrow> only arithmetics_rule rs'; Some (Binary op l r)} | None \<Rightarrow>
      case map_of unary_nodes n of Some op \<Rightarrow> map_option (Unary op) (only arithmetics_rule rs) | None \<Rightarrow>
      case map_of step_nodes n of Some op \<Rightarrow> map_option (Step op) (only (one as_primary) rs) | None \<Rightarrow>
      case map_of assign_nodes n of
        Some op \<Rightarrow> do {(x, rs') \<leftarrow> one as_primary rs; e \<leftarrow> only arithmetics_rule rs'; Some (Assign_op op x e)} | None \<Rightarrow>
      if n = Imaginary ''ARITHMETIC_CONDITION''
      then do {(c, rs') \<leftarrow> arithmetics_rule rs; (l, rs'') \<leftarrow> arithmetics_rule rs'; r \<leftarrow> only arithmetics_rule rs'';
             Some (Conditional c l r)}
      else if n = Real (Sym ''='')
      then do {(x, rs') \<leftarrow> one as_primary rs; e \<leftarrow> only arithmetics_rule rs'; Some (Assign x e)}
      else if n = Imaginary ''ARITHMETIC_EXPRESSION'' then map_option Arithmetic_expression (only arithmetics_rule rs)
      else if number_node n \<noteq> None \<and> rs = [] then map_option Number (number_node n)
      else case p of Some x \<Rightarrow> Some (Primary_value x)
      | None \<Rightarrow> if n = Imaginary ''VAR_REF'' then map_option Expansion_value (only (one as_expansion) rs) else None)"

section \<open>Names\<close>

definition name_base :: "node \<Rightarrow> string option" where
  "name_base n = (case n of Real t \<Rightarrow> if is_name t then Some (lexeme_text t) else None | _ \<Rightarrow> None)"

definition name_node :: "node \<Rightarrow> 'z reading_scheme list \<Rightarrow> arith name option" where
  "name_node n rs = do {x \<leftarrow> name_base n;
     if rs = [] then Some (Plain_name x) else map_option (Element_name x) (only arithmetics_rule rs)}"

definition is_token :: "node \<Rightarrow> 'z reading_scheme \<Rightarrow> bool" where
  "is_token n r \<longleftrightarrow> root_node r = n \<and> childless r"

definition bang_name_tree :: "'z reading_scheme \<Rightarrow> arith var_name option" where
  \<comment> \<open>\<open>^(VAR_REF var_name_for_bang)\<close> and \<open>^(VAR_REF POUND)\<close> of \<open>var_name\<close>\<close>
  "bang_name_tree r = (if is_token (Real (Sym ''#'')) r then Some Last_positional
     else if childless r \<and> number_node (root_node r) \<noteq> None
     then map_option Indirect_number (number_node (root_node r)) else map_option Indirect_name (as_name r))"

definition var_name_node :: "node \<Rightarrow> 'z reading_scheme list \<Rightarrow> arith var_name option" where
  "var_name_node n rs = (if n = Imaginary ''VAR_REF'' then only (one bang_name_tree) rs
     else if rs = [] \<and> number_node n \<noteq> None then map_option Positional_name (number_node n)
     else if rs = [] \<and> n = Real (Sym ''-'') then Some Options_name else map_option Named (name_node n rs))"

definition all_elements :: "node set" where
  "all_elements = {Real (Sym ''@''), Real (Sym ''*'')}"

definition array_name_node :: "node \<Rightarrow> 'z reading_scheme list \<Rightarrow> arith array_name option" where
  "array_name_node n rs = (if n = Imaginary ''ARRAY''
     then do {(x, rs') \<leftarrow> one as_name rs;
            only (one (\<lambda>r. if root_node r \<in> all_elements \<and> childless r then Some (Array_of x) else None)) rs'}
     else if rs = [] \<and> n \<in> all_elements then Some All_positional else None)"

definition primary_node :: "node \<Rightarrow> 'z reading_scheme list \<Rightarrow> (arith, var_expansion) primary option" where
  "primary_node n rs = (if n = Imaginary ''VAR_REF''
     then only (one (\<lambda>r. case as_name r of Some x \<Rightarrow> Some (Primary_reference x)
                        | None \<Rightarrow> map_option Primary_indirect (as_var_ref r))) rs
     else map_option Primary_name (name_node n rs))"

section \<open>Parameter expansions\<close>

definition operand_name_tree :: "'z reading_scheme \<Rightarrow> arith operand_name option" where
  \<comment> \<open>\<open>var_or_array_name\<close>\<close>
  "operand_name_tree r = (case as_array_name r of Some x \<Rightarrow> Some (Array_operand x)
     | None \<Rightarrow> map_option Name_operand (as_var_name r))"

definition word_expansions :: "(string \<times> (arith var_name \<Rightarrow> raw_string \<Rightarrow> var_expansion)) list" where
  "word_expansions = [(''USE_DEFAULT_WHEN_UNSET_OR_NULL'', Use_default_unset_or_null),
     (''USE_DEFAULT_WHEN_UNSET'', Use_default_unset),
     (''ASSIGN_DEFAULT_WHEN_UNSET_OR_NULL'', Assign_default_unset_or_null),
     (''ASSIGN_DEFAULT_WHEN_UNSET'', Assign_default_unset),
     (''USE_ALTERNATE_WHEN_UNSET_OR_NULL'', Use_alternate_unset_or_null),
     (''USE_ALTERNATE_WHEN_UNSET'', Use_alternate_unset)]"

definition replace_names :: "(string \<times> replace_op) list" where
  "replace_names = [(''REPLACE_ALL'', Replace_all), (''REPLACE_AT_END'', Replace_at_end),
     (''LAZY_REMOVE_AT_END'', Lazy_remove_at_end), (''REPLACE_AT_START'', Replace_at_start),
     (''LAZY_REMOVE_AT_START'', Lazy_remove_at_start), (''REPLACE_FIRST'', Replace_first)]"

definition offset_node :: "'z reading_scheme list \<Rightarrow> var_expansion option" where
  \<comment> \<open>the four alternatives that begin with \<open>OFFSET\<close>\<close>
  "offset_node rs = (case rs of
       [v, a, b] \<Rightarrow> do {offset \<leftarrow> as_offset a; len \<leftarrow> as_offset b;
         case as_array_name v of Some x \<Rightarrow> Some (Subarray_length x offset len)
         | None \<Rightarrow> map_option (\<lambda>x. Substring_length x offset len) (as_var_name v)}
     | [v, a] \<Rightarrow> do {offset \<leftarrow> as_offset a;
         case as_array_name v of Some x \<Rightarrow> Some (Subarray x offset)
         | None \<Rightarrow> map_option (\<lambda>x. Substring x offset) (as_var_name v)}
     | _ \<Rightarrow> None)"

definition replace_node :: "replace_op \<Rightarrow> 'z reading_scheme list \<Rightarrow> var_expansion option" where
  "replace_node op rs = do {(x, rs') \<leftarrow> one operand_name_tree rs; (items, rs'') \<leftarrow> one as_pattern rs';
     if rs'' = [] then Some (Replace op x items [])
     else map_option (Replace op x items) (only (one as_raw_string) rs'')}"

definition size_tree :: "'z reading_scheme \<Rightarrow> var_expansion option" where
  "size_tree r = (case as_var_name r of Some x \<Rightarrow> Some (Value_length x)
     | None \<Rightarrow> map_option Array_size (as_array_size r))"

definition expansion_node :: "node \<Rightarrow> 'z reading_scheme list \<Rightarrow> var_expansion option" where
  \<comment> \<open>the rule \<open>var_expansion\<close>\<close>
  "expansion_node n rs = (case n of
       Real t \<Rightarrow> if t = Sym ''#'' then only (one size_tree) rs else None
     | Imaginary s \<Rightarrow>
         if s = ''OFFSET'' then offset_node rs
         else (case map_of word_expansions s of
             Some f \<Rightarrow> do {(x, rs') \<leftarrow> one as_var_name rs; w \<leftarrow> only (one as_raw_string) rs'; Some (f x w)}
           | None \<Rightarrow> (case map_of replace_names s of Some op \<Rightarrow> replace_node op rs | None \<Rightarrow> None))
     | Operator s \<Rightarrow> None)"

definition var_ref_tree :: "'z reading_scheme \<Rightarrow> (arith, var_expansion) var_ref option" where
  \<comment> \<open>the child of \<open>VAR_REF\<close> in the rule \<open>var_ref\<close>\<close>
  "var_ref_tree r = (if is_token (Real (Sym ''#'')) r then Some Ref_count
     else if is_token (Real (Sym ''?'')) r then Some Ref_status
     else if is_token (Real (Sym ''!'')) r then Some Ref_bang
     else case as_var_name r of Some x \<Rightarrow> Some (Ref_name x)
     | None \<Rightarrow> (case as_array_name r of Some x \<Rightarrow> Some (Ref_array x)
         | None \<Rightarrow> map_option Ref_expansion (as_expansion r)))"

definition var_ref_node :: "node \<Rightarrow> 'z reading_scheme list \<Rightarrow> (arith, var_expansion) var_ref option" where
  "var_ref_node n rs = (if n = Imaginary ''VAR_REF'' then only (one var_ref_tree) rs else None)"

section \<open>Parts of a word\<close>

definition escaped_chars :: string where
  \<comment> \<open>the tokens \<open>ESC_...\<close> of the rule \<open>any_string\<close>\<close>
  "escaped_chars = [quote_char, dquote_char, tick_char] @ ''()[]$<>''"

fun token_of :: "lexeme \<Rightarrow> any_token" where
  "token_of (Escape s) = (if length s = 2 \<and> s ! 1 \<in> set escaped_chars then Escaped (s ! 1) else Token s)"
| "token_of t = Token (lexeme_text t)"

definition any_string :: "'z reading_scheme \<Rightarrow> any_token option" where
  \<comment> \<open>a token that the parser made has no text. A whole tree in place of a token is not accepted here\<close>
  "any_string r = (if childless r
     then Some (case root_node r of Real t \<Rightarrow> token_of t | _ \<Rightarrow> Token []) else None)"

definition raw_string_node :: "node \<Rightarrow> 'z reading_scheme list \<Rightarrow> raw_string option" where
  "raw_string_node n rs = (if n \<noteq> Imaginary ''STRING'' \<or> rs = [] then None
     else if length rs = 1 \<and> is_token (Imaginary ''EMPTY_EXPANSION_VALUE'') (hd rs) then Some []
     else those (map any_string rs))"

definition substitution_node :: "node \<Rightarrow> 'z reading_scheme list \<Rightarrow> any_token list option" where
  "substitution_node n rs =
     (if n = Imaginary ''COMMAND_SUB'' \<and> rs \<noteq> [] then those (map any_string rs) else None)"

definition quoted_part_tree :: "'z reading_scheme \<Rightarrow> (arith, var_expansion) quoted_part option" where
  \<comment> \<open>the rule \<open>double_quoted_string\<close>\<close>
  "quoted_part_tree r = (case as_var_ref r of Some x \<Rightarrow> Some (Quoted_ref x)
     | None \<Rightarrow> (case as_arithmetic r of Some (Arithmetic_expression e) \<Rightarrow> Some (Quoted_arithmetic e)
     | _ \<Rightarrow> (case as_substitution r of Some ts \<Rightarrow> Some (Quoted_substitution ts)
     | None \<Rightarrow> map_option Quoted_text (any_string r))))"

definition single_quoted_tree :: "'z reading_scheme \<Rightarrow> string option" where
  "single_quoted_tree r = (case root_node r of
       Real t \<Rightarrow> if is_single_quoted t then Some (lexeme_text t) else None | _ \<Rightarrow> None)"

definition string_part_node ::
  "node \<Rightarrow> 'z reading_scheme list \<Rightarrow> (arith, var_expansion) string_part option" where
  \<comment> \<open>the alternatives of \<open>string_part\<close> that take one tree\<close>
  "string_part_node n rs =
     (if n = Imaginary ''DOUBLE_QUOTED_STRING'' then map_option Double_quoted (those (map quoted_part_tree rs))
      else if n = Imaginary ''SINGLE_QUOTED_STRING'' then map_option Single_quoted (only (one single_quoted_tree) rs)
      else if n = Imaginary ''ARITHMETIC_EXPRESSION'' then map_option Arithmetic_part (only arithmetics_rule rs)
      else if n = Imaginary ''VAR_REF'' then map_option Ref_part (var_ref_node n rs)
      else if n = Imaginary ''COMMAND_SUB'' then map_option Substitution_part (substitution_node n rs)
      else if n = Imaginary ''ANSI_C_QUOTING'' then map_option Ansi_c_quoted (only (one single_quoted_tree) rs)
      else if rs = [] \<and> n \<noteq> Imaginary ''ESCAPED_CHAR''
      then Some (Text_part (case n of Real t \<Rightarrow> token_of t | _ \<Rightarrow> Token [])) else None)"

definition string_part_rule ::
  "'z reading_scheme list \<Rightarrow> ((arith, var_expansion) string_part \<times> 'z reading_scheme list) option" where
  "string_part_rule rs = (if rs \<noteq> [] \<and> root_node (hd rs) = Imaginary ''ESCAPED_CHAR''
     then one (map_option Escaped_part \<circ> any_string) (tl rs) else one as_string_part rs)"

section \<open>Patterns and words\<close>

definition class_node :: "node \<Rightarrow> 'z reading_scheme list \<Rightarrow> string option" where
  "class_node n rs = (if n = Imaginary ''CHARACTER_CLASS'' then only (one (\<lambda>r. case root_node r of
       Real t \<Rightarrow> if is_name_token t \<and> childless r then Some (lexeme_text t) else None | _ \<Rightarrow> None)) rs else None)"

definition class_item_rule ::
  "'z reading_scheme list \<Rightarrow> ((arith, var_expansion) class_item \<times> 'z reading_scheme list) option" where
  "class_item_rule rs = (if rs \<noteq> [] \<and> root_node (hd rs) = Imaginary ''CHARACTER_CLASS''
     then map_option (apfst Character_class) (one as_class rs) else map_option (apfst Class_part) (string_part_rule rs))"

definition basic_node :: "node \<Rightarrow> 'z reading_scheme list \<Rightarrow> (arith, var_expansion) basic_pattern option" where
  \<comment> \<open>the alternatives of \<open>basic_pattern\<close> with a \<open>MATCH_...\<close> token\<close>
  "basic_node n rs =
     (if n = Imaginary ''MATCH_ALL'' \<and> rs = [] then Some Match_all
      else if n = Imaginary ''MATCH_ONE'' \<and> rs = [] then Some Match_one
      else if n = Imaginary ''MATCH_ANY'' \<and> rs \<noteq> [] then map_option (Match_class False) (whole class_item_rule rs)
      else if n = Imaginary ''MATCH_ANY_EXCEPT'' \<and> rs \<noteq> [] then map_option (Match_class True) (whole class_item_rule rs)
      else None)"

definition matches_by_token :: "'z reading_scheme \<Rightarrow> bool" where
  "matches_by_token r \<longleftrightarrow>
     root_node r \<in> set (map Imaginary [''MATCH_ALL'', ''MATCH_ONE'', ''MATCH_ANY'', ''MATCH_ANY_EXCEPT''])"

definition basic_pattern_rule ::
  "'z reading_scheme list \<Rightarrow> ((arith, var_expansion) basic_pattern \<times> 'z reading_scheme list) option" where
  "basic_pattern_rule rs = (if rs \<noteq> [] \<and> matches_by_token (hd rs) then one as_basic rs
     else map_option (apfst Match_part) (string_part_rule rs))"

definition branch_node :: "node \<Rightarrow> 'z reading_scheme list \<Rightarrow> (arith, var_expansion) branch option" where
  "branch_node n rs = (if n = Imaginary ''BRANCH'' \<and> rs \<noteq> [] then whole basic_pattern_rule rs else None)"

definition extended_names :: "(string \<times> extended_op) list" where
  "extended_names = [(''EXTENDED_MATCH_AT_MOST_ONE'', Extended_match_at_most_one),
     (''EXTENDED_MATCH_ANY'', Extended_match_any), (''EXTENDED_MATCH_AT_LEAST_ONE'', Extended_match_at_least_one),
     (''EXTENDED_MATCH_EXACTLY_ONE'', Extended_match_exactly_one), (''EXTENDED_MATCH_NONE'', Extended_match_none)]"

definition extended_name :: "node \<Rightarrow> extended_op option" where
  "extended_name n = (case n of Imaginary s \<Rightarrow> map_of extended_names s | _ \<Rightarrow> None)"

definition extended_node :: "node \<Rightarrow> 'z reading_scheme list \<Rightarrow> (arith, var_expansion) pattern_item option" where
  "extended_node n rs = do {op \<leftarrow> extended_name n;
     if rs = [] then None else map_option (Extended op) (those (map as_branch rs))}"

definition pattern_item_rule ::
  "'z reading_scheme list \<Rightarrow> ((arith, var_expansion) pattern_item \<times> 'z reading_scheme list) option" where
  "pattern_item_rule rs = (if rs \<noteq> [] \<and> extended_name (root_node (hd rs)) \<noteq> None then one as_extended rs
     else map_option (apfst Basic) (basic_pattern_rule rs))"

definition pattern_node :: "node \<Rightarrow> 'z reading_scheme list \<Rightarrow> (arith, var_expansion) pattern_item list option" where
  \<comment> \<open>the rule \<open>bash_pattern\<close>\<close>
  "pattern_node n rs = (if n = Imaginary ''STRING'' \<and> rs \<noteq> [] then whole pattern_item_rule rs else None)"

definition string_item_rule ::
  "'z reading_scheme list \<Rightarrow> ((arith, var_expansion, string_expr) string_item \<times> 'z reading_scheme list) option" where
  "string_item_rule rs = (if rs \<noteq> [] \<and> root_node (hd rs) = Imaginary ''BRACE_EXP''
     then map_option (apfst Brace) (one as_brace rs) else map_option (apfst Part) (string_part_rule rs))"

definition string_expr_node :: "node \<Rightarrow> 'z reading_scheme list \<Rightarrow> string_expr option" where
  "string_expr_node n rs = (if n = Imaginary ''STRING'' then map_option String (whole string_item_rule rs) else None)"

definition if_root :: "string \<Rightarrow> node \<Rightarrow> 'x option \<Rightarrow> 'x option" where
  "if_root s n x = (if n = Imaginary s then x else None)"

section \<open>Whole trees\<close>

definition read_node :: "node \<Rightarrow> 'z reading_scheme list \<Rightarrow> reading" where
  "read_node n rs = \<lparr>root_node = n, childless = (rs = []),
     as_arithmetic = arithmetic_node n (primary_node n rs) rs,
     as_part = if_root ''ARITHMETIC'' n (only arithmetics_rule rs),
     as_primary = primary_node n rs, as_name = name_node n rs, as_var_name = var_name_node n rs,
     as_array_name = array_name_node n rs,
     as_array_size = (if map root_node rs = [Imaginary ''ARRAY_SIZE''] then name_base n else None),
     as_offset = if_root ''OFFSET'' n (only arithmetics_rule rs),
     as_raw_string = raw_string_node n rs, as_expansion = expansion_node n rs, as_var_ref = var_ref_node n rs,
     as_substitution = substitution_node n rs, as_string_part = string_part_node n rs, as_class = class_node n rs,
     as_basic = basic_node n rs, as_branch = branch_node n rs, as_extended = extended_node n rs,
     as_pattern = pattern_node n rs,
     as_brace = if_root ''BRACE_EXP'' n (if rs = [] then None else those (map as_string_expr rs)),
     as_string_expr = string_expr_node n rs\<rparr>"

primrec reading_of :: "ptree \<Rightarrow> reading" where
  "reading_of (Tree n ts) = read_node n (map reading_of ts)"

definition arithmetic_tree :: "forest \<Rightarrow> arith option" where
  \<comment> \<open>\<open>walker_arithmetics\<close> starts the rule \<open>arithmetics\<close> on what \<open>parser_arithmetics\<close> gave\<close>
  "arithmetic_tree f = only arithmetics_rule (map reading_of f)"

definition expansion_tree :: "forest \<Rightarrow> string_expr option" where
  \<comment> \<open>\<open>walker_string_expr\<close> starts the rule \<open>string_expr\<close> on what \<open>parser_all_expansions\<close> gave\<close>
  "expansion_tree f = only (one as_string_expr) (map reading_of f)"

end
