(* ===== verification/Tree_Commands.thy ===== *)
theory Tree_Commands
  imports Tree_Rules Command_Syntax
begin

text \<open>
  bashast/libbashWalker.g, the shape of the rules for assignments, redirections, conditions and commands, as the
  theory Tree_Rules has it for words. \<open>place\<close> gives each tree its index in the
  node stream, which \<open>function_definition\<close> reads from \<open>INDEX()\<close>.
\<close>

section \<open>Indices\<close>

datatype itree = Placed nat node "itree list"

fun place :: "nat \<Rightarrow> ptree \<Rightarrow> itree \<times> nat" and place_all :: "nat \<Rightarrow> forest \<Rightarrow> itree list \<times> nat" where
  \<comment> \<open>with the index after the tree; the children stand between two more tokens\<close>
  "place i (Tree n ts) = (if ts = [] then (Placed i n [], i + 1)
     else (case place_all (i + 2) ts of (us, j) \<Rightarrow> (Placed i n us, j + 1)))"
| "place_all i [] = ([], i)"
| "place_all i (t # ts) = (case place i t of (u, j) \<Rightarrow> case place_all j ts of (us, k) \<Rightarrow> (u # us, k))"

section \<open>What the rules make of a tree\<close>

record command_reading = reading +
  position :: nat
  as_element :: "array_item option"                     \<comment> \<open>of \<open>array_def_helper\<close>\<close>
  as_array :: "array_item list option"
  as_var_def :: "var_def option"
  as_redirect :: "redirect option"
  as_common :: "common_condition option"
  as_keyword :: "keyword_condition option"
  as_builtin :: "builtin_condition option"
  as_cond_expr :: "cond_expr option"
  as_logic :: "command logic_list option"               \<comment> \<open>\<open>logic_command_list\<close>\<close>
  as_list :: "command_list option"                      \<comment> \<open>\<open>command_list\<close>\<close>
  as_definition :: "compound command_atom option"       \<comment> \<open>\<open>variable_definitions\<close>, \<open>function_definition\<close>\<close>
  as_compound :: "compound option"
  as_command :: "command option"
  as_if :: "(command_list \<times> command_list) option"       \<comment> \<open>\<open>elif_expr\<close>\<close>
  as_else :: "command_list option"
  as_clause :: "command case_clause option"
  as_header :: "arith option"                           \<comment> \<open>the parts of \<open>for (( ))\<close>\<close>

section \<open>Assignments and redirections\<close>

definition is_equals :: "node \<Rightarrow> bool" where
  "is_equals n \<longleftrightarrow> n = Real (Sym ''='') \<or> n = Imaginary ''EQUALS''"

definition element_node :: "node \<Rightarrow> 'z reading_scheme list \<Rightarrow> array_item option" where
  "element_node n rs = (if is_equals n
     then do {(a, rs') \<leftarrow> arithmetics_rule rs; e \<leftarrow> only (one as_string_expr) rs'; Some (Element_at a e)}
     else map_option Next_element (string_expr_node n rs))"

definition array_node :: "node \<Rightarrow> 'z command_reading_scheme list \<Rightarrow> array_item list option" where
  \<comment> \<open>the rule \<open>array_def_helper\<close>\<close>
  "array_node n rs = if_root ''ARRAY'' n (those (map as_element rs))"

definition leaf_name :: "'z reading_scheme \<Rightarrow> string option" where
  "leaf_name r = (if childless r then name_base (root_node r) else None)"

definition var_def_node :: "node \<Rightarrow> 'z command_reading_scheme list \<Rightarrow> var_def option" where
  "var_def_node n rs =
     (if is_equals n
      then (case rs of
          [x] \<Rightarrow> map_option (\<lambda>x. Define x None) (as_name x)
        | [x, v] \<Rightarrow> (case as_array v of Some items \<Rightarrow> map_option (\<lambda>x. Define_array x items) (leaf_name x)
            | None \<Rightarrow> do {x \<leftarrow> as_name x; e \<leftarrow> as_string_expr v; Some (Define x (Some e))})
        | _ \<Rightarrow> None)
      else if n = Imaginary ''PLUS_ASSIGN''
      then (case rs of [x, v] \<Rightarrow> do {x \<leftarrow> leaf_name x; items \<leftarrow> as_array v; Some (Append_array x items)} | _ \<Rightarrow> None)
      else None)"

definition is_digit_leaf :: "'z reading_scheme \<Rightarrow> bool" where
  "is_digit_leaf r \<longleftrightarrow> childless r \<and> (case root_node r of Real t \<Rightarrow> is_digit_token t | _ \<Rightarrow> False)"

definition redirect_destination_rule ::
  "'z reading_scheme list \<Rightarrow> redirect_destination option" where
  \<comment> \<open>the rules \<open>redirect_destination_output\<close> and \<open>redirect_destination_input\<close>\<close>
  "redirect_destination_rule rs = (case rs of
       [r] \<Rightarrow> map_option File (as_string_expr r)
     | [r, d] \<Rightarrow> if \<not> is_digit_leaf d then None
         else if is_token (Imaginary ''FILE_DESCRIPTOR'') r then Some File_descriptor
         else if is_token (Imaginary ''FILE_DESCRIPTOR_MOVE'') r then Some File_descriptor_move else None
     | _ \<Rightarrow> None)"

definition redirect_node :: "node \<Rightarrow> 'z reading_scheme list \<Rightarrow> redirect option" where
  "redirect_node n rs =
     (if n = Real (Sym ''<<<'') then map_option Here_string (only (one as_string_expr) rs)
      else if n \<noteq> Imaginary ''REDIR'' then None
      else case rs of
        r # rs' \<Rightarrow>
          if is_token (Real (Sym ''<'')) r then map_option Redirect_input (redirect_destination_rule rs')
          else if is_token (Real (Sym ''>'')) r then map_option Redirect_output (redirect_destination_rule rs')
          else if is_digit_leaf r
          then (case rs' of
              op # rs'' \<Rightarrow>
                if is_token (Real (Sym ''<'')) op
                then map_option (Redirect_descriptor_input (case root_node r of Real t \<Rightarrow> lexeme_text t | _ \<Rightarrow> []))
                       (redirect_destination_rule rs'')
                else if is_token (Real (Sym ''>'')) op
                then map_option (Redirect_descriptor_output (case root_node r of Real t \<Rightarrow> lexeme_text t | _ \<Rightarrow> []))
                       (redirect_destination_rule rs'')
                else None
            | [] \<Rightarrow> None)
          else None
      | [] \<Rightarrow> None)"

section \<open>Conditions\<close>

definition two_words :: "(string_expr \<Rightarrow> string_expr \<Rightarrow> 'x) \<Rightarrow> 'z reading_scheme list \<Rightarrow> 'x option" where
  "two_words f rs = (case rs of [l, r] \<Rightarrow> do {l \<leftarrow> as_string_expr l; r \<leftarrow> as_string_expr r; Some (f l r)} | _ \<Rightarrow> None)"

definition word_and_pattern :: "(string_expr \<Rightarrow> word_pattern \<Rightarrow> 'x) \<Rightarrow> 'z reading_scheme list \<Rightarrow> 'x option" where
  "word_and_pattern f rs =
     (case rs of [l, p] \<Rightarrow> do {l \<leftarrow> as_string_expr l; p \<leftarrow> as_pattern p; Some (f l p)} | _ \<Rightarrow> None)"

definition common_node :: "node \<Rightarrow> 'z reading_scheme list \<Rightarrow> common_condition option" where
  "common_node n rs =
     (if is_equals n then two_words Equal_strings rs
      else if n = Imaginary ''MATCH_PATTERN'' then word_and_pattern Match_pattern rs
      else if n = Imaginary ''NOT_EQUALS'' then two_words Unequal_strings rs
      else if n = Imaginary ''NOT_MATCH_PATTERN'' then word_and_pattern Not_match_pattern rs
      else if n = Real (Sym ''<'') then two_words Less_string rs
      else if n = Real (Sym ''>'') then two_words Greater_string rs
      else case n of
        Real t \<Rightarrow>
          if is_name_token t then two_words (Binary_test (lexeme_text t)) rs
          else if is_letter_token t
          then map_option (Unary_test (hd (lexeme_text t))) (only (one as_string_expr) rs) else None
      | _ \<Rightarrow> map_option Nonempty_string (string_expr_node n rs))"

definition two_conditions :: "('r \<Rightarrow> 'c option) \<Rightarrow> ('c \<Rightarrow> 'c \<Rightarrow> 'c) \<Rightarrow> 'r list \<Rightarrow> 'c option" where
  "two_conditions as_condition f rs =
     (case rs of [l, r] \<Rightarrow> do {l \<leftarrow> as_condition l; r \<leftarrow> as_condition r; Some (f l r)} | _ \<Rightarrow> None)"

definition keyword_node :: "node \<Rightarrow> 'z command_reading_scheme list \<Rightarrow> keyword_condition option" where
  "keyword_node n rs =
     (if n = Real (Sym ''||'') then two_conditions as_keyword Keyword_or rs
      else if n = Real (Sym ''&&'') then two_conditions as_keyword Keyword_and rs
      else if n = Imaginary ''NEGATION'' then map_option Keyword_not (only (one as_keyword) rs)
      else if n = Imaginary ''MATCH_REGULAR_EXPRESSION'' then two_words Match_regular_expression rs
      else map_option Keyword_common (common_node n rs))"

definition builtin_node :: "node \<Rightarrow> 'z command_reading_scheme list \<Rightarrow> builtin_condition option" where
  "builtin_node n rs =
     (if n = Imaginary ''NEGATION'' then map_option Builtin_not (only (one as_builtin) rs)
      else if n = Imaginary ''BUILTIN_LOGIC_AND'' then two_conditions as_builtin Builtin_and rs
      else if n = Imaginary ''BUILTIN_LOGIC_OR'' then two_conditions as_builtin Builtin_or rs
      else if n = Real (Escape [backslash_char, CHR ''<'']) then two_words Builtin_less rs
      else if n = Real (Escape [backslash_char, CHR ''>'']) then two_words Builtin_greater rs
      else map_option Builtin_common (common_node n rs))"

definition cond_expr_node :: "node \<Rightarrow> 'z command_reading_scheme list \<Rightarrow> cond_expr option" where
  "cond_expr_node n rs =
     (if n = Imaginary ''BUILTIN_TEST'' then map_option Builtin_test (only (one as_builtin) rs)
      else if n = Imaginary ''KEYWORD_TEST'' then map_option Keyword_test (only (one as_keyword) rs) else None)"

section \<open>Commands\<close>

fun span_of :: "('r \<Rightarrow> 'x option) \<Rightarrow> 'r list \<Rightarrow> 'x list \<times> 'r list" where
  \<comment> \<open>the loop \<open>rule*\<close>, as long as the rule accepts the next tree\<close>
  "span_of f [] = ([], [])"
| "span_of f (r # rs) = (case f r of Some x \<Rightarrow> apfst (Cons x) (span_of f rs) | None \<Rightarrow> ([], r # rs))"

definition definition_node ::
  "node \<Rightarrow> 'z command_reading_scheme list \<Rightarrow> compound command_atom option" where
  \<comment> \<open>\<open>variable_definitions\<close> and \<open>function_definition\<close>\<close>
  "definition_node n rs =
     (if n = Imaginary ''VARIABLE_DEFINITIONS''
      then (let is_local = (rs \<noteq> [] \<and> is_token (Imaginary ''LOCAL'') (hd rs))
            in map_option (Variable_definitions is_local) (those (map as_var_def (if is_local then tl rs else rs))))
      else if n = Imaginary ''FUNCTION''
      then (case rs of
          [x, body] \<Rightarrow> do {name \<leftarrow> as_raw_string x; k \<leftarrow> as_compound body; Some (Function name (position body) k)}
        | _ \<Rightarrow> None)
      else None)"

definition simple_command_rule :: "'z command_reading_scheme list \<Rightarrow> compound command_atom option" where
  \<comment> \<open>the rule \<open>simple_command\<close> with \<open>execute_command\<close>\<close>
  "simple_command_rule rs = (case span_of as_string_expr rs of
       (e # es, rs') \<Rightarrow> (case span_of as_var_def rs' of (defs, rs'') \<Rightarrow>
          if rs'' = [] then Some (Simple e es defs False)
          else if length rs'' = 1 \<and> is_token (Real (Sym ''!'')) (hd rs'') then Some (Simple e es defs True) else None)
     | _ \<Rightarrow> None)"

definition command_atom_tree :: "'z command_reading_scheme list \<Rightarrow> compound command_atom option" where
  \<comment> \<open>the rule \<open>command_atom\<close>\<close>
  "command_atom_tree rs = (case only (one as_definition) rs of Some d \<Rightarrow> Some d
     | None \<Rightarrow> (case only (one as_compound) rs of Some k \<Rightarrow> Some (Compound k) | None \<Rightarrow> simple_command_rule rs))"

definition command_node :: "node \<Rightarrow> 'z command_reading_scheme list \<Rightarrow> command option" where
  "command_node n rs = if_root ''COMMAND'' n
     (case span_of as_redirect rs of (redirects, rs') \<Rightarrow> map_option (Command redirects) (command_atom_tree rs'))"

definition logic_list_node ::
  "node \<Rightarrow> command option \<Rightarrow> 'z command_reading_scheme list \<Rightarrow> command logic_list option" where
  \<comment> \<open>the rules \<open>logic_command_list\<close> and \<open>logic_command\<close>\<close>
  "logic_list_node n c rs =
     (if n = Real (Sym ''&&'') \<or> n = Real (Sym ''||'')
      then (case rs of
          [l, r] \<Rightarrow> do {l \<leftarrow> as_logic l; c \<leftarrow> as_command r;
            Some (if n = Real (Sym ''&&'') then And_then l c else Or_else l c)}
        | _ \<Rightarrow> None)
      else map_option Single c)"

definition list_node :: "node \<Rightarrow> 'z command_reading_scheme list \<Rightarrow> command_list option" where
  "list_node n rs = if_root ''LIST'' n (if rs = [] then None else those (map as_logic rs))"

section \<open>Compound commands\<close>

definition two_lists :: "(command_list \<Rightarrow> command_list \<Rightarrow> 'x) \<Rightarrow> 'z command_reading_scheme list \<Rightarrow> 'x option" where
  "two_lists f rs = (case rs of [c, b] \<Rightarrow> do {c \<leftarrow> as_list c; b \<leftarrow> as_list b; Some (f c b)} | _ \<Rightarrow> None)"

definition for_node :: "'z command_reading_scheme list \<Rightarrow> compound option" where
  "for_node rs = do {(x, rs') \<leftarrow> one leaf_name rs;
     case span_of as_string_expr rs' of (es, rs'') \<Rightarrow> map_option (For x es) (only (one as_list) rs'')}"

definition header_part :: "string \<Rightarrow> 'z command_reading_scheme list \<Rightarrow>
     (arith option \<times> 'z command_reading_scheme list) option" where
  "header_part s rs = (if rs \<noteq> [] \<and> root_node (hd rs) = Imaginary s
     then map_option (apfst Some) (one as_header rs) else Some (None, rs))"

definition cfor_node :: "'z command_reading_scheme list \<Rightarrow> compound option" where
  "cfor_node rs = do {(i, rs) \<leftarrow> header_part ''FOR_INIT'' rs; (c, rs) \<leftarrow> header_part ''FOR_COND'' rs;
     (body, rs) \<leftarrow> one as_list rs; (m, rs) \<leftarrow> header_part ''FOR_MOD'' rs;
     if rs = [] then Some (Cfor i c body m) else None}"

definition if_statement_node :: "'z command_reading_scheme list \<Rightarrow> compound option" where
  "if_statement_node rs = (case span_of as_if rs of
       (branches, []) \<Rightarrow> Some (If_statement branches None)
     | (branches, rs') \<Rightarrow> map_option (\<lambda>els. If_statement branches (Some els)) (only (one as_else) rs'))"

definition word_rule :: "'z reading_scheme list \<Rightarrow> (case_word \<times> 'z reading_scheme list) option" where
  "word_rule rs =
     (if rs \<noteq> [] \<and> childless (hd rs) \<and> number_node (root_node (hd rs)) \<noteq> None
      then one (map_option Number_word \<circ> number_node \<circ> root_node) rs
      else if rs \<noteq> [] \<and> root_node (hd rs) = Imaginary ''STRING'' then one (map_option String_word \<circ> as_string_expr) rs
      else if rs \<noteq> [] \<and> root_node (hd rs) = Imaginary ''VAR_REF'' then one (map_option Ref_word \<circ> as_var_ref) rs
      else map_option (apfst Arith_word) (arithmetics_rule rs))"

definition clause_node :: "node \<Rightarrow> 'z command_reading_scheme list \<Rightarrow> command case_clause option" where
  \<comment> \<open>the alternative of \<open>case_clause\<close> with children\<close>
  "clause_node n rs = if_root ''CASE_PATTERN'' n (case span_of as_branch rs of
       ([], _) \<Rightarrow> None
     | (brs, []) \<Rightarrow> Some (Case_clause brs None)
     | (brs, [r, body]) \<Rightarrow>
         if is_token (Imaginary ''CASE_COMMAND'') r then map_option (\<lambda>cs. Case_clause brs (Some cs)) (as_list body) else None
     | _ \<Rightarrow> None)"

definition case_node :: "'z command_reading_scheme list \<Rightarrow> compound option" where
  "case_node rs = do {(w, rs') \<leftarrow> word_rule rs; clauses \<leftarrow> those (map as_clause rs'); Some (Case w clauses)}"

definition compound_node :: "node \<Rightarrow> 'z command_reading_scheme list \<Rightarrow> compound option" where
  \<comment> \<open>the rule \<open>compound_command\<close>\<close>
  "compound_node n rs =
     (if n = Imaginary ''CURRENT_SHELL'' then map_option Current_shell (only (one as_list) rs)
      else if n = Imaginary ''COMPOUND_COND'' then map_option Cond_command (only (one as_cond_expr) rs)
      else if n = Imaginary ''ARITHMETIC_EXPRESSION'' then map_option Arithmetic_command (only arithmetics_rule rs)
      else if n = Real (Keyword ''for'') then for_node rs
      else if n = Imaginary ''CFOR'' then cfor_node rs
      else if n = Real (Keyword ''while'') then two_lists While rs
      else if n = Real (Keyword ''until'') then two_lists Until rs
      else if n = Imaginary ''IF_STATEMENT'' then if_statement_node rs
      else if n = Real (Keyword ''case'') then case_node rs else None)"

section \<open>Whole scripts\<close>

definition read_command_node :: "nat \<Rightarrow> node \<Rightarrow> command_reading list \<Rightarrow> command_reading" where
  "read_command_node i n rs = reading.extend (read_node n rs) (command_reading.fields i
     (element_node n rs) (array_node n rs) (var_def_node n rs) (redirect_node n rs) (common_node n rs)
     (keyword_node n rs) (builtin_node n rs) (cond_expr_node n rs) (logic_list_node n (command_node n rs) rs)
     (list_node n rs) (definition_node n rs) (compound_node n rs) (command_node n rs)
     (if n = Real (Keyword ''if'') then two_lists Pair rs else None)
     (if n = Real (Keyword ''else'') then only (one as_list) rs else None) (clause_node n rs)
     (if n \<in> set (map Imaginary [''FOR_INIT'', ''FOR_COND'', ''FOR_MOD'']) then only arithmetics_rule rs else None))"

primrec command_reading_of :: "itree \<Rightarrow> command_reading" where
  "command_reading_of (Placed i n ts) = read_command_node i n (map command_reading_of ts)"

definition script_tree :: "forest \<Rightarrow> command_list option" where
  \<comment> \<open>\<open>walker_start\<close> starts the rule \<open>start\<close>\<close>
  "script_tree f = only (one as_list) (map command_reading_of (fst (place_all 0 f)))"

end
