(* ===== verification/Script_Text.thy ===== *)
theory Script_Text
  imports Command_Grammar Tree_Commands Walker
begin

text \<open>
  From the text of a script to the tree that the walker runs: the lexer, the rule of the parser that
  src/core/bash_ast.cpp starts, and the shape of the tree for the rule of the walker that goes with it.
  \<open>parse_text n\<close> is the parser parameter \<open>P\<close> of the walker, for texts whose rules nest at most \<open>n\<close> deep.
\<close>

definition outside_model :: exn where
  \<comment> \<open>a text with a character that no token begins with, or nesting beyond the bound\<close>
  "outside_model = Undefined_behaviour ''not modelled''"

fun start_parser :: "rules \<Rightarrow> parser_rule \<Rightarrow> forest parser" where
  "start_parser G Parser_start = start_rule G"
| "start_parser G Parser_arithmetics = arithmetics G"
| "start_parser G Parser_all_expansions = all_expansions G"
| "start_parser G (Parser_builtin_variable_definitions local) = builtin_variable_definitions G local"

fun walked_tree :: "parser_rule \<Rightarrow> forest \<Rightarrow> ast option" where
  \<comment> \<open>the rule of the walker that is started on the tree\<close>
  "walked_tree Parser_arithmetics f = map_option Arithmetic_tree (arithmetic_tree f)"
| "walked_tree Parser_all_expansions f = map_option Expansion_tree (expansion_tree f)"
| "walked_tree _ f = map_option Script (script_tree f)"

definition parse_tokens :: "nat \<Rightarrow> parser_rule \<Rightarrow> lexeme list \<Rightarrow> (ast \<times> nat) res" where
  "parse_tokens n rule ts = (case start_parser (grammar n) rule ts of
       Syntax_error \<Rightarrow> Inr (Script [], 1)
     | Not_modelled \<Rightarrow> Inl outside_model
     | Parsed f rest \<Rightarrow> (case walked_tree rule f of
           Some ast \<Rightarrow> Inr (ast, 0) | None \<Rightarrow> Inl another_rule))"

definition parse_text :: "nat \<Rightarrow> parser_rule \<Rightarrow> string \<Rightarrow> (ast \<times> nat) res" where
  \<comment> \<open>the tree and the number of syntax errors, which is only tested for 0\<close>
  "parse_text n rule s = (case tokenize False s of
       Some ts \<Rightarrow> parse_tokens n rule ts | None \<Rightarrow> Inl outside_model)"

end
