(* ===== verification/Arith_Text.thy ===== *)
theory Arith_Text
  imports Script_Text Arithmetic_Laws
begin

text \<open>
  Shell arithmetic from its text: which token sequences spell which expression of literals, with the usual
  precedence and associativity of the operators, and that the parser rule \<open>arithmetics\<close> and the walker agree with it.
\<close>

section \<open>The combinators on given tokens\<close>

named_theorems parse_simps \<open>the parser rules and combinators on a known beginning of the tokens\<close>

lemma looking_at_simps [parse_simps]:
  "looking_at [] ts" "\<not> looking_at (P # Ps) []" "looking_at (P # Ps) (t # ts) \<longleftrightarrow> P t \<and> looking_at Ps ts"
  by (auto simp: looking_at_def)

lemma sees_simps [parse_simps]:
  "sees [] ts" "\<not> sees (a # as) []" "sees (a # as) (t # ts) \<longleftrightarrow> t = a \<and> sees as ts"
  by (auto simp: sees_def)

lemmas combinator_defs [parse_simps] = get_def next_token_def expect_def satisfying_def fail_def opt_blank_def
  either_def if_matches_def skip_blank_def

section \<open>Spelling\<close>

definition literal_token :: "string \<Rightarrow> lexeme" where
  "literal_token s = (if length s = 1 then Digit_token s else Number_token s)"

definition operators_at :: "nat \<Rightarrow> (lexeme \<times> (calc \<Rightarrow> calc \<Rightarrow> calc)) list" where
  \<comment> \<open>the left-associative operators, from the strongest on; the comparisons are at level 5\<close>
  "operators_at k = (if k = 1 then [(Sym ''**'', Apply_binary Op_exp)]
     else if k = 2 then [(Sym ''*'', Apply_binary Op_times), (Sym ''/'', Apply_binary Slash), (Sym ''%'', Apply_binary Pct)]
     else if k = 3 then [(Sym ''+'', Apply_binary Op_plus), (Sym ''-'', Apply_binary Op_minus)]
     else if k = 4 then [(Sym ''<<'', Apply_binary Lshift), (Sym ''>>'', Apply_binary Rshift)]
     else if k = 6 then [(Sym ''&'', Apply_binary Bit_and)]
     else if k = 7 then [(Sym ''^'', Apply_binary Bit_xor)]
     else if k = 8 then [(Sym ''|'', Apply_binary Bit_or)]
     else if k = 9 then [(Sym ''&&'', And_calc)]
     else if k = 10 then [(Sym ''||'', Or_calc)] else [])"

definition comparisons :: "(lexeme list \<times> binop) list" where
  "comparisons = [([Sym ''<''], Op_less), ([Sym ''>''], Op_greater), ([Sym ''<'', Sym ''=''], Op_leq),
     ([Sym ''>'', Sym ''=''], Op_geq), ([Sym ''='', Sym ''=''], Equals_to), ([Sym ''!'', Sym ''=''], Not_equals)]"

definition signs :: "(lexeme \<times> unop) list" where
  "signs = [(Sym ''+'', Plus_sign), (Sym ''-'', Minus_sign), (Sym ''~'', Tilde), (Sym ''!'', Bang)]"

definition opt_space :: "lexeme list \<Rightarrow> bool" where
  "opt_space b \<longleftrightarrow> b = [] \<or> (\<exists>s. b = [Blank_token s])"

definition doubled :: "lexeme \<Rightarrow> lexeme list \<Rightarrow> bool" where
  \<comment> \<open>with the token before it, the text begins with \<open>++\<close> or \<open>--\<close>\<close>
  "doubled t ts \<longleftrightarrow> (t = Sym ''+'' \<or> t = Sym ''-'') \<and> sees [t] ts"

inductive spells :: "nat \<Rightarrow> lexeme list \<Rightarrow> calc \<Rightarrow> bool" where
  \<comment> \<open>expressions whose weakest operator outside parentheses is at most at this level: 0 for signs, 1 to 10
    for the binary operators, 11 for the conditional one\<close>
  literal: "opt_space b \<Longrightarrow> spells 0 (literal_token s # b) (Literal s)"
| group: "spells 11 ts c \<Longrightarrow> opt_space b \<Longrightarrow> spells 0 (Sym ''('' # ts @ Sym '')'' # b) (Group c)"
| expansion: "spells 11 ts c \<Longrightarrow> opt_space a \<Longrightarrow> opt_space b \<Longrightarrow>
    spells 0 (Sym ''$'' # Sym ''(('' # a @ ts @ Sym '')'' # Sym '')'' # b) (Paren (Group c))"
| sequence: "spells 11 ts c \<Longrightarrow> opt_space a \<Longrightarrow> spells 11 us d \<Longrightarrow> opt_space b \<Longrightarrow>
    spells 0 (Sym ''('' # ts @ Sym '','' # a @ us @ Sym '')'' # b) (Sequence c d)"
| sign: "(t, op) \<in> set signs \<Longrightarrow> opt_space b \<Longrightarrow> spells 0 ts c \<Longrightarrow> \<not> doubled t (b @ ts) \<Longrightarrow>
    spells 0 (t # b @ ts) (Apply_unary op c)"
| chain: "(t, f) \<in> set (operators_at (Suc k)) \<Longrightarrow> spells (Suc k) ts c \<Longrightarrow> opt_space b \<Longrightarrow> spells k us d \<Longrightarrow>
    \<not> doubled t (b @ us) \<Longrightarrow> spells (Suc k) (ts @ t # b @ us) (f c d)"
| comparison: "(os, op) \<in> set comparisons \<Longrightarrow> spells 4 ts c \<Longrightarrow> opt_space b \<Longrightarrow> spells 4 us d \<Longrightarrow>
    spells 5 (ts @ os @ b @ us) (Apply_binary op c d)"
| conditional: "spells 10 ts c \<Longrightarrow> spells 10 us d \<Longrightarrow> spells 10 vs e \<Longrightarrow>
    spells 11 (ts @ Sym ''?'' # us @ Sym '':'' # vs) (If_calc c d e)"
| stronger: "spells k ts c \<Longrightarrow> k \<le> 10 \<Longrightarrow> spells (Suc k) ts c"

primrec depth :: "calc \<Rightarrow> nat" where
  \<comment> \<open>how deep parentheses nest\<close>
  "depth (Literal s) = 0"
| "depth (Group c) = Suc (depth c)"
| "depth (Paren c) = depth c"   \<comment> \<open>of a \<open>Group\<close>\<close>
| "depth (Sequence c d) = Suc (max (depth c) (depth d))"
| "depth (Apply_unary op c) = depth c"
| "depth (Apply_binary op c d) = max (depth c) (depth d)"
| "depth (Or_calc c d) = max (depth c) (depth d)"
| "depth (And_calc c d) = max (depth c) (depth d)"
| "depth (If_calc c d e) = max (depth c) (max (depth d) (depth e))"

section \<open>The trees of the parser\<close>

definition node_for :: "(node \<times> 'a) list \<Rightarrow> 'a \<Rightarrow> node" where
  "node_for nodes op = the (map_of (map (\<lambda>(n, op). (op, n)) nodes) op)"

primrec parser_trees :: "calc \<Rightarrow> forest" where
  "parser_trees (Literal s) = [leaf (literal_token s)]"
| "parser_trees (Group c) = imaginary ''ARITHMETIC'' (parser_trees c)"
| "parser_trees (Paren c) = imaginary ''ARITHMETIC_EXPRESSION'' (parser_trees c)"
| "parser_trees (Sequence c d) = imaginary ''ARITHMETIC'' (parser_trees c) @ imaginary ''ARITHMETIC'' (parser_trees d)"
| "parser_trees (Apply_unary op c) = [Tree (node_for unary_nodes op) (parser_trees c)]"
| "parser_trees (Apply_binary op c d) = [Tree (node_for binary_nodes op) (parser_trees c @ parser_trees d)]"
| "parser_trees (Or_calc c d) = [Tree (Real (Sym ''||'')) (parser_trees c @ parser_trees d)]"
| "parser_trees (And_calc c d) = [Tree (Real (Sym ''&&'')) (parser_trees c @ parser_trees d)]"
| "parser_trees (If_calc c d e) =
     imaginary ''ARITHMETIC_CONDITION'' (parser_trees c @ parser_trees d @ parser_trees e)"

section \<open>The parser rules by level\<close>

fun rule_at :: "nat \<Rightarrow> rules \<Rightarrow> forest parser" where
  "rule_at 0 G = unary G"
| "rule_at (Suc k) G = (if k = 4 then compare G else if k = 10 then arithmetic G
     else left_assoc (set (map fst (operators_at (Suc k)))) (rule_at k G))"

lemma rule_at_rules:
  "rule_at 1 G = exponential G" "rule_at 2 G = times_division_modulus G" "rule_at 3 G = addsub G"
  "rule_at 4 G = shifts G" "rule_at 5 G = compare G" "rule_at 6 G = bitwiseand G" "rule_at 7 G = bitwisexor G"
  "rule_at 8 G = bitwiseor G" "rule_at 9 G = logicand G" "rule_at 10 G = logicor G" "rule_at 11 G = arithmetic G"
  by (simp_all add: eval_nat_numeral operators_at_def exponential_def times_division_modulus_def addsub_def
      shifts_def bitwiseand_def bitwisexor_def bitwiseor_def logicand_def logicor_def)

definition heads_at :: "nat \<Rightarrow> lexeme list" where
  \<comment> \<open>the tokens that continue an expression at this level\<close>
  "heads_at k = (if k = 5 then map Sym [''<'', ''>'', ''='', ''!''] else if k = 11 then [Sym ''?'']
     else map fst (operators_at k))"

definition stops :: "nat \<Rightarrow> lexeme list \<Rightarrow> bool" where
  \<comment> \<open>an expression of this level ends before these tokens\<close>
  "stops k rest \<longleftrightarrow> \<not> looking_at [is_blank] rest \<and> \<not> sees [Sym ''+'', Sym ''+''] rest \<and>
     \<not> sees [Sym ''-'', Sym ''-''] rest \<and> \<not> sees [Sym [dquote_char]] rest \<and>
     (\<forall>i\<le>k. \<not> looking_at [\<lambda>t. t \<in> set (heads_at i)] rest)"

lemma stops_mono: "stops k rest \<Longrightarrow> j \<le> k \<Longrightarrow> stops j rest"
  by (auto simp: stops_def)

definition starter :: "lexeme \<Rightarrow> bool" where
  "starter t \<longleftrightarrow> is_num t \<or> t \<in> {Sym ''('', Sym ''$'', Sym ''+'', Sym ''-'', Sym ''~'', Sym ''!''}"

lemma starter_sign: "(t, op) \<in> set signs \<Longrightarrow> starter t \<and> t \<noteq> Sym ''$''"
  by (auto simp: starter_def signs_def)

lemma starter_simps [simp]:
  "starter (literal_token s)" "starter (Sym ''('')" "starter (Sym ''$'')" "literal_token s \<noteq> Sym x"
  by (simp_all add: starter_def literal_token_def)

lemma sees_append: "sees as us \<Longrightarrow> sees as (us @ vs)"
  by (metis append.assoc append_eq_conv_conj append_take_drop_id sees_def)

lemma spells_start:
  "spells k ts c \<Longrightarrow> \<exists>t us. ts = t # us \<and> starter t \<and> (t = Sym ''$'' \<longrightarrow> sees [Sym ''((''] us)"
proof (induction rule: spells.induct)
  case (expansion ts c a b)
  then show ?case by (simp add: sees_simps)
next
  case (sign t op b ts c)
  then show ?case using starter_sign by simp
next
  case (chain t f k ts c b us d)
  then show ?case by (auto intro: sees_append)
next
  case (comparison os op ts c b us d)
  then show ?case by (auto intro: sees_append)
next
  case (conditional ts c us d vs e)
  then show ?case by (auto intro: sees_append)
qed simp_all

lemma starter_props: "starter t \<Longrightarrow> \<not> is_blank t \<and> \<not> is_name t \<and> t \<noteq> Sym ''='' \<and> t \<noteq> Sym [dquote_char]"
  by (auto simp: starter_def elim: is_num.elims)

lemma skip_before:
  assumes "spells k ts c" "opt_space b"
  shows "skip_blank (b @ ts @ rest) = ts @ rest"
proof -
  obtain t us where "ts = t # us" "starter t" using spells_start[OF assms(1)] by blast
  then show ?thesis using assms(2) starter_props by (auto simp: opt_space_def skip_blank_def)
qed

section \<open>The parser builds these trees\<close>

definition parses :: "nat \<Rightarrow> rules \<Rightarrow> lexeme list \<Rightarrow> calc \<Rightarrow> bool" where
  "parses k G ts c \<longleftrightarrow> (\<forall>rest. stops k rest \<longrightarrow> rule_at k G (ts @ rest) = Parsed (parser_trees c) rest)"

definition parses_within :: "rules \<Rightarrow> lexeme list \<Rightarrow> calc \<Rightarrow> bool" where
  "parses_within G ts c \<longleftrightarrow> (\<forall>rest m. stops 0 rest \<longrightarrow> length ts < m \<longrightarrow>
     unary_within m G (ts @ rest) = Parsed (parser_trees c) rest)"

abbreviation operator_ahead_at :: "nat \<Rightarrow> lexeme list \<Rightarrow> bool" where
  "operator_ahead_at k ts \<equiv> ts \<noteq> [] \<and> hd ts \<in> set (map fst (operators_at k))"

abbreviation chain_step :: "nat \<Rightarrow> rules \<Rightarrow> forest \<Rightarrow> forest parser" where
  "chain_step k G \<equiv> \<lambda>f. next_token (\<lambda>op. opt_blank (get (rule_at k G) (\<lambda>g. Parsed [Tree (Real op) (f @ g)])))"

definition chains :: "nat \<Rightarrow> rules \<Rightarrow> lexeme list \<Rightarrow> calc \<Rightarrow> bool" where
  \<comment> \<open>the rule has reached the expression in its loop, with rounds left for the rest\<close>
  "chains k G ts c \<longleftrightarrow> (\<forall>rest. stops k rest \<longrightarrow> (\<exists>m. length rest \<le> m \<and>
     rule_at (Suc k) G (ts @ rest) = repeat_while m (operator_ahead_at (Suc k)) (chain_step k G) (parser_trees c) rest))"

lemma loop_stop: "\<not> P ts \<Longrightarrow> repeat_while m P body x ts = Parsed x ts"
  by (cases m) simp_all

lemma chain_level: "operators_at (Suc k) \<noteq> [] \<Longrightarrow> k \<noteq> 4 \<and> k \<noteq> 10 \<and> k \<le> 9"
  by (auto simp: operators_at_def split: if_splits)

lemma rule_at_chain:
  "operators_at (Suc k) \<noteq> [] \<Longrightarrow>
     rule_at (Suc k) G ts = get (rule_at k G) (\<lambda>f ts. repeat_while (length ts) (operator_ahead_at (Suc k)) (chain_step k G) f ts) ts"
  using chain_level[of k] by (simp add: left_assoc_def repeating_def[abs_def])

lemma stops_head: "stops k (t # us) \<Longrightarrow> i \<le> k \<Longrightarrow> t \<notin> set (heads_at i)"
  by (auto simp: stops_def parse_simps)

definition level_of :: "lexeme \<Rightarrow> nat" where
  \<comment> \<open>of the tokens that continue an expression\<close>
  "level_of t = (if t = Sym ''**'' then 1 else if t \<in> {Sym ''*'', Sym ''/'', Sym ''%''} then 2
     else if t \<in> {Sym ''+'', Sym ''-''} then 3 else if t \<in> {Sym ''<<'', Sym ''>>''} then 4
     else if t \<in> set (map Sym [''<'', ''>'', ''='', ''!'']) then 5 else if t = Sym ''&'' then 6 else if t = Sym ''^'' then 7
     else if t = Sym ''|'' then 8 else if t = Sym ''&&'' then 9 else if t = Sym ''||'' then 10
     else if t = Sym ''?'' then 11 else 0)"

lemma level_of_simps [simp]:
  "level_of (Sym ''**'') = 1" "level_of (Sym ''*'') = 2" "level_of (Sym ''/'') = 2" "level_of (Sym ''%'') = 2"
  "level_of (Sym ''+'') = 3" "level_of (Sym ''-'') = 3" "level_of (Sym ''<<'') = 4" "level_of (Sym ''>>'') = 4"
  "level_of (Sym ''<'') = 5" "level_of (Sym ''>'') = 5" "level_of (Sym ''='') = 5" "level_of (Sym ''!'') = 5"
  "level_of (Sym ''&'') = 6" "level_of (Sym ''^'') = 7" "level_of (Sym ''|'') = 8" "level_of (Sym ''&&'') = 9"
  "level_of (Sym ''||'') = 10" "level_of (Sym ''?'') = 11"
  "level_of (Sym [dquote_char]) = 0" "level_of (Blank_token s) = 0"
  by (simp_all add: level_of_def)

lemma level_of_head: "t \<in> set (heads_at i) \<Longrightarrow> level_of t = i"
  by (auto simp: heads_at_def operators_at_def split: if_splits)

lemma level_of_operator: "(t, f) \<in> set (operators_at i) \<Longrightarrow> level_of t = i"
  by (auto simp: operators_at_def split: if_splits)

lemma level_of_blank: "is_blank t \<Longrightarrow> level_of t = 0"
  by (erule is_blank.elims) simp_all

lemma stops_before:
  \<comment> \<open>an operator of a weaker level\<close>
  assumes "k < level_of t" "\<not> doubled t us"
  shows "stops k (t # us)"
proof -
  have "t \<noteq> Sym [dquote_char]" using assms(1) by auto
  moreover have "\<not> is_blank t" using assms(1) level_of_blank by auto
  moreover have "t \<notin> set (heads_at i)" if "i \<le> k" for i using assms(1) level_of_head[of t i] that by auto
  ultimately show ?thesis using assms(2) by (auto simp: stops_def parse_simps doubled_def)
qed

lemma doubled_rest: "us \<noteq> [] \<Longrightarrow> doubled t (us @ rest) = doubled t us"
  by (cases us) (auto simp: doubled_def parse_simps)

lemma not_ahead:
  assumes "stops k rest" "k \<noteq> 5" "k \<noteq> 11"
  shows "\<not> operator_ahead_at k rest"
proof (cases rest)
  case (Cons t us)
  then have "t \<notin> set (heads_at k)" using stops_head assms(1) by blast
  with Cons assms(2,3) show ?thesis by (simp add: heads_at_def)
qed simp

lemma chains_parses:
  assumes "operators_at (Suc k) \<noteq> []" "chains k G ts c"
  shows "parses (Suc k) G ts c"
  unfolding parses_def
proof (intro allI impI)
  fix rest
  assume stop: "stops (Suc k) rest"
  have "Suc k \<noteq> 5" "Suc k \<noteq> 11" using chain_level[OF assms(1)] by auto
  with stop have P: "\<not> operator_ahead_at (Suc k) rest" by (rule not_ahead)
  obtain m where "rule_at (Suc k) G (ts @ rest) =
      repeat_while m (operator_ahead_at (Suc k)) (chain_step k G) (parser_trees c) rest"
    using assms(2) stops_mono[OF stop, of k] unfolding chains_def by auto
  also have "\<dots> = Parsed (parser_trees c) rest" by (rule loop_stop) (rule P)
  finally show "rule_at (Suc k) G (ts @ rest) = Parsed (parser_trees c) rest" .
qed

lemma rule_at_0: "rule_at 0 G ts = unary_within (Suc (length ts)) G ts"
  by (simp add: unary_def)

declare rule_at.simps [simp del] unary_within.simps [simp del]

lemma within_parses: "parses_within G ts c \<Longrightarrow> parses 0 G ts c"
  unfolding parses_def parses_within_def rule_at_0 by simp

lemma stronger_chains:
  assumes "operators_at (Suc k) \<noteq> []" "parses k G ts c"
  shows "chains k G ts c"
  unfolding chains_def using assms by (auto simp: rule_at_chain[OF assms(1)] parses_def get_def)

lemma chain_more:
  assumes op: "(t, f) \<in> set (operators_at (Suc k))" and l: "chains k G ts c"
    and b: "opt_space b" and r: "spells k us d" "parses k G us d" and single: "\<not> doubled t (b @ us)"
    and tree: "parser_trees (f c d) = [Tree (Real t) (parser_trees c @ parser_trees d)]"
  shows "chains k G (ts @ t # b @ us) (f c d)"
  unfolding chains_def
proof (intro allI impI)
  fix rest
  assume stop: "stops k rest"
  obtain u vs where u: "us = u # vs" "starter u" using spells_start[OF r(1)] by blast
  have before: "stops k (t # b @ us @ rest)"
    using level_of_operator[OF op] single u doubled_rest[of "b @ us" t rest] by (intro stops_before) auto
  obtain m where m: "length (t # b @ us @ rest) \<le> m" and rule: "rule_at (Suc k) G (ts @ t # b @ us @ rest) =
      repeat_while m (operator_ahead_at (Suc k)) (chain_step k G) (parser_trees c) (t # b @ us @ rest)"
    using l before unfolding chains_def by auto
  then obtain m' where m': "m = Suc m'" "length rest \<le> m'" by (cases m) auto
  have "operator_ahead_at (Suc k) (t # b @ us @ rest)" using op by force
  moreover have "chain_step k G (parser_trees c) (t # b @ us @ rest) = Parsed (parser_trees (f c d)) rest"
    using r stop skip_before[OF r(1) b, of rest] tree
    by (simp add: next_token_def opt_blank_def get_def parses_def)
  ultimately show "\<exists>m. length rest \<le> m \<and> rule_at (Suc k) G ((ts @ t # b @ us) @ rest) =
      repeat_while m (operator_ahead_at (Suc k)) (chain_step k G) (parser_trees (f c d)) rest"
    using rule m' by (intro exI[of _ m']) (simp add: get_def)
qed

lemma stops_closer:
  assumes "level_of t = 0" "\<not> is_blank t" "t \<noteq> Sym [dquote_char]" "t \<noteq> Sym ''+''" "t \<noteq> Sym ''-''"
  shows "stops k (t # us)"
proof -
  have "heads_at 0 = []" by (simp add: heads_at_def operators_at_def)
  then have "t \<notin> set (heads_at i)" for i using level_of_head[of t i] assms(1) by auto
  then show ?thesis using assms(2-5) by (simp add: stops_def looking_at_simps sees_simps)
qed

lemma stops_closing [simp]:
  "stops k (Sym '')'' # us)" "stops k (Sym '','' # us)" "stops k (Sym '':'' # us)"
  by (rule stops_closer; simp add: level_of_def)+

section \<open>Operands\<close>

lemma opt_space_stop: "opt_space b \<Longrightarrow> stops k rest \<Longrightarrow> skip_blank (b @ rest) = rest"
  by (cases rest) (auto simp: opt_space_def skip_blank_def stops_def parse_simps)

lemma no_quote: "opt_space b \<Longrightarrow> stops k rest \<Longrightarrow> \<not> sees [Sym [dquote_char]] (b @ rest)"
  by (auto simp: opt_space_def stops_def parse_simps)

lemma post_primary:
  assumes "primary_rule G (us @ b @ rest) = Parsed f (b @ rest)" "\<not> sees [Sym [dquote_char]] (us @ b @ rest)"
    and b: "opt_space b" and stop: "stops 0 rest"
  shows "post_inc_dec G (us @ b @ rest) = Parsed f rest"
  using assms(1,2) no_quote[OF b stop] opt_space_stop[OF b stop] stop
  by (simp add: post_inc_dec_def pre_post_primary_def opt_dquote_def get_def either_def opt_blank_def stops_def)

lemma primary_within:
  assumes us: "us = t # vs" "starter t" "unary_node t = None"
    and primary: "\<And>rest. primary_rule G (us @ rest) = Parsed (parser_trees c) rest" and b: "opt_space b"
  shows "parses_within G (us @ b) c"
  unfolding parses_within_def
proof (intro allI impI)
  fix rest m
  assume stop: "stops 0 rest" and m: "length (us @ b) < (m :: nat)"
  then obtain m' where m': "m = Suc m'" by (cases m) auto
  have sign: "t \<noteq> Sym ''+''" "t \<noteq> Sym ''-''" using us(3) by (auto simp: unary_node_def)
  have "unary_within m G ((us @ b) @ rest) = post_inc_dec G (us @ b @ rest)"
    using us sign by (simp add: m' unary_within.simps parse_simps)
  also have "\<dots> = Parsed (parser_trees c) rest"
    using us starter_props by (intro post_primary b stop primary) (auto simp: parse_simps)
  finally show "unary_within m G ((us @ b) @ rest) = Parsed (parser_trees c) rest" .
qed

lemma primary_literal: "primary_rule G (literal_token s # rest) = Parsed [leaf (literal_token s)] rest"
  by (simp add: primary_rule_def literal_token_def expands_arithmetic_def parse_simps)

lemma primary_group:
  "r_arithmetics G (ts @ Sym '')'' # rest) = Parsed f (Sym '')'' # rest) \<Longrightarrow>
     primary_rule G (Sym ''('' # ts @ Sym '')'' # rest) = Parsed f rest"
  by (simp add: primary_rule_def expands_arithmetic_def parse_simps)

lemma primary_expansion:
  assumes "spells k ts c" "opt_space a"
    and "r_arithmetics G (ts @ Sym '')'' # Sym '')'' # rest) = Parsed f (Sym '')'' # Sym '')'' # rest)"
  shows "primary_rule G (Sym ''$'' # Sym ''(('' # a @ ts @ Sym '')'' # Sym '')'' # rest) =
    Parsed (imaginary ''ARITHMETIC_EXPRESSION'' f) rest"
proof -
  have "skip_blank (a @ ts @ Sym '')'' # Sym '')'' # rest) = ts @ Sym '')'' # Sym '')'' # rest"
    by (rule skip_before[OF assms(1,2)])
  moreover have "skip_blank (Sym '')'' # Sym '')'' # rest) = Sym '')'' # Sym '')'' # rest" by (simp add: skip_blank_def)
  ultimately show ?thesis using assms(3)
    by (simp add: primary_rule_def arithmetic_expansion_def arithmetic_part_def expands_arithmetic_def
        looking_at_simps sees_simps get_def next_token_def expect_def opt_blank_def either_def)
qed

lemma arithmetics_one:
  assumes "parses 11 G ts c" "stops 11 rest" "\<not> sees [Sym '',''] rest"
  shows "arithmetics G (ts @ rest) = Parsed (imaginary ''ARITHMETIC'' (parser_trees c)) rest"
  using assms by (simp add: arithmetics_def parses_def rule_at_rules get_def repeating_def loop_stop)

lemma arithmetics_two:
  assumes "parses 11 G ts c" "spells k us d" "parses 11 G us d" "opt_space a" "stops 11 rest" "\<not> sees [Sym '',''] rest"
  shows "arithmetics G (ts @ Sym '','' # a @ us @ rest) =
    Parsed (imaginary ''ARITHMETIC'' (parser_trees c) @ imaginary ''ARITHMETIC'' (parser_trees d)) rest"
proof -
  have "arithmetic G (ts @ Sym '','' # a @ us @ rest) = Parsed (parser_trees c) (Sym '','' # a @ us @ rest)"
    using assms(1) by (simp add: parses_def rule_at_rules)
  moreover have "skip_blank (a @ us @ rest) = us @ rest" by (rule skip_before[OF assms(2,4)])
  moreover have "arithmetic G (us @ rest) = Parsed (parser_trees d) rest"
    using assms(3,5) by (simp add: parses_def rule_at_rules)
  ultimately show ?thesis using assms(6)
    by (simp add: arithmetics_def get_def repeating_def sees_simps expect_def next_token_def opt_blank_def loop_stop)
qed

section \<open>Operators\<close>

lemma sign_within:
  assumes op: "(t, op) \<in> set signs" and b: "opt_space b" and c: "spells 0 ts c" "parses_within G ts c"
    and single: "\<not> doubled t (b @ ts)"
  shows "parses_within G (t # b @ ts) (Apply_unary op c)"
  unfolding parses_within_def
proof (intro allI impI)
  fix rest m
  assume stop: "stops 0 rest" and m: "length (t # b @ ts) < (m :: nat)"
  then obtain m' where m': "m = Suc m'" "length ts < m'" by (cases m) auto
  have node: "unary_node t = Some (node_for unary_nodes op)"
    using op by (auto simp: signs_def unary_node_def node_for_def unary_nodes_def)
  have "ts \<noteq> []" using spells_start[OF c(1)] by auto
  then have "\<not> doubled t (b @ ts @ rest)" using single doubled_rest[of "b @ ts" t rest] by simp
  then have "\<not> sees [Sym ''+'', Sym ''+''] (t # b @ ts @ rest)" "\<not> sees [Sym ''-'', Sym ''-''] (t # b @ ts @ rest)"
    by (auto simp: doubled_def sees_simps)
  then show "unary_within m G ((t # b @ ts) @ rest) = Parsed (parser_trees (Apply_unary op c)) rest"
    using c(2) stop m' node skip_before[OF c(1) b, of rest]
    by (simp add: parses_within_def unary_within.simps opt_blank_def get_def)
qed

lemma parser_trees_operator:
  "(t, f) \<in> set (operators_at k) \<Longrightarrow> parser_trees (f c d) = [Tree (Real t) (parser_trees c @ parser_trees d)]"
  by (auto simp: operators_at_def node_for_def binary_nodes_def split: if_splits)

lemma compare_operator_ahead:
  assumes "(os, op) \<in> set comparisons" "\<not> sees [Sym ''=''] us"
  shows "compare_operator k (os @ us) = k (node_for binary_nodes op) us"
  using assms by (auto simp: comparisons_def compare_operator_def next_token_def either_def sees_simps
      node_for_def binary_nodes_def)

lemma comparison_parses:
  assumes op: "(os, op) \<in> set comparisons" and l: "parses 4 G ts c" and b: "opt_space b"
    and r: "spells 4 us d" "parses 4 G us d"
  shows "parses 5 G (ts @ os @ b @ us) (Apply_binary op c d)"
  unfolding parses_def
proof (intro allI impI)
  fix rest
  assume stop: "stops 5 rest"
  obtain u vs where u: "us = u # vs" "starter u" using spells_start[OF r(1)] by blast
  obtain o' os' where o': "os = o' # os'" "level_of o' = 5" "o' \<noteq> Sym ''+''" "o' \<noteq> Sym ''-''"
    using op by (auto simp: comparisons_def)
  have "stops 4 (os @ b @ us @ rest)" using o' by (simp add: stops_before doubled_def)
  then have "shifts G (ts @ os @ b @ us @ rest) = Parsed (parser_trees c) (os @ b @ us @ rest)"
    using l by (simp add: parses_def rule_at_rules)
  moreover have "looking_at [\<lambda>t. t \<in> {Sym ''<'', Sym ''>'', Sym ''='', Sym ''!''}] (os @ b @ us @ rest)"
    using op by (auto simp: comparisons_def looking_at_simps)
  moreover have "\<not> sees [Sym ''=''] (b @ us @ rest)"
    using u starter_props[of u] b by (auto simp: opt_space_def sees_simps)
  moreover have "shifts G (us @ rest) = Parsed (parser_trees d) rest"
    using r(2) stops_mono[OF stop, of 4] by (simp add: parses_def rule_at_rules)
  ultimately have "compare G (ts @ os @ b @ us @ rest) = Parsed (parser_trees (Apply_binary op c d)) rest"
    using skip_before[OF r(1) b, of rest]
    by (simp add: compare_def get_def either_def compare_operator_ahead[OF op] opt_blank_def)
  then show "rule_at 5 G ((ts @ os @ b @ us) @ rest) = Parsed (parser_trees (Apply_binary op c d)) rest"
    by (simp add: rule_at_rules)
qed

lemma not_assigned:
  assumes "spells k ts c"
  shows "assigned_variable G f (ts @ rest) = Syntax_error"
proof -
  obtain t us where ts: "ts = t # us" "starter t" "t = Sym ''$'' \<longrightarrow> sees [Sym ''((''] us"
    using spells_start[OF assms] by blast
  show ?thesis
  proof (cases "t = Sym ''$''")
    case True
    with ts obtain vs where "us = Sym ''(('' # vs" by (cases us) (auto simp: sees_simps)
    with True ts show ?thesis
      by (simp add: assigned_variable_def variable_reference_def either_def get_def sees_simps expect_def
          next_token_def fail_def)
  next
    case False
    with ts starter_props[of t] show ?thesis
      by (simp add: assigned_variable_def variable_name_no_digit_def either_def get_def sees_simps satisfying_def
          next_token_def fail_def)
  qed
qed

lemma arithmetic_unassigned:
  "spells k ts c \<Longrightarrow> arithmetic G (ts @ rest) = get (logicor G) (\<lambda>c. either (sees [Sym ''?''])
        (expect (Sym ''?'') (get (logicor G) (\<lambda>t. expect (Sym '':'') (get (logicor G) (\<lambda>f.
           Parsed (imaginary ''ARITHMETIC_CONDITION'' (c @ t @ f)))))))
        (Parsed c)) (ts @ rest)"
  by (simp add: arithmetic_def if_matches_def not_assigned)

lemma question_ahead: "stops 11 rest \<Longrightarrow> \<not> sees [Sym ''?''] rest"
  using stops_head[of 11 "Sym ''?''" _ 11] by (cases rest) (auto simp: sees_simps heads_at_def)

lemma conditional_parses:
  assumes "spells 10 ts c" "parses 10 G ts c" "parses 10 G us d" "parses 10 G vs e"
  shows "parses 11 G (ts @ Sym ''?'' # us @ Sym '':'' # vs) (If_calc c d e)"
  unfolding parses_def
proof (intro allI impI)
  fix rest
  assume stop: "stops 11 rest"
  have "stops 10 (Sym ''?'' # xs)" for xs by (simp add: stops_before doubled_def)
  then show "rule_at 11 G ((ts @ Sym ''?'' # us @ Sym '':'' # vs) @ rest) = Parsed (parser_trees (If_calc c d e)) rest"
    using assms(2-4) stops_mono[OF stop, of 10]
    by (simp add: rule_at_rules arithmetic_unassigned[OF assms(1)] parses_def get_def either_def sees_simps
        expect_def next_token_def)
qed

lemma level_kinds: "k \<le> 10 \<Longrightarrow> k = 10 \<or> k = 4 \<or> operators_at (Suc k) \<noteq> []"
  by (simp add: operators_at_def) presburger

lemma stronger_parses:
  assumes "spells k ts c" "k \<le> 10" "parses k G ts c"
  shows "parses (Suc k) G ts c"
proof -
  consider "k = 10" | "k = 4" | "operators_at (Suc k) \<noteq> []"
    using level_kinds[OF assms(2)] by blast
  then show ?thesis
  proof cases
    case 1
    show ?thesis unfolding parses_def
    proof (intro allI impI)
      fix rest
      assume stop: "stops (Suc k) rest"
      with 1 show "rule_at (Suc k) G (ts @ rest) = Parsed (parser_trees c) rest"
        using assms(3) stops_mono[OF stop, of k] question_ahead[of rest]
        by (simp add: rule_at_rules arithmetic_unassigned[OF assms(1)] parses_def get_def either_def)
    qed
  next
    case 2
    show ?thesis unfolding parses_def
    proof (intro allI impI)
      fix rest
      assume stop: "stops (Suc k) rest"
      have "\<not> looking_at [\<lambda>t. t \<in> {Sym ''<'', Sym ''>'', Sym ''='', Sym ''!''}] rest"
        using 2 stops_head[of 5 _ _ 5] stop by (cases rest) (auto simp: looking_at_simps heads_at_def)
      with 2 show "rule_at (Suc k) G (ts @ rest) = Parsed (parser_trees c) rest"
        using assms(3) stops_mono[OF stop, of k]
        by (simp add: rule_at_rules compare_def parses_def get_def either_def)
    qed
  next
    case 3
    then show ?thesis using chains_parses stronger_chains assms(3) by blast
  qed
qed

definition parsed_at :: "nat \<Rightarrow> rules \<Rightarrow> lexeme list \<Rightarrow> calc \<Rightarrow> bool" where
  "parsed_at k G ts c \<longleftrightarrow> parses k G ts c \<and> (k = 0 \<longrightarrow> parses_within G ts c) \<and>
     (\<forall>j. k = Suc j \<longrightarrow> operators_at k \<noteq> [] \<longrightarrow> chains j G ts c)"

lemma parsed_at_0: "parses_within G ts c \<Longrightarrow> parsed_at 0 G ts c"
  by (simp add: parsed_at_def within_parses)

lemma depth_operator: "(t, f) \<in> set (operators_at k) \<Longrightarrow> depth (f c d) = max (depth c) (depth d)"
  by (auto simp: operators_at_def split: if_splits)

lemma inner_grammar: "r_arithmetics (grammar (Suc n)) = arithmetics (grammar n)"
  by (simp add: Let_def)

declare grammar.simps [simp del]

lemma spells_parsed: "spells k ts c \<Longrightarrow> depth c \<le> n \<Longrightarrow> parsed_at k (grammar n) ts c"
proof (induction arbitrary: n rule: spells.induct)
  case (literal b s)
  have "parses_within (grammar n) ([literal_token s] @ b) (Literal s)"
    by (rule primary_within[OF refl _ _ _ literal(1)]) (simp_all add: primary_literal unary_node_def)
  then show ?case by (simp add: parsed_at_0)
next
  case (group ts c b)
  then obtain m where n: "n = Suc m" "depth c \<le> m" by (cases n) auto
  have "parses_within (grammar n) ((Sym ''('' # ts @ [Sym '')'']) @ b) (Group c)"
    using group n by (intro primary_within[of _ "Sym ''(''"])
      (auto simp: primary_group inner_grammar arithmetics_one parsed_at_def unary_node_def sees_simps)
  then show ?case by (simp add: parsed_at_0)
next
  case (expansion ts c a b)
  then obtain m where n: "n = Suc m" "depth c \<le> m" by (cases n) auto
  have "parses_within (grammar n) ((Sym ''$'' # Sym ''(('' # a @ ts @ [Sym '')'', Sym '')'']) @ b) (Paren (Group c))"
    using expansion n by (intro primary_within[of _ "Sym ''$''"])
      (auto simp: primary_expansion inner_grammar arithmetics_one parsed_at_def unary_node_def sees_simps)
  then show ?case by (simp add: parsed_at_0)
next
  case (sequence ts c a us d b)
  then obtain m where n: "n = Suc m" "depth c \<le> m" "depth d \<le> m" by (cases n) auto
  have "r_arithmetics (grammar n) (ts @ Sym '','' # a @ us @ Sym '')'' # rest) =
      Parsed (parser_trees (Sequence c d)) (Sym '')'' # rest)" for rest
    using sequence n by (simp add: inner_grammar arithmetics_two parsed_at_def sees_simps)
  then have "primary_rule (grammar n) ((Sym ''('' # ts @ Sym '','' # a @ us @ [Sym '')'']) @ rest) =
      Parsed (parser_trees (Sequence c d)) rest" for rest
    using primary_group[of "grammar n" "ts @ Sym '','' # a @ us"] by simp
  then have "parses_within (grammar n) ((Sym ''('' # ts @ Sym '','' # a @ us @ [Sym '')'']) @ b) (Sequence c d)"
    using sequence by (intro primary_within[of _ "Sym ''(''"]) (auto simp: unary_node_def)
  then show ?case by (simp add: parsed_at_0)
next
  case (sign t op b ts c)
  then have "parses_within (grammar n) (t # b @ ts) (Apply_unary op c)"
    by (intro sign_within) (auto simp: parsed_at_def)
  then show ?case by (rule parsed_at_0)
next
  case (chain t f k ts c b us d)
  have ops: "operators_at (Suc k) \<noteq> []" using chain.hyps(1) by auto
  have "depth c \<le> n" "depth d \<le> n" using chain.prems depth_operator[OF chain.hyps(1)] by auto
  then have "chains k (grammar n) ts c" "parses k (grammar n) us d"
    using chain.IH ops by (auto simp: parsed_at_def)
  then have "chains k (grammar n) (ts @ t # b @ us) (f c d)"
    using chain.hyps parser_trees_operator[OF chain.hyps(1)] by (intro chain_more)
  then show ?case using chains_parses[OF ops] by (simp add: parsed_at_def)
next
  case (comparison os op ts c b us d)
  then have "parses 5 (grammar n) (ts @ os @ b @ us) (Apply_binary op c d)"
    by (intro comparison_parses) (auto simp: parsed_at_def)
  then show ?case by (simp add: parsed_at_def operators_at_def)
next
  case (conditional ts c us d vs e)
  then have "parses 11 (grammar n) (ts @ Sym ''?'' # us @ Sym '':'' # vs) (If_calc c d e)"
    by (intro conditional_parses) (auto simp: parsed_at_def)
  then show ?case by (simp add: parsed_at_def operators_at_def)
next
  case (stronger k ts c)
  then have "parses k (grammar n) ts c" by (simp add: parsed_at_def)
  with stronger show ?case by (auto simp: parsed_at_def intro: stronger_parses stronger_chains)
qed

end
