(* ===== verification/Arith_Text_Laws.thy ===== *)
theory Arith_Text_Laws
  imports Arith_Text
begin

text \<open>
  Shell arithmetic from its text to its value: which trees of the theory Arith_Text the walker accepts, and the
  value it calculates for a text.
\<close>

section \<open>The walker accepts these trees\<close>

fun grouped :: "calc \<Rightarrow> bool" where
  \<comment> \<open>an operand in parentheses\<close>
  "grouped (Group c) = True"
| "grouped (Sequence c d) = True"
| "grouped _ = False"

fun is_sequence :: "calc \<Rightarrow> bool" where
  "is_sequence (Sequence c d) = True"
| "is_sequence _ = False"

primrec walkable :: "calc \<Rightarrow> bool" where
  \<comment> \<open>no two operands in a row that are in parentheses, and no comma in a right operand of \<open>&&\<close> or \<open>||\<close>\<close>
  "walkable (Literal s) \<longleftrightarrow> True"
| "walkable (Group c) \<longleftrightarrow> walkable c"
| "walkable (Paren c) \<longleftrightarrow> walkable c"
| "walkable (Sequence c d) \<longleftrightarrow> walkable c \<and> walkable d"
| "walkable (Apply_unary op c) \<longleftrightarrow> walkable c"
| "walkable (Apply_binary op c d) \<longleftrightarrow> \<not> (grouped c \<and> grouped d) \<and> walkable c \<and> walkable d"
| "walkable (Or_calc c d) \<longleftrightarrow> \<not> (grouped c \<and> grouped d) \<and> \<not> is_sequence d \<and> walkable c \<and> walkable d"
| "walkable (And_calc c d) \<longleftrightarrow> \<not> (grouped c \<and> grouped d) \<and> \<not> is_sequence d \<and> walkable c \<and> walkable d"
| "walkable (If_calc c d e) \<longleftrightarrow> \<not> (grouped c \<and> grouped d) \<and> \<not> (grouped d \<and> grouped e) \<and>
     walkable c \<and> walkable d \<and> walkable e"

abbreviation readings :: "calc \<Rightarrow> reading list" where
  "readings c \<equiv> map reading_of (parser_trees c)"

abbreviation is_part :: "reading \<Rightarrow> bool" where
  "is_part r \<equiv> root_node r = Imaginary ''ARITHMETIC''"

definition no_part :: "reading list \<Rightarrow> bool" where
  "no_part rs \<longleftrightarrow> rs = [] \<or> \<not> is_part (hd rs)"

lemma node_for_simps [simp]: "node_for unary_nodes op \<noteq> Imaginary ''ARITHMETIC''"
  "node_for binary_nodes bop \<noteq> Imaginary ''ARITHMETIC''"
  by (cases op; simp add: node_for_def unary_nodes_def) (cases bop; simp add: node_for_def binary_nodes_def)

lemma root_read_node [simp]: "root_node (read_node n rs) = n"
  by (simp add: read_node_def)

lemma root_leaf [simp]: "root_node (reading_of (leaf t)) = Real t"
  by (simp add: leaf_def)

lemma readings_parts:
  "if grouped c then readings c \<noteq> [] \<and> (\<forall>r\<in>set (readings c). is_part r)
   else \<exists>r. readings c = [r] \<and> \<not> is_part r"
  by (cases c) (auto simp: imaginary_def)

lemma group_parts: "grouped c \<Longrightarrow> (\<forall>r\<in>set (readings c). is_part r) \<and> readings c \<noteq> []"
  using readings_parts[of c] by presburger

lemma readings_no_part: "\<not> grouped c \<Longrightarrow> no_part (readings c @ rs)"
  using readings_parts[of c] by (auto simp: no_part_def)

lemma arithmetic_parts_append:
  "\<forall>r\<in>set rs. is_part r \<Longrightarrow> no_part rs' \<Longrightarrow>
     arithmetic_parts (rs @ rs') = map_option (\<lambda>es. (es, rs')) (those (map as_part rs))"
proof (induction rs)
  case Nil
  then show ?case by (cases rs') (auto simp: no_part_def)
next
  case (Cons r rs)
  then show ?case by (cases "as_part r"; cases "those (map as_part rs)") auto
qed

lemma arithmetics_rule_parts:
  assumes "rs \<noteq> []" "\<forall>r\<in>set rs. is_part r" "no_part rs'"
  shows "arithmetics_rule (rs @ rs') = map_option (\<lambda>es. (Parts es, rs')) (those (map as_part rs))"
  using assms(1) arithmetic_parts_append[OF assms(2,3)] assms(2)
  by (cases "those (map as_part rs)") (auto simp: arithmetics_rule_def)

lemma arithmetics_rule_tree:
  "\<not> is_part r \<Longrightarrow> arithmetics_rule (r # rs) = map_option (\<lambda>e. (e, rs)) (as_arithmetic r)"
  by (simp add: arithmetics_rule_def one_def)

lemma arithmetics_rule_Nil [simp]: "only arithmetics_rule [] = None"
  by (simp add: only_def arithmetics_rule_def one_def)

definition reads :: "calc \<Rightarrow> bool" where
  "reads c \<longleftrightarrow> (\<forall>rs. (grouped c \<longrightarrow> no_part rs) \<longrightarrow>
     arithmetics_rule (readings c @ rs) = (if walkable c then Some (tree_of c, rs) else None))"

lemma reads_only: "reads c \<Longrightarrow> only arithmetics_rule (readings c) = (if walkable c then Some (tree_of c) else None)"
  unfolding reads_def only_def by (drule spec[of _ "[]"]) (simp add: no_part_def)

lemma groups_taken:
  assumes "rs \<noteq> []" "\<forall>r\<in>set rs. is_part r" "no_part rs'"
  shows "arithmetics_rule (rs @ rs') = None \<or> (\<exists>l. arithmetics_rule (rs @ rs') = Some (l, rs'))"
  unfolding arithmetics_rule_parts[OF assms] by (cases "those (map as_part rs)") auto

lemma both_groups:
  assumes "grouped c" "grouped d" "no_part rs"
  shows "arithmetics_rule (readings c @ readings d @ rs) = None \<or>
    (\<exists>l. arithmetics_rule (readings c @ readings d @ rs) = Some (l, rs))"
proof -
  have "\<forall>r\<in>set (readings c @ readings d). is_part r" "readings c @ readings d \<noteq> []"
    using group_parts[OF assms(1)] group_parts[OF assms(2)] by (simp_all only: set_append ball_Un append_is_Nil_conv) blast+
  from groups_taken[OF this(2,1) assms(3)] show ?thesis by simp
qed

lemma two_operands:
  assumes "reads c" "reads d"
  shows "Option.bind (arithmetics_rule (readings c @ readings d))
      (\<lambda>(l, rs'). Option.bind (only arithmetics_rule rs') (\<lambda>r. h l r rs')) =
    (if \<not> (grouped c \<and> grouped d) \<and> walkable c \<and> walkable d then h (tree_of c) (tree_of d) (readings d) else None)"
proof (cases "grouped c \<and> grouped d")
  case True
  then have "arithmetics_rule (readings c @ readings d) = None \<or>
      (\<exists>l. arithmetics_rule (readings c @ readings d) = Some (l, []))"
    using both_groups[of c d "[]"] by (simp add: no_part_def)
  then show ?thesis using True by (elim disjE exE) simp_all
next
  case False
  then have "grouped c \<longrightarrow> no_part (readings d)" using readings_no_part[of d "[]"] by auto
  then show ?thesis using False assms(1) reads_only[OF assms(2)] by (auto simp: reads_def)
qed

lemma three_operands:
  assumes "reads c" "reads d" "reads e"
  shows "Option.bind (arithmetics_rule (readings c @ readings d @ readings e))
      (\<lambda>(x, rs). Option.bind (arithmetics_rule rs)
      (\<lambda>(l, rs'). Option.bind (only arithmetics_rule rs') (\<lambda>r. h x l r))) =
    (if \<not> (grouped c \<and> grouped d) \<and> \<not> (grouped d \<and> grouped e) \<and> walkable c \<and> walkable d \<and> walkable e
     then h (tree_of c) (tree_of d) (tree_of e) else None)"
proof (cases "grouped c \<and> grouped d")
  case True
  show ?thesis
  proof (cases "grouped e")
    case e: True
    have "\<forall>r\<in>set (readings c @ readings d @ readings e). is_part r" "readings c @ readings d @ readings e \<noteq> []"
      using group_parts True e by (simp_all only: set_append ball_Un append_is_Nil_conv) blast+
    from groups_taken[OF this(2,1), of "[]"]
    have "arithmetics_rule (readings c @ readings d @ readings e) = None \<or>
        (\<exists>l. arithmetics_rule (readings c @ readings d @ readings e) = Some (l, []))"
      by (simp add: no_part_def)
    moreover have "arithmetics_rule ([] :: reading list) = None" by (simp add: arithmetics_rule_def one_def)
    ultimately show ?thesis using True by (elim disjE exE) simp_all
  next
    case False
    have "arithmetics_rule (readings c @ readings d @ readings e) = None \<or>
        (\<exists>l. arithmetics_rule (readings c @ readings d @ readings e) = Some (l, readings e))"
      using both_groups[of c d "readings e"] True readings_no_part[OF False, of "[]"] by simp
    moreover have "arithmetics_rule (readings e) = (if walkable e then Some (tree_of e, []) else None)"
      using assms(3) False unfolding reads_def by (metis append_Nil2)
    ultimately show ?thesis using True by (elim disjE exE) simp_all
  qed
next
  case False
  then have "grouped c \<longrightarrow> no_part (readings d @ readings e)" using readings_no_part[of d] by auto
  then have "arithmetics_rule (readings c @ readings d @ readings e) =
      (if walkable c then Some (tree_of c, readings d @ readings e) else None)"
    using assms(1) by (simp add: reads_def)
  with False two_operands[OF assms(2,3), of "\<lambda>l r _. h (tree_of c) l r"] show ?thesis by auto
qed

lemma root_reading: "root_node (reading_of (Tree n ts)) = n"
  by simp

lemma as_arithmetic_tree:
  "as_arithmetic (reading_of (Tree n ts)) = arithmetic_node n (primary_node n (map reading_of ts)) (map reading_of ts)"
  by (simp add: read_node_def)

lemma as_part_tree: "as_part (reading_of (Tree (Imaginary ''ARITHMETIC'') ts)) = only arithmetics_rule (map reading_of ts)"
  by (simp add: read_node_def if_root_def)

lemma arithmetic_node_simps:
  "arithmetic_node (Real (literal_token s)) p ([] :: reading list) = Some (Number s)"
  "arithmetic_node (Imaginary ''ARITHMETIC_EXPRESSION'') p rs = map_option Arithmetic_expression (only arithmetics_rule rs)"
  "arithmetic_node (Real (Sym ''||'')) p rs = Option.bind (arithmetics_rule rs) (\<lambda>(l, rs').
     Option.bind (only arithmetics_rule rs') (\<lambda>r. if length rs' = 1 then Some (Logic_or l r) else None))"
  "arithmetic_node (Real (Sym ''&&'')) p rs = Option.bind (arithmetics_rule rs) (\<lambda>(l, rs').
     Option.bind (only arithmetics_rule rs') (\<lambda>r. if length rs' = 1 then Some (Logic_and l r) else None))"
  "arithmetic_node (Imaginary ''ARITHMETIC_CONDITION'') p rs = Option.bind (arithmetics_rule rs) (\<lambda>(c, rs').
     Option.bind (arithmetics_rule rs') (\<lambda>(l, rs''). Option.bind (only arithmetics_rule rs'') (\<lambda>r. Some (Conditional c l r))))"
  by (simp_all add: arithmetic_node_def logic_node_def number_node_def literal_token_def binary_nodes_def
      unary_nodes_def step_nodes_def assign_nodes_def)

lemma arithmetic_node_binary:
  "arithmetic_node (node_for binary_nodes op) p rs = Option.bind (arithmetics_rule rs) (\<lambda>(l, rs').
     Option.bind (only arithmetics_rule rs') (\<lambda>r. Some (Binary op l r)))"
  by (cases op; simp add: arithmetic_node_def logic_node_def node_for_def binary_nodes_def)

lemma arithmetic_node_unary:
  "arithmetic_node (node_for unary_nodes op) p rs = map_option (Unary op) (only arithmetics_rule rs)"
  by (cases op; simp add: arithmetic_node_def logic_node_def node_for_def binary_nodes_def unary_nodes_def)

lemma readsI:
  assumes "\<not> grouped c" "parser_trees c = [Tree n ts]"
    and "arithmetic_node n (primary_node n (map reading_of ts)) (map reading_of ts) =
      (if walkable c then Some (tree_of c) else None)"
  shows "reads c"
proof -
  have "\<not> is_part (reading_of (Tree n ts))" using assms(1,2) readings_parts[of c] by auto
  then show ?thesis using assms
    by (simp add: reads_def arithmetics_rule_tree as_arithmetic_tree del: reading_of.simps)
qed

lemma reads_all: "reads c"
proof (induction c)
  case (Literal s)
  have "parser_trees (Literal s) = [Tree (Real (literal_token s)) []]" by (simp add: leaf_def)
  then show ?case by (rule readsI[rotated]) (simp_all add: arithmetic_node_simps(1))
next
  case (Group c)
  then have p: "as_part (reading_of (Tree (Imaginary ''ARITHMETIC'') (parser_trees c))) =
      (if walkable c then Some (tree_of c) else None)"
    by (simp add: as_part_tree reads_only del: reading_of.simps)
  show ?case unfolding reads_def
    using arithmetics_rule_parts[of "readings (Group c)"] p
    by (auto simp: imaginary_def root_reading simp del: reading_of.simps)
next
  case (Paren c)
  have "parser_trees (Paren c) = [Tree (Imaginary ''ARITHMETIC_EXPRESSION'') (parser_trees c)]" by (simp add: imaginary_def)
  then show ?case by (rule readsI[rotated]) (simp_all add: arithmetic_node_simps reads_only[OF Paren])
next
  case (Sequence c d)
  then have p: "as_part (reading_of (Tree (Imaginary ''ARITHMETIC'') (parser_trees e))) =
      (if walkable e then Some (tree_of e) else None)" if "e = c \<or> e = d" for e
    using that by (auto simp: as_part_tree reads_only simp del: reading_of.simps)
  show ?case unfolding reads_def
    using arithmetics_rule_parts[of "readings (Sequence c d)"] p[of c] p[of d]
    by (auto simp: imaginary_def root_reading simp del: reading_of.simps)
next
  case (Apply_unary op c)
  show ?case by (rule readsI[OF _ parser_trees.simps(5)]) (simp_all add: arithmetic_node_unary reads_only[OF Apply_unary])
next
  case (Apply_binary op c d)
  show ?case by (rule readsI[OF _ parser_trees.simps(6)]) (simp_all add: arithmetic_node_binary two_operands[OF Apply_binary])
next
  case (Or_calc c d)
  have "length (readings d) = 1 \<longleftrightarrow> \<not> is_sequence d" by (cases d) (simp_all add: imaginary_def)
  then show ?case by (intro readsI[OF _ parser_trees.simps(7)]) (simp_all add: arithmetic_node_simps two_operands[OF Or_calc])
next
  case (And_calc c d)
  have "length (readings d) = 1 \<longleftrightarrow> \<not> is_sequence d" by (cases d) (simp_all add: imaginary_def)
  then show ?case by (intro readsI[OF _ parser_trees.simps(8)]) (simp_all add: arithmetic_node_simps two_operands[OF And_calc])
next
  case (If_calc c d e)
  have "parser_trees (If_calc c d e) = [Tree (Imaginary ''ARITHMETIC_CONDITION'') (parser_trees c @ parser_trees d @ parser_trees e)]"
    by (simp add: imaginary_def)
  then show ?case by (rule readsI[rotated]) (simp_all add: arithmetic_node_simps three_operands[OF If_calc])
qed

section \<open>From the text to the value\<close>

lemma spells_up: "spells k ts c \<Longrightarrow> k \<le> m \<Longrightarrow> m \<le> 11 \<Longrightarrow> spells m ts c"
  by (induction m) (auto simp: le_Suc_eq intro: stronger)

lemma parsed_tokens:
  assumes "spells 11 ts c" "depth c \<le> n" "stops 11 rest" "\<not> sees [Sym '',''] rest"
  shows "arithmetics (grammar n) (ts @ rest) = Parsed (imaginary ''ARITHMETIC'' (parser_trees c)) rest"
  using spells_parsed[OF assms(1,2)] assms(3,4) by (auto intro: arithmetics_one simp: parsed_at_def)

lemma walked_arithmetic:
  "arithmetic_tree (imaginary ''ARITHMETIC'' (parser_trees c)) = (if walkable c then Some (tree_of (Group c)) else None)"
  using reads_only[OF reads_all, of "Group c"] by (simp add: arithmetic_tree_def)



lemma parse_arithmetic_text:
  assumes "tokenize False s = Some (ts @ rest)" "spells 11 ts c" "depth c \<le> n" "stops 11 rest" "\<not> sees [Sym '',''] rest"
  shows "parse_text n Parser_arithmetics s =
    (if walkable c then Inr (Arithmetic_tree (tree_of (Group c)), 0) else Inl another_rule)"
  using assms(1) by (simp add: parse_text_def parse_tokens_def parsed_tokens[OF assms(2-5)] walked_arithmetic)

lemma parser_of_walker: "antlr_parse (walker L P files n) = P"
  by (rule kept.antlr_parse_walker)

lemma eval_accepted:
  assumes "parse_text n Parser_arithmetics (read_script B s True) = Inr (ast, 0)" "length (read_script B s True) < 2 ^ 32"
    and "walker_arithmetics (walker L (parse_text n) files m) ast (push_current_ast ast st) = (r, push_current_ast ast st)"
  shows "eval_arithmetic B (walker L (parse_text n) files m) s st = (r, st)"
  using assms
  by (simp add: eval_arithmetic_def interpret_ast_def ast_of_stream_def init_parser_def parser_of_walker
      interpret_with_def push_current_ast_def pop_current_ast_def)

lemma eval_rejected:
  assumes "parse_text n Parser_arithmetics (read_script B s True) = Inl e" "length (read_script B s True) < 2 ^ 32"
  shows "eval_arithmetic B (walker L (parse_text n) files m) s st = (Inl e, st)"
  using assms by (simp add: eval_arithmetic_def interpret_ast_def ast_of_stream_def init_parser_def parser_of_walker)

lemma eval_syntax_error:
  assumes "parse_text n Parser_arithmetics (read_script B s True) = Inr (ast, Suc errors)"
    and "length (read_script B s True) < 2 ^ 32"
  shows "eval_arithmetic B (walker L (parse_text n) files m) s st =
    (Inl (Parse_exception ''Something wrong happened while parsing''), st)"
  using assms by (simp add: eval_arithmetic_def interpret_ast_def ast_of_stream_def init_parser_def parser_of_walker)


lemma spells_digit: "k \<le> 11 \<Longrightarrow> spells k [Digit_token [d]] (Literal [d])"
  using spells_up[OF literal[of "[]" "[d]"], of k] by (simp add: opt_space_def literal_token_def)

lemma spells_chain:
  "(t, f) \<in> set (operators_at (Suc k)) \<Longrightarrow> spells (Suc k) ts c \<Longrightarrow> spells k us d \<Longrightarrow> \<not> doubled t us \<Longrightarrow>
     spells (Suc k) (ts @ t # us) (f c d)"
  using chain[of t f k ts c "[]" us d] by (simp add: opt_space_def)

lemma spells_group: "spells 11 ts c \<Longrightarrow> spells 0 (Sym ''('' # ts @ [Sym '')'']) (Group c)"
  using group[of ts c "[]"] by (simp add: opt_space_def)

lemma example_spelling:
  "spells 11 [Sym ''('', Digit_token ''2'', Sym ''+'', Digit_token ''3'', Sym '')'', Sym ''*'', Digit_token ''4'']
     (Apply_binary Op_times (Group (Apply_binary Op_plus (Literal ''2'') (Literal ''3''))) (Literal ''4''))"
proof -
  have "spells (Suc 2) ([Digit_token ''2''] @ Sym ''+'' # [Digit_token ''3'']) (Apply_binary Op_plus (Literal ''2'') (Literal ''3''))"
    by (rule spells_chain) (simp_all add: operators_at_def doubled_def sees_simps spells_digit)
  then have "spells 11 [Digit_token ''2'', Sym ''+'', Digit_token ''3''] (Apply_binary Op_plus (Literal ''2'') (Literal ''3''))"
    using spells_up[of 3 _ _ 11] by simp
  from spells_up[OF spells_group[OF this], of "Suc 1"]
  have "spells (Suc 1) ((Sym ''('' # [Digit_token ''2'', Sym ''+'', Digit_token ''3''] @ [Sym '')'']) @ Sym ''*'' # [Digit_token ''4''])
      (Apply_binary Op_times (Group (Apply_binary Op_plus (Literal ''2'') (Literal ''3''))) (Literal ''4''))"
    by (intro spells_chain) (simp_all add: operators_at_def doubled_def sees_simps spells_digit)
  then show ?thesis using spells_up[of 2 _ _ 11] by (simp add: numeral_2_eq_2)
qed

lemma example_tokens:
  "tokenize False ''(2+3)*4'' =
     Some [Sym ''('', Digit_token ''2'', Sym ''+'', Digit_token ''3'', Sym '')'', Sym ''*'', Digit_token ''4'']"
  "read_script boost_ref ''(2+3)*4'' True = ''(2+3)*4''"
  by code_simp+


section \<open>Incomplete texts\<close>

lemma error_upwards:
  assumes "rule_at k G ts = Syntax_error" "k \<le> m" "m \<le> 10"
  shows "rule_at m G ts = Syntax_error"
  using assms(2,3)
proof (induction m)
  case (Suc m)
  show ?case
  proof (cases "Suc m = k")
    case False
    with Suc have "rule_at m G ts = Syntax_error" by simp
    with Suc.prems(2) show ?thesis using rule_at_rules(4,5)[of G]
      by (cases "m = 4") (auto simp: rule_at.simps compare_def left_assoc_def get_def)
  qed (use assms(1) in simp)
qed (use assms(1) in simp)

lemma nothing_left: "k \<le> 10 \<Longrightarrow> rule_at k G [] = Syntax_error"
  by (rule error_upwards[of 0]) (simp_all add: rule_at_0 unary_within.simps)

lemma incomplete_text:
  assumes "tokenize False (read_script B s True) = Some (ts @ rest)" "length (read_script B s True) < 2 ^ 32"
    and "spells k ts c" "rule_at m (grammar n) (ts @ rest) = Syntax_error" "m \<le> 10"
  shows "eval_arithmetic B (walker L (parse_text n) files j) s st =
    (Inl (Parse_exception ''Something wrong happened while parsing''), st)"
proof -
  have "rule_at 10 (grammar n) (ts @ rest) = Syntax_error" using error_upwards[OF assms(4,5)] by simp
  then have "arithmetics (grammar n) (ts @ rest) = Syntax_error"
    using arithmetic_unassigned[OF assms(3)] by (simp add: arithmetics_def get_def rule_at_rules)
  with assms(1) have "parse_text n Parser_arithmetics (read_script B s True) = Inr (Script [], Suc 0)"
    by (simp add: parse_text_def parse_tokens_def)
  from eval_syntax_error[OF this assms(2)] show ?thesis .
qed



lemma group_not_assigned: "assigned_variable G h (Sym ''('' # ts) = Syntax_error"
  by (simp add: assigned_variable_def variable_name_no_digit_def sees_simps combinator_defs)

text \<open>So does one whose first operand is a parenthesis that is not closed.\<close>

lemma unclosed_group:
  assumes "tokenize False (read_script B s True) = Some (Sym ''('' # ts)" "length (read_script B s True) < 2 ^ 32"
    and "spells 11 ts c" "depth c \<le> n"
  shows "eval_arithmetic B (walker L (parse_text (Suc n)) files m) s st =
    (Inl (Parse_exception ''Something wrong happened while parsing''), st)"
proof -
  have "arithmetics (grammar n) ts = Parsed (imaginary ''ARITHMETIC'' (parser_trees c)) []"
    using parsed_tokens[OF assms(3,4), of "[]"] by (simp add: stops_def looking_at_simps sees_simps)
  then have "primary_rule (grammar (Suc n)) (Sym ''('' # ts) = Syntax_error"
    by (simp add: primary_rule_def inner_grammar looking_at_simps sees_simps expands_arithmetic_def combinator_defs)
  then have "post_inc_dec (grammar (Suc n)) (Sym ''('' # ts) = Syntax_error"
    by (simp add: post_inc_dec_def pre_post_primary_def opt_dquote_def sees_simps combinator_defs)
  then have "rule_at 0 (grammar (Suc n)) (Sym ''('' # ts) = Syntax_error"
    by (simp add: rule_at_0 unary_within.simps unary_node_def sees_simps)
  then have "rule_at 10 (grammar (Suc n)) (Sym ''('' # ts) = Syntax_error" by (rule error_upwards) simp_all
  then have "arithmetics (grammar (Suc n)) (Sym ''('' # ts) = Syntax_error"
    by (simp add: arithmetics_def arithmetic_def if_matches_def get_def rule_at_rules group_not_assigned)
  with assms(1) have "parse_text (Suc n) Parser_arithmetics (read_script B s True) = Inr (Script [], Suc 0)"
    by (simp add: parse_text_def parse_tokens_def)
  from eval_syntax_error[OF this assms(2)] show ?thesis .
qed

end
