(* ===== verification/Grammar_Laws.thy ===== *)
theory Grammar_Laws
  imports Arith_Text_Laws "HOL-Library.Sublist"
begin

text \<open>
  What holds of every parser rule: it takes its tokens from the front and leaves the rest as it is,
  nesting the rules deeper changes no result that is within the bound, and a bound of twice the number of tokens
  is enough. One lemma for each rule, by the lemmas of the rules it calls; \<open>grammar_intros\<close> collects them.
\<close>

section \<open>Two parsers, one with a smaller bound\<close>

definition beyond :: "nat \<Rightarrow> lexeme list \<Rightarrow> bool" where
  \<comment> \<open>where a parser may have no result: at least \<open>m\<close> tokens\<close>
  "beyond m ts \<longleftrightarrow> m \<le> length ts"

definition refined :: "nat \<Rightarrow> lexeme list \<Rightarrow> 'r parsed \<Rightarrow> 'r parsed \<Rightarrow> bool" where
  "refined m ts r s \<longleftrightarrow> (if r = Not_modelled then beyond m ts
     else r = s \<and> (\<forall>x rest. r = Parsed x rest \<longrightarrow> suffix rest ts))"

definition refines :: "nat \<Rightarrow> 'r parser \<Rightarrow> 'r parser \<Rightarrow> bool" where
  "refines m p q \<longleftrightarrow> (\<forall>ts. refined m ts (p ts) (q ts))"

named_theorems grammar_intros \<open>the combinators and rules keep \<open>refines\<close>\<close>

lemma refinesI: "(\<And>ts. refined m ts (p ts) (q ts)) \<Longrightarrow> refines m p q"
  by (simp add: refines_def)

lemma refines_at: "refines m p q \<Longrightarrow> refined m ts (p ts) (q ts)"
  by (simp add: refines_def)

lemma beyond_suffix: "beyond m us \<Longrightarrow> suffix us ts \<Longrightarrow> beyond m ts"
  by (auto simp: beyond_def suffix_def)

lemma beyond_Cons: "beyond (m - 1) us \<Longrightarrow> beyond m (t # us)"
  by (auto simp: beyond_def)

lemma refined_Not_modelled [simp]: "refined m ts Not_modelled s \<longleftrightarrow> beyond m ts"
  by (simp add: refined_def)

lemma refined_Syntax_error [simp]: "refined m ts Syntax_error Syntax_error"
  by (simp add: refined_def)

lemma refined_Parsed [simp]: "refined m ts (Parsed x rest) (Parsed x rest) \<longleftrightarrow> suffix rest ts"
  by (simp add: refined_def)

lemma refined_suffix: "refined m us r s \<Longrightarrow> suffix us ts \<Longrightarrow> refined m ts r s"
  by (auto simp: refined_def intro: suffix_order.trans beyond_suffix split: if_splits)

lemma refined_Cons: "refined (m - 1) us r s \<Longrightarrow> refined m (t # us) r s"
  by (auto simp: refined_def intro: beyond_Cons suffix_ConsI split: if_splits)

lemma refined_mono: "refined m ts r s \<Longrightarrow> k \<le> m \<Longrightarrow> refined k ts r s"
  by (auto simp: refined_def beyond_def split: if_splits)

lemma refines_mono: "refines m p q \<Longrightarrow> k \<le> m \<Longrightarrow> refines k p q"
  by (auto simp: refines_def intro: refined_mono)

section \<open>The combinators\<close>

lemma refines_Parsed [grammar_intros]: "refines m (Parsed x) (Parsed x)"
  by (rule refinesI) simp

lemma refines_fail [grammar_intros]: "refines m fail fail"
  by (rule refinesI) (simp add: fail_def)


lemma refines_Syntax_error [grammar_intros]: "refines m (\<lambda>ts. Syntax_error) (\<lambda>ts. Syntax_error)"
  by (rule refinesI) simp

lemma refined_get:
  assumes "refined m ts r s" "\<And>x. refines m (k x) (l x)"
  shows "refined m ts (case r of Parsed x ts' \<Rightarrow> k x ts' | Syntax_error \<Rightarrow> Syntax_error | Not_modelled \<Rightarrow> Not_modelled)
    (case s of Parsed x ts' \<Rightarrow> l x ts' | Syntax_error \<Rightarrow> Syntax_error | Not_modelled \<Rightarrow> Not_modelled)"
proof (cases r)
  case (Parsed x ts')
  then have "s = Parsed x ts'" "suffix ts' ts" using assms(1) by (auto simp: refined_def)
  with Parsed show ?thesis using refined_suffix[OF refines_at[OF assms(2)]] by simp
qed (use assms(1) in \<open>auto simp: refined_def\<close>)

lemma refines_get [grammar_intros]:
  "refines m p q \<Longrightarrow> (\<And>x. refines m (k x) (l x)) \<Longrightarrow> refines m (get p k) (get q l)"
  by (rule refinesI) (simp add: get_def refined_get refines_at)

lemma refines_next_token [grammar_intros]:
  assumes "\<And>t. refines (m - 1) (k t) (l t)"
  shows "refines m (next_token k) (next_token l)"
proof (rule refinesI)
  show "refined m ts (next_token k ts) (next_token l ts)" for ts
    using refined_Cons[OF refines_at[OF assms]] by (cases ts) (simp_all add: next_token_def)
qed

lemma refines_if [grammar_intros]:
  "(b \<Longrightarrow> refines m p q) \<Longrightarrow> (\<not> b \<Longrightarrow> refines m p' q') \<Longrightarrow> refines m (if b then p else p') (if b then q else q')"
  by simp

lemma refines_expect [grammar_intros]: "refines (m - 1) k l \<Longrightarrow> refines m (expect t k) (expect t l)"
  unfolding expect_def by (intro grammar_intros)

lemma refines_satisfying [grammar_intros]:
  "(\<And>t. refines (m - 1) (k t) (l t)) \<Longrightarrow> refines m (satisfying P k) (satisfying P l)"
  unfolding satisfying_def by (intro grammar_intros)

lemma refines_skip: "refines m k l \<Longrightarrow> (\<And>ts. suffix (f ts) ts) \<Longrightarrow> refines m (\<lambda>ts. k (f ts)) (\<lambda>ts. l (f ts))"
  by (rule refinesI) (rule refined_suffix[OF refines_at])

lemma suffix_skip_blank: "suffix (skip_blank ts) ts"
  by (simp add: skip_blank_def suffix_ConsI split: list.split)

lemma suffix_skip_wspace: "suffix (skip_wspace ts) ts"
  by (simp add: skip_wspace_def suffix_dropWhile)

lemma refines_opt_blank [grammar_intros]: "refines m k l \<Longrightarrow> refines m (opt_blank k) (opt_blank l)"
  unfolding opt_blank_def[abs_def] by (erule refines_skip) (rule suffix_skip_blank)

lemma refines_opt_wspace [grammar_intros]: "refines m k l \<Longrightarrow> refines m (opt_wspace k) (opt_wspace l)"
  unfolding opt_wspace_def[abs_def] by (erule refines_skip) (rule suffix_skip_wspace)

lemma refines_all_blanks [grammar_intros]: "refines m k l \<Longrightarrow> refines m (all_blanks k) (all_blanks l)"
  unfolding all_blanks_def[abs_def] by (erule refines_skip) (rule suffix_dropWhile)

lemma refines_blank [grammar_intros]: "refines (m - 1) k l \<Longrightarrow> refines m (blank k) (blank l)"
  unfolding blank_def by (intro grammar_intros)

lemma refines_wspace [grammar_intros]: "refines (m - 1) k l \<Longrightarrow> refines m (wspace k) (wspace l)"
  unfolding wspace_def by (intro grammar_intros)

lemma refines_either [grammar_intros]:
  "refines m p p' \<Longrightarrow> refines m q q' \<Longrightarrow> refines m (either P p q) (either P p' q')"
  by (rule refinesI) (simp add: either_def refines_at)

lemma refines_if_matches [grammar_intros]:
  assumes "refines m p p'" "refines m q q'" "refines m r r'"
  shows "refines m (if_matches p q r) (if_matches p' q' r')"
proof (rule refinesI)
  fix ts
  show "refined m ts (if_matches p q r ts) (if_matches p' q' r' ts)"
    using refines_at[OF assms(1), of ts] refines_at[OF assms(2), of ts] refines_at[OF assms(3), of ts]
    by (cases "p ts"; cases "p' ts") (auto simp: if_matches_def refined_def)
qed

lemma refines_point: "(\<And>us. refines m (p us) (q us)) \<Longrightarrow> refines m (\<lambda>ts. p ts ts) (\<lambda>ts. q ts ts)"
  by (rule refinesI) (rule refines_at)

lemma refines_repeat_while [grammar_intros]:
  assumes "\<And>x. refines m (body x) (body' x)"
  shows "refines m (repeat_while n P body x) (repeat_while n P body' x)"
proof (induction n arbitrary: x)
  case 0
  show ?case by (rule refinesI) simp
next
  case (Suc n)
  have "refines m (get (body x) (repeat_while n P body)) (get (body' x) (repeat_while n P body'))"
    by (intro grammar_intros assms Suc)
  then show ?case by (auto intro!: refinesI simp: refines_at)
qed

lemma refines_while_length [grammar_intros]:
  "(\<And>x. refines m (body x) (body' x)) \<Longrightarrow>
     refines m (\<lambda>ts. repeat_while (length ts) P body x ts) (\<lambda>ts. repeat_while (length ts) P body' x ts)"
  by (rule refines_point) (rule refines_repeat_while)

lemma refines_repeating [grammar_intros]:
  "(\<And>x. refines m (body x) (body' x)) \<Longrightarrow> refines m (repeating P body x) (repeating P body' x)"
  unfolding repeating_def[abs_def] by (rule refines_while_length)

lemma refines_many [grammar_intros]: "refines m p q \<Longrightarrow> refines m (many P p) (many P q)"
  unfolding many_def by (intro grammar_intros; (erule refines_mono; simp)?)

lemma refines_some_more [grammar_intros]: "refines m p q \<Longrightarrow> refines m (some_more P p) (some_more P q)"
  unfolding some_more_def by (intro grammar_intros; (erule refines_mono; simp)?)

lemma refines_left_assoc [grammar_intros]:
  "refines m p q \<Longrightarrow> refines m (left_assoc ops p) (left_assoc ops q)"
  unfolding left_assoc_def by (intro grammar_intros; (erule refines_mono; simp)?)

lemma refines_case_option [grammar_intros]:
  "(\<And>x. refines m (f x) (g x)) \<Longrightarrow> refines m p q \<Longrightarrow>
     refines m (case z of Some x \<Rightarrow> f x | None \<Rightarrow> p) (case z of Some x \<Rightarrow> g x | None \<Rightarrow> q)"
  by (cases z) simp_all

lemma refines_case_prod [grammar_intros]:
  "(\<And>x y. refines m (f x y) (g x y)) \<Longrightarrow> refines m (case z of (x, y) \<Rightarrow> f x y) (case z of (x, y) \<Rightarrow> g x y)"
  by (cases z) simp

section \<open>The rules that call each other\<close>

definition rules_refine :: "nat \<Rightarrow> nat \<Rightarrow> rules \<Rightarrow> rules \<Rightarrow> bool" where
  \<comment> \<open>\<open>string_expr_part\<close> has a number of its own: a pattern can call it before it has taken a token\<close>
  "rules_refine k m G H \<longleftrightarrow> refines m (r_arithmetics G) (r_arithmetics H) \<and>
     refines k (r_string_expr_part G) (r_string_expr_part H) \<and>
     refines m (r_extended_pattern G) (r_extended_pattern H) \<and>
     refines m (r_keyword_condition G) (r_keyword_condition H) \<and>
     refines m (r_builtin_condition G) (r_builtin_condition H) \<and> refines m (r_command_list G) (r_command_list H)"

lemma rules_refine_mono: "rules_refine k m G H \<Longrightarrow> k' \<le> k \<Longrightarrow> m' \<le> m \<Longrightarrow> rules_refine k' m' G H"
  by (auto simp: rules_refine_def intro: refines_mono)

lemma refines_rules [grammar_intros]:
  assumes "rules_refine m m G H"
  shows "refines m (r_arithmetics G) (r_arithmetics H)" "refines m (r_extended_pattern G) (r_extended_pattern H)"
    "refines m (r_keyword_condition G) (r_keyword_condition H)"
    "refines m (r_builtin_condition G) (r_builtin_condition H)" "refines m (r_command_list G) (r_command_list H)"
  using assms by (simp_all add: rules_refine_def)

lemma refines_part [grammar_intros]:
  "rules_refine m (m - 1) G H \<Longrightarrow> refines m (r_string_expr_part G) (r_string_expr_part H)"
  by (simp add: rules_refine_def)

section \<open>Words\<close>

lemma operators_take_tokens:
  "ops \<in> {value_operators, delete_operators, replace_operators} \<Longrightarrow> (op, name) \<in> set ops \<Longrightarrow> op \<noteq> []"
  by (auto simp: value_operators_def delete_operators_def replace_operators_def)

lemma refines_operator_of [grammar_intros]:
  assumes "ops \<in> {value_operators, delete_operators, replace_operators}" "\<And>s. refines (m - 1) (k s) (l s)"
  shows "refines m (operator_of ops k) (operator_of ops l)"
proof (rule refinesI)
  fix ts
  show "refined m ts (operator_of ops k ts) (operator_of ops l ts)"
  proof (cases "operator_ahead ops ts")
    case (Some found)
    obtain op name where found: "found = (op, name)" by (cases found)
    with Some have "(op, name) \<in> set ops" "sees op ts" by (auto simp: operator_ahead_def find_Some_iff in_set_conv_nth)
    with operators_take_tokens[OF assms(1)] obtain t us where "op = t # us" "ts = t # tl ts"
      by (cases op; cases ts) (auto simp: sees_def)
    moreover have "refined (m - 1) (tl ts) (k name (drop (length us) (tl ts))) (l name (drop (length us) (tl ts)))"
      by (rule refined_suffix[OF refines_at[OF assms(2)] suffix_drop])
    ultimately show ?thesis using refined_Cons[of m "tl ts"] Some found by (metis drop_Suc length_Cons case_prod_conv operator_of_def option.simps(5))
  qed (simp add: operator_of_def)
qed

lemma suffix_value_tokens: "value_tokens n ts = Parsed f rest \<Longrightarrow> suffix rest ts"
  by (induction n ts arbitrary: f rest rule: value_tokens.induct)
    (auto simp: suffix_ConsI split: if_splits parsed.splits)

lemma value_tokens_modelled: "value_tokens n ts \<noteq> Not_modelled"
proof (induction n ts rule: value_tokens.induct)
  case (2 braces t ts)
  define b where "b = (if is_esc t then braces else if sees [Sym ''{''] ts then braces + 1
    else if sees [Sym ''}''] ts then braces - 1 else braces)"
  have "value_tokens braces (t # ts) = (if b = 0 then Parsed [leaf t] ts
      else (case value_tokens b ts of Parsed f rest \<Rightarrow> Parsed (leaf t # f) rest | r \<Rightarrow> r))"
    unfolding value_tokens.simps Let_def b_def ..
  moreover have "b \<noteq> 0 \<Longrightarrow> value_tokens b ts \<noteq> Not_modelled" unfolding b_def using 2 by blast
  ultimately show ?case by (auto simp del: value_tokens.simps split: parsed.split)
qed simp

lemma refines_value_tokens [grammar_intros]: "refines m (value_tokens n) (value_tokens n)"
  by (rule refinesI) (auto simp: refined_def value_tokens_modelled dest: suffix_value_tokens)

lemma refines_parameter_expansion_value [grammar_intros]:
  "refines m parameter_expansion_value parameter_expansion_value"
  unfolding parameter_expansion_value_def by (intro grammar_intros)

lemma refines_list_expansion [grammar_intros]: "refines m list_expansion list_expansion"
  unfolding list_expansion_def by (intro grammar_intros)

lemma refines_command_substitution [grammar_intros]: "refines m command_substitution command_substitution"
  unfolding command_substitution_def by (intro grammar_intros)

lemma refines_range_rule [grammar_intros]: "refines m range_rule range_rule"
  unfolding range_rule_def by (intro grammar_intros)

lemma refines_pattern_class_match [grammar_intros]: "refines m pattern_class_match pattern_class_match"
  unfolding pattern_class_match_def by (intro grammar_intros)

lemma refines_ansi_c_quoting [grammar_intros]: "refines m ansi_c_quoting ansi_c_quoting"
  unfolding ansi_c_quoting_def by (intro grammar_intros)

lemma refines_arithmetic_part [grammar_intros]:
  "rules_refine (m - 1) (m - 1) G H \<Longrightarrow> refines m (arithmetic_part G) (arithmetic_part H)"
  unfolding arithmetic_part_def by (intro grammar_intros; (erule rules_refine_mono; simp)?)

lemma refines_explicit_arithmetic [grammar_intros]:
  "rules_refine m m G H \<Longrightarrow> refines m (explicit_arithmetic G) (explicit_arithmetic H)"
  unfolding explicit_arithmetic_def by (intro grammar_intros; (erule rules_refine_mono; simp)?)

lemma refines_arithmetic_expansion [grammar_intros]:
  "rules_refine (m - 1) (m - 1) G H \<Longrightarrow> refines m (arithmetic_expansion G) (arithmetic_expansion H)"
  unfolding arithmetic_expansion_def by (intro grammar_intros; (erule rules_refine_mono; simp)?)

lemma refines_subscript [grammar_intros]:
  "rules_refine (m - 1) (m - 1) G H \<Longrightarrow> refines m (subscript G a) (subscript H a)"
  unfolding subscript_def by (intro grammar_intros; (erule rules_refine_mono; simp)?)

lemma refines_variable_name_no_digit [grammar_intros]:
  "rules_refine (m - 1) (m - 1) G H \<Longrightarrow> refines m (variable_name_no_digit G) (variable_name_no_digit H)"
  unfolding variable_name_no_digit_def by (intro grammar_intros; (erule rules_refine_mono; simp)?)

lemma refines_variable_name [grammar_intros]:
  "rules_refine (m - 1) (m - 1) G H \<Longrightarrow> refines m (variable_name G) (variable_name H)"
  unfolding variable_name_def by (intro grammar_intros; (erule rules_refine_mono; simp)?)

lemma refines_offset_expansion [grammar_intros]:
  "rules_refine m m G H \<Longrightarrow> refines m (offset_expansion G a) (offset_expansion H a)"
  unfolding offset_expansion_def by (intro grammar_intros; (erule rules_refine_mono; simp)?)

lemma refines_variable_size_ref [grammar_intros]:
  "rules_refine (m - 1) (m - 1) G H \<Longrightarrow> refines m (variable_size_ref G) (variable_size_ref H)"
  unfolding variable_size_ref_def by (intro grammar_intros; (erule rules_refine_mono; simp)?)

lemma refines_brace_expansion_part [grammar_intros]:
  "rules_refine m (m - 1) G H \<Longrightarrow> refines m (brace_expansion_part G) (brace_expansion_part H)"
  unfolding brace_expansion_part_def by (intro grammar_intros; (erule rules_refine_mono; simp)?)

lemma refines_commasep [grammar_intros]:
  "rules_refine m (m - 1) G H \<Longrightarrow> refines m (commasep G) (commasep H)"
  unfolding commasep_def by (intro grammar_intros; (erule rules_refine_mono; simp)?)

lemma refines_brace_expansion [grammar_intros]:
  "rules_refine (m - 1) (m - 1) G H \<Longrightarrow> refines m (brace_expansion G) (brace_expansion H)"
  unfolding brace_expansion_def by (intro grammar_intros; (erule rules_refine_mono; simp)?)

lemma refines_extended_group [grammar_intros]:
  "rules_refine (m - 1) (m - 1) G H \<Longrightarrow> refines m (extended_group G a) (extended_group H a)"
  unfolding extended_group_def by (intro grammar_intros; (erule rules_refine_mono; simp)?)

lemma refines_bracket_pattern_part [grammar_intros]:
  "rules_refine m (m - 1) G H \<Longrightarrow> refines m (bracket_pattern_part G) (bracket_pattern_part H)"
  unfolding bracket_pattern_part_def by (intro grammar_intros; (erule rules_refine_mono; simp)?)

lemma refines_bracket_pattern_rule [grammar_intros]:
  "rules_refine m (m - 1) G H \<Longrightarrow> refines m (bracket_pattern_rule G) (bracket_pattern_rule H)"
  unfolding bracket_pattern_rule_def by (intro grammar_intros; (erule rules_refine_mono; simp)?)

lemma refines_bracket_pattern_match [grammar_intros]:
  "rules_refine (m - 1) (m - 1) G H \<Longrightarrow> refines m (bracket_pattern_match G) (bracket_pattern_match H)"
  unfolding bracket_pattern_match_def Let_def by (intro grammar_intros; (erule rules_refine_mono; simp)?)

lemma refines_extended_pattern_match [grammar_intros]:
  assumes "rules_refine m (m - 1) G H"
  shows "refines m (extended_pattern_match G) (extended_pattern_match H)"
proof -
  have part: "refines m (if_matches (bracket_pattern_match G) (bracket_pattern_match G)
         (if_matches pattern_class_match pattern_class_match (r_string_expr_part G)))
      (if_matches (bracket_pattern_match H) (bracket_pattern_match H)
         (if_matches pattern_class_match pattern_class_match (r_string_expr_part H)))"
    by (intro grammar_intros; (rule rules_refine_mono[OF assms]; simp)?)
  have "refines m (extended_group G name) (extended_group H name)" for name
    by (intro grammar_intros; (rule rules_refine_mono[OF assms]; simp)?)
  from refines_at[OF this] refines_at[OF part] show ?thesis
    by (auto intro!: refinesI simp: extended_pattern_match_def split: option.split)
qed

lemma refines_extended_pattern_rule [grammar_intros]:
  "rules_refine m (m - 1) G H \<Longrightarrow> refines m (extended_pattern_rule G) (extended_pattern_rule H)"
  unfolding extended_pattern_rule_def by (intro grammar_intros; (erule rules_refine_mono; simp)?)

lemma refines_parameter_pattern_part [grammar_intros]:
  "rules_refine m (m - 1) G H \<Longrightarrow> refines m (parameter_pattern_part G) (parameter_pattern_part H)"
  unfolding parameter_pattern_part_def by (intro grammar_intros; (erule rules_refine_mono; simp)?)

lemma refines_parameter_delete_pattern [grammar_intros]:
  "rules_refine m (m - 1) G H \<Longrightarrow> refines m (parameter_delete_pattern G) (parameter_delete_pattern H)"
  unfolding parameter_delete_pattern_def by (intro grammar_intros; (erule rules_refine_mono; simp)?)

lemma refines_parameter_replace_pattern [grammar_intros]:
  "rules_refine m (m - 1) G H \<Longrightarrow> refines m (parameter_replace_pattern G) (parameter_replace_pattern H)"
  unfolding parameter_replace_pattern_def by (intro grammar_intros; (erule rules_refine_mono; simp)?)

lemma refines_parameter_expansion [grammar_intros]:
  "rules_refine (m - 1) (m - 1) G H \<Longrightarrow> refines m (parameter_expansion G) (parameter_expansion H)"
  unfolding parameter_expansion_def by (intro grammar_intros; ((erule rules_refine_mono)?; simp)?)

lemma refines_variable_reference [grammar_intros]:
  "rules_refine (m - 1) (m - 1) G H \<Longrightarrow> refines m (variable_reference G) (variable_reference H)"
  unfolding variable_reference_def by (intro grammar_intros; (erule rules_refine_mono; simp)?)

lemma refines_expansion_base [grammar_intros]:
  "rules_refine (m - 1) (m - 1) G H \<Longrightarrow> refines m (expansion_base G) (expansion_base H)"
  unfolding expansion_base_def by (intro grammar_intros; (erule rules_refine_mono; simp)?)

lemma refines_double_quoted_string [grammar_intros]:
  "rules_refine (m - 1) (m - 1) G H \<Longrightarrow> refines m (double_quoted_string G) (double_quoted_string H)"
  unfolding double_quoted_string_def by (intro grammar_intros; (erule rules_refine_mono; simp)?)

lemma refines_all_expansions [grammar_intros]:
  "rules_refine (m - 1) (m - 1) G H \<Longrightarrow> refines m (all_expansions G) (all_expansions H)"
  unfolding all_expansions_def by (intro grammar_intros; (erule rules_refine_mono; simp)?)

lemma refines_string_expr_part [grammar_intros]:
  "rules_refine (m - 1) (m - 1) G H \<Longrightarrow> refines m (string_expr_part G) (string_expr_part H)"
  unfolding string_expr_part_def by (intro grammar_intros; (erule rules_refine_mono; simp)?)

lemma refines_string_expr_rule [grammar_intros]:
  "rules_refine (m - 1) (m - 1) G H \<Longrightarrow> refines m (string_expr_rule G) (string_expr_rule H)"
  unfolding string_expr_rule_def by (intro grammar_intros; (erule rules_refine_mono; simp)?)

lemma refines_string_expr_no_reserved_word [grammar_intros]:
  "rules_refine (m - 1) (m - 1) G H \<Longrightarrow>
     refines m (string_expr_no_reserved_word G) (string_expr_no_reserved_word H)"
  unfolding string_expr_no_reserved_word_def by (intro grammar_intros; (erule rules_refine_mono; simp)?)

section \<open>Arithmetic\<close>

lemma refines_opt_dquote [grammar_intros]: "refines m k l \<Longrightarrow> refines m (opt_dquote k) (opt_dquote l)"
  unfolding opt_dquote_def by (intro grammar_intros; (erule refines_mono; simp)?)

lemma refines_primary_rule [grammar_intros]:
  "rules_refine (m - 1) (m - 1) G H \<Longrightarrow> refines m (primary_rule G) (primary_rule H)"
  unfolding primary_rule_def by (intro grammar_intros; (erule rules_refine_mono; simp)?)

lemma refines_pre_post_primary [grammar_intros]:
  "rules_refine (m - 1) (m - 1) G H \<Longrightarrow> refines m (pre_post_primary G) (pre_post_primary H)"
  unfolding pre_post_primary_def by (intro grammar_intros; (erule rules_refine_mono; simp)?)

lemma refines_post_inc_dec [grammar_intros]:
  "rules_refine (m - 1) (m - 1) G H \<Longrightarrow> refines m (post_inc_dec G) (post_inc_dec H)"
  unfolding post_inc_dec_def by (intro grammar_intros; (erule rules_refine_mono; simp)?)

lemma refines_pre_inc_dec [grammar_intros]:
  "rules_refine (m - 1) (m - 1) G H \<Longrightarrow> refines m (pre_inc_dec G) (pre_inc_dec H)"
  unfolding pre_inc_dec_def by (intro grammar_intros; (erule rules_refine_mono; simp)?)

lemma refined_unary_within:
  assumes "rules_refine (m - 1) (m - 1) G H" "length ts < n"
  shows "refined m ts (unary_within n G ts) (unary_within n H ts)"
  using assms
proof (induction n arbitrary: m ts)
  case (Suc n)
  show ?case
  proof (cases ts)
    case (Cons t us)
    have "length (skip_blank us) < n" using suffix_length_le[OF suffix_skip_blank, of us] Suc.prems(2) Cons by simp
    moreover have "rules_refine (m - 1 - 1) (m - 1 - 1) G H" using Suc.prems(1) by (rule rules_refine_mono) simp_all
    ultimately have "refined (m - 1) (skip_blank us) (unary_within n G (skip_blank us)) (unary_within n H (skip_blank us))"
      by (intro Suc.IH)
    then have "refined (m - 1) us (unary_within n G (skip_blank us)) (unary_within n H (skip_blank us))"
      by (rule refined_suffix) (rule suffix_skip_blank)
    then have "refined (m - 1) us (opt_blank (get (unary_within n G) (\<lambda>f. Parsed [Tree op f])) us)
        (opt_blank (get (unary_within n H) (\<lambda>f. Parsed [Tree op f])) us)" for op
      unfolding opt_blank_def get_def by (rule refined_get) (rule refines_Parsed)
    from refined_Cons[OF this] show ?thesis
      using refines_at[OF refines_pre_inc_dec[OF Suc.prems(1)]] refines_at[OF refines_post_inc_dec[OF Suc.prems(1)]] Cons
      by (simp add: unary_within.simps split: option.split)
  qed (simp add: unary_within.simps)
qed simp

lemma refines_unary [grammar_intros]:
  "rules_refine (m - 1) (m - 1) G H \<Longrightarrow> refines m (unary G) (unary H)"
  by (rule refinesI) (simp add: unary_def refined_unary_within)

lemma refines_exponential [grammar_intros]:
  "rules_refine (m - 1) (m - 1) G H \<Longrightarrow> refines m (exponential G) (exponential H)"
  unfolding exponential_def by (intro grammar_intros; (erule rules_refine_mono; simp)?)

lemma refines_times_division_modulus [grammar_intros]:
  "rules_refine (m - 1) (m - 1) G H \<Longrightarrow> refines m (times_division_modulus G) (times_division_modulus H)"
  unfolding times_division_modulus_def by (intro grammar_intros; (erule rules_refine_mono; simp)?)

lemma refines_addsub [grammar_intros]:
  "rules_refine (m - 1) (m - 1) G H \<Longrightarrow> refines m (addsub G) (addsub H)"
  unfolding addsub_def by (intro grammar_intros; (erule rules_refine_mono; simp)?)

lemma refines_shifts [grammar_intros]:
  "rules_refine (m - 1) (m - 1) G H \<Longrightarrow> refines m (shifts G) (shifts H)"
  unfolding shifts_def by (intro grammar_intros; (erule rules_refine_mono; simp)?)

lemma refines_compare_operator [grammar_intros]:
  assumes "\<And>n. refines (m - 1) (k n) (l n)"
  shows "refines m (compare_operator k) (compare_operator l)"
  unfolding compare_operator_def by (intro grammar_intros assms; (rule refines_mono[OF assms]; simp)?)

lemma refines_compare [grammar_intros]:
  "rules_refine (m - 1) (m - 1) G H \<Longrightarrow> refines m (compare G) (compare H)"
  unfolding compare_def by (intro grammar_intros; (erule rules_refine_mono; simp)?)

lemma refines_bitwiseand [grammar_intros]:
  "rules_refine (m - 1) (m - 1) G H \<Longrightarrow> refines m (bitwiseand G) (bitwiseand H)"
  unfolding bitwiseand_def by (intro grammar_intros; (erule rules_refine_mono; simp)?)

lemma refines_bitwisexor [grammar_intros]:
  "rules_refine (m - 1) (m - 1) G H \<Longrightarrow> refines m (bitwisexor G) (bitwisexor H)"
  unfolding bitwisexor_def by (intro grammar_intros; (erule rules_refine_mono; simp)?)

lemma refines_bitwiseor [grammar_intros]:
  "rules_refine (m - 1) (m - 1) G H \<Longrightarrow> refines m (bitwiseor G) (bitwiseor H)"
  unfolding bitwiseor_def by (intro grammar_intros; (erule rules_refine_mono; simp)?)

lemma refines_logicand [grammar_intros]:
  "rules_refine (m - 1) (m - 1) G H \<Longrightarrow> refines m (logicand G) (logicand H)"
  unfolding logicand_def by (intro grammar_intros; (erule rules_refine_mono; simp)?)

lemma refines_logicor [grammar_intros]:
  "rules_refine (m - 1) (m - 1) G H \<Longrightarrow> refines m (logicor G) (logicor H)"
  unfolding logicor_def by (intro grammar_intros; (erule rules_refine_mono; simp)?)

lemma refines_arithmetic_assignment_operator [grammar_intros]:
  assumes "\<And>n. refines (m - 1) (k n) (l n)"
  shows "refines m (arithmetic_assignment_operator k) (arithmetic_assignment_operator l)"
  unfolding arithmetic_assignment_operator_def by (intro grammar_intros assms; (rule refines_mono[OF assms]; simp)?)

lemma refines_assigned_variable [grammar_intros]:
  assumes "rules_refine (m - 1) (m - 1) G H" "\<And>f n. refines (m - 1) (k f n) (l f n)"
  shows "refines m (assigned_variable G k) (assigned_variable H l)"
  unfolding assigned_variable_def by (intro grammar_intros assms; (rule rules_refine_mono[OF assms(1)]; simp)?)

lemma refines_arithmetic [grammar_intros]:
  "rules_refine (m - 1) (m - 1) G H \<Longrightarrow> refines m (arithmetic G) (arithmetic H)"
  unfolding arithmetic_def by (intro grammar_intros; (erule rules_refine_mono; simp)?)

lemma refines_arithmetics [grammar_intros]:
  "rules_refine (m - 1) (m - 1) G H \<Longrightarrow> refines m (arithmetics G) (arithmetics H)"
  unfolding arithmetics_def by (intro grammar_intros; (erule rules_refine_mono; simp)?)

section \<open>Commands\<close>

lemma refines_redirection_sym [grammar_intros]:
  assumes "\<And>n. refines (m - 1) (k n) (l n)"
  shows "refines m (redirection_sym k) (redirection_sym l)"
  unfolding redirection_sym_def by (intro grammar_intros assms; (rule refines_mono[OF assms]; simp)?)

lemma refined_redirection_operator_within:
  "length ts < n \<Longrightarrow> refined m ts (redirection_operator_within n ts) (redirection_operator_within n ts)"
proof (induction n arbitrary: m ts)
  case (Suc n)
  show ?case
  proof (cases "looking_at [is_blank, is_digit_token] ts")
    case True
    then obtain b d us where ts: "ts = b # d # us" by (auto simp: looking_at_def length_Suc_conv Suc_le_length_iff)
    have "refined m us (get (redirection_operator_within n) (\<lambda>f. Parsed (leaf d # f)) us)
        (get (redirection_operator_within n) (\<lambda>f. Parsed (leaf d # f)) us)"
      unfolding get_def using Suc ts by (intro refined_get refines_Parsed) simp
    then have "refined m ts (get (redirection_operator_within n) (\<lambda>f. Parsed (leaf d # f)) us)
        (get (redirection_operator_within n) (\<lambda>f. Parsed (leaf d # f)) us)"
      by (rule refined_suffix) (simp add: ts suffix_ConsI)
    with True show ?thesis by (simp add: either_def next_token_def ts)
  next
    case False
    have "refines m (opt_blank (redirection_sym (\<lambda>op. Parsed [Tree op []])))
        (opt_blank (redirection_sym (\<lambda>op. Parsed [Tree op []])))"
      by (intro grammar_intros)
    with False show ?thesis by (simp add: either_def refines_at)
  qed
qed simp

lemma refines_redirection_operator [grammar_intros]: "refines m redirection_operator redirection_operator"
  by (rule refinesI) (simp add: redirection_operator_def refined_redirection_operator_within del: redirection_operator_within.simps)

lemma refines_file_descriptor [grammar_intros]: "refines m file_descriptor file_descriptor"
  unfolding file_descriptor_def by (intro grammar_intros)

lemma refines_process_substitution [grammar_intros]:
  "rules_refine (m - 1) (m - 1) G H \<Longrightarrow> refines m (process_substitution G) (process_substitution H)"
  unfolding process_substitution_def by (intro grammar_intros; (erule rules_refine_mono; simp)?)

lemma refines_redirection_destination [grammar_intros]:
  "rules_refine (m - 1) (m - 1) G H \<Longrightarrow>
     refines m (redirection_destination G) (redirection_destination H)"
  unfolding redirection_destination_def by (intro grammar_intros; (erule rules_refine_mono; simp)?)

lemma refines_here_string [grammar_intros]:
  "rules_refine (m - 1) (m - 1) G H \<Longrightarrow> refines m (here_string G) (here_string H)"
  unfolding here_string_def by (intro grammar_intros; (erule rules_refine_mono; simp)?)

lemma refines_redirection_atom [grammar_intros]:
  "rules_refine (m - 1) (m - 1) G H \<Longrightarrow> refines m (redirection_atom G) (redirection_atom H)"
  unfolding redirection_atom_def by (intro grammar_intros; (erule rules_refine_mono; simp)?)

lemma refines_redirection [grammar_intros]:
  "rules_refine (m - 1) (m - 1) G H \<Longrightarrow> refines m (redirection G) (redirection H)"
  unfolding redirection_def by (intro grammar_intros; (erule rules_refine_mono; simp)?)

lemma refines_array_atom [grammar_intros]:
  "rules_refine (m - 1) (m - 1) G H \<Longrightarrow> refines m (array_atom G) (array_atom H)"
  unfolding array_atom_def by (intro grammar_intros; (erule rules_refine_mono; simp)?)

lemma refines_array_value [grammar_intros]:
  "rules_refine (m - 1) (m - 1) G H \<Longrightarrow> refines m (array_value G) (array_value H)"
  unfolding array_value_def by (intro grammar_intros; (erule rules_refine_mono; simp)?)

lemma refines_value_rule [grammar_intros]:
  "rules_refine (m - 1) (m - 1) G H \<Longrightarrow> refines m (value_rule G) (value_rule H)"
  unfolding value_rule_def by (intro grammar_intros; (erule rules_refine_mono; simp)?)

lemma refines_variable_definition_atom [grammar_intros]:
  "rules_refine (m - 1) (m - 1) G H \<Longrightarrow>
     refines m (variable_definition_atom G) (variable_definition_atom H)"
  unfolding variable_definition_atom_def by (intro grammar_intros; (erule rules_refine_mono; simp)?)

lemma refines_variable_definitions [grammar_intros]:
  "rules_refine (m - 1) (m - 1) G H \<Longrightarrow> refines m (variable_definitions G) (variable_definitions H)"
  unfolding variable_definitions_def by (intro grammar_intros; (erule rules_refine_mono; simp)?)

lemma refines_builtin_variable_definition_atom [grammar_intros]:
  "rules_refine (m - 1) (m - 1) G H \<Longrightarrow>
     refines m (builtin_variable_definition_atom G) (builtin_variable_definition_atom H)"
  unfolding builtin_variable_definition_atom_def by (intro grammar_intros; (erule rules_refine_mono; simp)?)

lemma refines_builtin_variable_definitions [grammar_intros]:
  "rules_refine (m - 1) (m - 1) G H \<Longrightarrow>
     refines m (builtin_variable_definitions G a) (builtin_variable_definitions H a)"
  unfolding builtin_variable_definitions_def by (intro grammar_intros; (erule rules_refine_mono; simp)?)

lemma refines_item_step [grammar_intros]:
  "rules_refine (m - 1) (m - 1) G H \<Longrightarrow> refines m (item_step G a) (item_step H a)"
  unfolding item_step_def by (intro grammar_intros; (erule rules_refine_mono; simp)?)

lemma refines_builtin_variable_definition_item [grammar_intros]:
  "rules_refine (m - 1) (m - 1) G H \<Longrightarrow>
     refines m (builtin_variable_definition_item G) (builtin_variable_definition_item H)"
  unfolding builtin_variable_definition_item_def by (intro grammar_intros; (erule rules_refine_mono; simp)?)

lemma refines_condition_unary [grammar_intros]:
  "rules_refine (m - 1) (m - 1) G H \<Longrightarrow> refines m (condition_unary G) (condition_unary H)"
  unfolding condition_unary_def by (intro grammar_intros; (erule rules_refine_mono; simp)?)

lemma refines_pattern_condition [grammar_intros]:
  "rules_refine (m - 1) (m - 1) G H \<Longrightarrow> refines m (pattern_condition G a b) (pattern_condition H a b)"
  unfolding pattern_condition_def by (intro grammar_intros; (erule rules_refine_mono; simp)?)

lemma refines_pattern_part_loop:
  "refines m (pattern_part_loop n prev parens quoted f) (pattern_part_loop n prev parens quoted f)"
proof (induction n arbitrary: prev parens quoted f)
  case (Suc n)
  have later: "refined m ts (pattern_part_loop n p q r g us) (pattern_part_loop n p q r g us)"
    if "suffix us ts" for ts us p q r g
    using refines_at[OF Suc] that by (rule refined_suffix)
  have "suffix (tl us) (t # us)" for t us by (cases us) (auto simp: suffix_ConsI)
  with later show ?case
    by (intro refinesI) (simp add: Let_def suffix_ConsI split: list.split)
qed (simp add: refinesI)

lemma refines_bash_pattern_part [grammar_intros]: "refines m bash_pattern_part bash_pattern_part"
proof (rule refinesI)
  show "refined m ts (bash_pattern_part ts) (bash_pattern_part ts)" for ts
    using refines_at[OF refines_pattern_part_loop, of m ts "Suc (length ts)" None 0 False "[]"]
    by (auto simp: bash_pattern_part_def get_def refined_def split: parsed.splits)
qed

lemma refines_keyword_condition_binary [grammar_intros]:
  "rules_refine (m - 1) (m - 1) G H \<Longrightarrow>
     refines m (keyword_condition_binary G) (keyword_condition_binary H)"
  unfolding keyword_condition_binary_def by (intro grammar_intros; (erule rules_refine_mono; simp)?)

lemma refined_condition_primary:
  assumes "refines (m - 1) c d" "refines m o1 o2" "refines m t1 t2" "length ts < n"
  shows "refined m ts (condition_primary n c o1 t1 ts) (condition_primary n d o2 t2 ts)"
  using assms
proof (induction n arbitrary: m ts)
  case (Suc n)
  consider (group) "sees [Sym ''(''] ts" | (negation) us where "ts = Sym ''!'' # us" | (other) "\<not> sees [Sym ''(''] ts" "\<not> sees [Sym ''!''] ts"
    by (cases ts) (auto simp: sees_def)
  then show ?case
  proof cases
    case group
    have "refines m (expect (Sym ''('') (opt_blank (get c (\<lambda>f. opt_blank (expect (Sym '')'') (Parsed f))))))
        (expect (Sym ''('') (opt_blank (get d (\<lambda>f. opt_blank (expect (Sym '')'') (Parsed f))))))"
      by (intro grammar_intros Suc.prems)
    with group show ?thesis by (simp add: either_def refines_at)
  next
    case negation
    have "refined (m - 1) us (blank (get (condition_primary n c o1 t1) (\<lambda>f. Parsed (imaginary ''NEGATION'' f))) us)
        (blank (get (condition_primary n d o2 t2) (\<lambda>f. Parsed (imaginary ''NEGATION'' f))) us)"
    proof (cases us)
      case (Cons b vs)
      have "refined (m - 1 - 1) vs (condition_primary n c o1 t1 vs) (condition_primary n d o2 t2 vs)"
        using Suc.prems negation Cons by (intro Suc.IH) (auto intro: refines_mono)
      then have "refined (m - 1 - 1) vs (get (condition_primary n c o1 t1) (\<lambda>f. Parsed (imaginary ''NEGATION'' f)) vs)
          (get (condition_primary n d o2 t2) (\<lambda>f. Parsed (imaginary ''NEGATION'' f)) vs)"
        unfolding get_def by (rule refined_get) (rule refines_Parsed)
      then show ?thesis by (simp add: blank_def satisfying_def next_token_def fail_def Cons refined_Cons)
    qed (simp add: blank_def satisfying_def next_token_def)
    from refined_Cons[OF this] negation show ?thesis
      by (simp add: either_def sees_def expect_def next_token_def)
  next
    case other
    have "refines m (either unary_ahead o1 t1) (either unary_ahead o2 t2)" by (intro grammar_intros Suc.prems)
    from refines_at[OF this, of ts] other show ?thesis by (simp add: either_def)
  qed
qed simp

lemma refines_wspace_chain [grammar_intros]:
  "refines m p q \<Longrightarrow> refines m (wspace_chain op p) (wspace_chain op q)"
  unfolding wspace_chain_def by (intro grammar_intros; (erule refines_mono; simp)?)

lemma refines_builtin_binary_string_operator [grammar_intros]:
  assumes "\<And>n. refines (m - 1) (k n) (l n)"
  shows "refines m (builtin_binary_string_operator k) (builtin_binary_string_operator l)"
  unfolding builtin_binary_string_operator_def by (intro grammar_intros assms; (rule refines_mono[OF assms]; simp)?)

lemma refines_logic_chain [grammar_intros]:
  "refines m p q \<Longrightarrow> refines m (logic_chain letter name p) (logic_chain letter name q)"
  unfolding logic_chain_def by (intro grammar_intros; (erule refines_mono; simp)?)

lemma refines_keyword [grammar_intros]: "refines (m - 1) k l \<Longrightarrow> refines m (keyword w k) (keyword w l)"
  unfolding keyword_def by (intro grammar_intros)

lemma refines_semiel [grammar_intros]: "refines (m - 1) k l \<Longrightarrow> refines m (semiel k) (semiel l)"
  unfolding semiel_def by (intro grammar_intros)

lemma refines_keyword_condition_primary [grammar_intros]:
  assumes "rules_refine (m - 1) (m - 1) G H"
  shows "refines m (keyword_condition_primary G) (keyword_condition_primary H)"
  unfolding keyword_condition_primary_def[abs_def]
  by (intro refinesI refined_condition_primary refines_rules refines_condition_unary
      refines_keyword_condition_binary assms) simp

lemma refines_keyword_condition_and [grammar_intros]:
  "rules_refine (m - 1) (m - 1) G H \<Longrightarrow> refines m (keyword_condition_and G) (keyword_condition_and H)"
  unfolding keyword_condition_and_def by (intro grammar_intros; (erule rules_refine_mono; simp)?)

lemma refines_keyword_condition_rule [grammar_intros]:
  "rules_refine (m - 1) (m - 1) G H \<Longrightarrow> refines m (keyword_condition_rule G) (keyword_condition_rule H)"
  unfolding keyword_condition_rule_def by (intro grammar_intros; (erule rules_refine_mono; simp)?)

lemma refines_builtin_condition_binary [grammar_intros]:
  "rules_refine (m - 1) (m - 1) G H \<Longrightarrow>
     refines m (builtin_condition_binary G) (builtin_condition_binary H)"
  unfolding builtin_condition_binary_def by (intro grammar_intros; (erule rules_refine_mono; simp)?)

lemma refines_builtin_condition_primary [grammar_intros]:
  assumes "rules_refine (m - 1) (m - 1) G H"
  shows "refines m (builtin_condition_primary G) (builtin_condition_primary H)"
  unfolding builtin_condition_primary_def[abs_def]
  by (intro refinesI refined_condition_primary refines_rules refines_condition_unary
      refines_builtin_condition_binary assms) simp

lemma refines_builtin_condition_and [grammar_intros]:
  "rules_refine (m - 1) (m - 1) G H \<Longrightarrow> refines m (builtin_condition_and G) (builtin_condition_and H)"
  unfolding builtin_condition_and_def by (intro grammar_intros; (erule rules_refine_mono; simp)?)

lemma refines_builtin_condition_rule [grammar_intros]:
  "rules_refine (m - 1) (m - 1) G H \<Longrightarrow> refines m (builtin_condition_rule G) (builtin_condition_rule H)"
  unfolding builtin_condition_rule_def by (intro grammar_intros; (erule rules_refine_mono; simp)?)

lemma refines_condition_expr [grammar_intros]:
  "rules_refine (m - 1) (m - 1) G H \<Longrightarrow> refines m (condition_expr G) (condition_expr H)"
  unfolding condition_expr_def by (intro grammar_intros; (erule rules_refine_mono; simp)?)

lemma refines_do_done [grammar_intros]:
  assumes "rules_refine (m - 1) (m - 1) G H" "\<And>f. refines (m - 1) (k f) (l f)"
  shows "refines m (do_done G k) (do_done H l)"
  unfolding do_done_def
  by (intro grammar_intros assms(2); (rule rules_refine_mono[OF assms(1)] refines_mono[OF assms(2)]; simp)?)

lemma refines_for_each_values [grammar_intros]:
  "rules_refine (m - 1) (m - 1) G H \<Longrightarrow> refines m (for_each_values G) (for_each_values H)"
  unfolding for_each_values_def by (intro grammar_intros; (erule rules_refine_mono; simp)?)

lemma refines_opt_arithmetics [grammar_intros]:
  assumes "rules_refine m m G H" "\<And>f. refines m (k f) (l f)"
  shows "refines m (opt_arithmetics G s k) (opt_arithmetics H s l)"
  unfolding opt_arithmetics_def
  by (intro grammar_intros assms(2); (rule rules_refine_mono[OF assms(1)] refines_mono[OF assms(2)]; simp)?)

lemma refines_cfor_modification [grammar_intros]:
  assumes "rules_refine m m G H" "\<And>f. refines m (k f) (l f)"
  shows "refines m (cfor_modification G k) (cfor_modification H l)"
  unfolding cfor_modification_def
  by (intro grammar_intros assms(2); (rule rules_refine_mono[OF assms(1)] refines_mono[OF assms(2)]; simp)?)

lemma refines_cfor_rest [grammar_intros]:
  "rules_refine m m G H \<Longrightarrow> refines m (cfor_rest G) (cfor_rest H)"
  unfolding cfor_rest_def Let_def by (intro grammar_intros; (erule rules_refine_mono; simp)?)

lemma refines_cfor_expr [grammar_intros]:
  "rules_refine (m - 1) (m - 1) G H \<Longrightarrow> refines m (cfor_expr G) (cfor_expr H)"
  unfolding cfor_expr_def by (intro grammar_intros; (erule rules_refine_mono; simp)?)

lemma refines_for_in_expr [grammar_intros]:
  "rules_refine (m - 1) (m - 1) G H \<Longrightarrow> refines m (for_in_expr G) (for_in_expr H)"
  unfolding for_in_expr_def by (intro grammar_intros; (erule rules_refine_mono; simp)?)

lemma refines_for_expr [grammar_intros]:
  "rules_refine (m - 1) (m - 1) G H \<Longrightarrow> refines m (for_expr G) (for_expr H)"
  unfolding for_expr_def by (intro grammar_intros; (erule rules_refine_mono; simp)?)

lemma refines_select_expr [grammar_intros]:
  "rules_refine (m - 1) (m - 1) G H \<Longrightarrow> refines m (select_expr G) (select_expr H)"
  unfolding select_expr_def by (intro grammar_intros; (erule rules_refine_mono; simp)?)

lemma refines_then_branch [grammar_intros]:
  "rules_refine m m G H \<Longrightarrow> refines m (then_branch G mk) (then_branch H mk)"
  unfolding then_branch_def by (intro grammar_intros; (erule rules_refine_mono; simp)?)

lemma refines_elif_expr [grammar_intros]:
  "rules_refine (m - 1) (m - 1) G H \<Longrightarrow> refines m (elif_expr G) (elif_expr H)"
  unfolding elif_expr_def by (intro grammar_intros; (erule rules_refine_mono; simp)?)

lemma refines_if_expr [grammar_intros]:
  "rules_refine (m - 1) (m - 1) G H \<Longrightarrow> refines m (if_expr G) (if_expr H)"
  unfolding if_expr_def by (intro grammar_intros; (erule rules_refine_mono; simp)?)

lemma refines_while_expr [grammar_intros]:
  "rules_refine (m - 1) (m - 1) G H \<Longrightarrow> refines m (while_expr G) (while_expr H)"
  unfolding while_expr_def by (intro grammar_intros; (erule rules_refine_mono; simp)?)

lemma refines_case_statement [grammar_intros]:
  "rules_refine m (m - 1) G H \<Longrightarrow> refines m (case_statement G) (case_statement H)"
  unfolding case_statement_def Let_def by (intro grammar_intros; (erule rules_refine_mono; simp)?)

lemma refines_case_body [grammar_intros]:
  "rules_refine m (m - 1) G H \<Longrightarrow> refines m (case_body G) (case_body H)"
  unfolding case_body_def by (intro grammar_intros; (erule rules_refine_mono; simp)?)

lemma refines_case_expr [grammar_intros]:
  "rules_refine (m - 1) (m - 1) G H \<Longrightarrow> refines m (case_expr G) (case_expr H)"
  unfolding case_expr_def by (intro grammar_intros; (erule rules_refine_mono; simp)?)

lemma refines_subshell [grammar_intros]:
  "rules_refine (m - 1) (m - 1) G H \<Longrightarrow> refines m (subshell G) (subshell H)"
  unfolding subshell_def by (intro grammar_intros; (erule rules_refine_mono; simp)?)

lemma refines_current_shell [grammar_intros]:
  "rules_refine (m - 1) (m - 1) G H \<Longrightarrow> refines m (current_shell G) (current_shell H)"
  unfolding current_shell_def by (intro grammar_intros; (erule rules_refine_mono; simp)?)

lemma refines_arithmetic_expression [grammar_intros]:
  "rules_refine (m - 1) (m - 1) G H \<Longrightarrow> refines m (arithmetic_expression G) (arithmetic_expression H)"
  unfolding arithmetic_expression_def by (intro grammar_intros; (erule rules_refine_mono; simp)?)

lemma refines_compound_command [grammar_intros]:
  assumes "rules_refine (m - 1) (m - 1) G H"
  shows "refines m (compound_command G) (compound_command H)"
proof (rule refinesI)
  fix ts
  have test: "refines m (get (condition_expr G) (\<lambda>f. Parsed (imaginary ''COMPOUND_COND'' f)))
      (get (condition_expr H) (\<lambda>f. Parsed (imaginary ''COMPOUND_COND'' f)))"
    by (intro grammar_intros assms)
  note rules = refines_for_expr refines_select_expr refines_if_expr refines_while_expr refines_case_expr
    refines_subshell refines_current_shell refines_arithmetic_expression
  show "refined m ts (compound_command G ts) (compound_command H ts)"
  proof (cases ts)
    case (Cons t us)
    then show ?thesis
      by (cases t) (simp_all add: compound_command_def rules[OF assms, THEN refines_at] refines_at[OF test])
  qed (simp add: compound_command_def)
qed

lemma refines_bash_command_argument_atom [grammar_intros]:
  "rules_refine (m - 1) (m - 1) G H \<Longrightarrow>
     refines m (bash_command_argument_atom G) (bash_command_argument_atom H)"
  unfolding bash_command_argument_atom_def by (intro grammar_intros; (erule rules_refine_mono; simp)?)

lemma refines_bash_command_arguments [grammar_intros]:
  "rules_refine (m - 1) (m - 1) G H \<Longrightarrow> refines m (bash_command_arguments G) (bash_command_arguments H)"
  unfolding bash_command_arguments_def by (intro grammar_intros; (erule rules_refine_mono; simp)?)

lemma refines_bash_command [grammar_intros]:
  "rules_refine (m - 1) (m - 1) G H \<Longrightarrow> refines m (bash_command G) (bash_command H)"
  unfolding bash_command_def by (intro grammar_intros; (erule rules_refine_mono; simp)?)

lemma refines_function_body [grammar_intros]:
  "rules_refine (m - 1) (m - 1) G H \<Longrightarrow> refines m (function_body G a) (function_body H a)"
  unfolding function_body_def by (intro grammar_intros; (erule rules_refine_mono; simp)?)

lemma refines_command_name [grammar_intros]:
  "rules_refine (m - 1) (m - 1) G H \<Longrightarrow> refines m (command_name G) (command_name H)"
  unfolding command_name_def by (intro grammar_intros; (erule rules_refine_mono; simp)?)

lemma refines_builtin_definition [grammar_intros]:
  "rules_refine (m - 1) (m - 1) G H \<Longrightarrow> refines m (builtin_definition G) (builtin_definition H)"
  unfolding builtin_definition_def by (intro grammar_intros; (erule rules_refine_mono; simp)?)

lemma refines_command_atom_rule [grammar_intros]:
  "rules_refine (m - 1) (m - 1) G H \<Longrightarrow> refines m (command_atom_rule G) (command_atom_rule H)"
  unfolding command_atom_rule_def by (intro grammar_intros; (erule rules_refine_mono; simp)?)

lemma refines_here_document_begin [grammar_intros]: "refines m here_document_begin here_document_begin"
  unfolding here_document_begin_def by (intro grammar_intros)

lemma refines_here_document_content [grammar_intros]:
  "refines m (here_document_content word n) (here_document_content word n)"
  unfolding here_document_content_def by (intro grammar_intros)

lemma refines_here_document_end [grammar_intros]:
  assumes "refines m k l"
  shows "refines m (here_document_end n k) (here_document_end n l)"
proof -
  have "refines m (\<lambda>ts. k (drop n ts)) (\<lambda>ts. l (drop n ts))" by (rule refines_skip[OF assms]) (rule suffix_drop)
  then show ?thesis by (auto intro!: refinesI simp: here_document_end_def refines_def)
qed

lemma refines_here_document_operator [grammar_intros]:
  assumes "\<And>op. refines (m - 1) (k op) (l op)"
  shows "refines m (here_document_operator k) (here_document_operator l)"
  unfolding here_document_operator_def by (intro grammar_intros assms; (rule refines_mono[OF assms]; simp)?)

lemma refines_here_document [grammar_intros]:
  "rules_refine (m - 1) (m - 1) G H \<Longrightarrow> refines m (here_document G) (here_document H)"
  unfolding here_document_def by (intro grammar_intros; (erule rules_refine_mono; simp)?)

lemma refines_command_rule [grammar_intros]:
  "rules_refine (m - 1) (m - 1) G H \<Longrightarrow> refines m (command_rule G) (command_rule H)"
  unfolding command_rule_def by (intro grammar_intros; (erule rules_refine_mono; simp)?)

lemma refines_time_rule [grammar_intros]:
  assumes "\<And>f. refines m (k f) (l f)"
  shows "refines m (time_rule k) (time_rule l)"
  unfolding time_rule_def by (intro grammar_intros assms; (rule refines_mono[OF assms]; simp)?)

lemma refines_piped [grammar_intros]:
  "rules_refine (m - 1) (m - 1) G H \<Longrightarrow> refines m (piped G a) (piped H a)"
  unfolding piped_def by (intro grammar_intros; (erule rules_refine_mono; simp)?)

lemma refines_pipeline [grammar_intros]:
  "rules_refine (m - 1) (m - 1) G H \<Longrightarrow> refines m (pipeline G) (pipeline H)"
  unfolding pipeline_def by (intro grammar_intros; (erule rules_refine_mono; simp)?)

lemma refines_list_level_1 [grammar_intros]:
  "rules_refine (m - 1) (m - 1) G H \<Longrightarrow> refines m (list_level_1 G) (list_level_1 H)"
  unfolding list_level_1_def by (intro grammar_intros; (erule rules_refine_mono; simp)?)

lemma suffix_next_command: "next_command ts = Some (f, us) \<Longrightarrow> suffix us ts"
proof -
  assume "next_command ts = Some (f, us)"
  then obtain t ts' where t: "skip_blank ts = t # ts'" "us = skip_wspace ts'"
    by (auto simp: next_command_def split: list.splits if_splits)
  have "suffix us ts'" using t suffix_skip_wspace by blast
  also have "suffix ts' (t # ts')" by (simp add: suffix_ConsI)
  also have "suffix (t # ts') ts" using suffix_skip_blank[of ts] t by simp
  finally show ?thesis .
qed

lemma refines_list_level_2 [grammar_intros]:
  assumes "rules_refine (m - 1) (m - 1) G H"
  shows "refines m (list_level_2 G) (list_level_2 H)"
proof -
  have step: "refines m (get (list_level_1 G) (\<lambda>g. Parsed (f @ sep @ g))) (get (list_level_1 H) (\<lambda>g. Parsed (f @ sep @ g)))" for f sep
    by (intro grammar_intros assms)
  have "refines m (\<lambda>ts. case next_command ts of
        Some (sep, ts') \<Rightarrow> get (list_level_1 G) (\<lambda>g. Parsed (f @ sep @ g)) ts' | None \<Rightarrow> Syntax_error)
      (\<lambda>ts. case next_command ts of
        Some (sep, ts') \<Rightarrow> get (list_level_1 H) (\<lambda>g. Parsed (f @ sep @ g)) ts' | None \<Rightarrow> Syntax_error)" for f
    using refined_suffix[OF refines_at[OF step] suffix_next_command]
    by (auto intro!: refinesI split: option.split)
  then show ?thesis unfolding list_level_2_def by (intro grammar_intros assms)
qed

lemma refines_command_list_parser [grammar_intros]:
  "rules_refine (m - 1) (m - 1) G H \<Longrightarrow> refines m (command_list_parser G) (command_list_parser H)"
  unfolding command_list_parser_def by (intro grammar_intros; (erule rules_refine_mono; simp)?)

lemma refines_at_end [grammar_intros]: "refines m (at_end f) (at_end f)"
  by (rule refinesI) (simp add: at_end_def)

lemma suffix_first_line_comment: "suffix (first_line_comment ts) ts"
  by (simp add: first_line_comment_def suffix_ConsI suffix_dropWhile suffix_order.trans[OF suffix_dropWhile] split: list.split)

lemma refines_start_rule [grammar_intros]:
  assumes "rules_refine (m - 1) (m - 1) G H"
  shows "refines m (start_rule G) (start_rule H)"
proof -
  let ?p = "\<lambda>G. opt_blank (get (command_list_parser G) (\<lambda>f. opt_blank
        (either (looking_at [\<lambda>t. t \<in> {Sym '';'', Sym ''&''} \<or> is_eol t]) (next_token (\<lambda>_. at_end f)) (at_end f))))"
  have "refines m (?p G) (?p H)" by (intro grammar_intros assms)
  then have "refines m (\<lambda>ts. ?p G (dropWhile is_eol (first_line_comment ts)))
      (\<lambda>ts. ?p H (dropWhile is_eol (first_line_comment ts)))"
    by (rule refines_skip) (rule suffix_order.trans[OF suffix_dropWhile suffix_first_line_comment])
  then show ?thesis unfolding start_rule_def[abs_def] refines_def by simp
qed

section \<open>The grammar\<close>

lemma grammar_Suc_refines:
  assumes "rules_refine k m (grammar n) (grammar n')"
  shows "rules_refine (Suc (min k m)) (min k (Suc m)) (grammar (Suc n)) (grammar (Suc n'))"
  unfolding rules_refine_def grammar.simps Let_def rules.simps
  by (intro conjI refines_arithmetics refines_string_expr_part refines_extended_pattern_rule
      refines_keyword_condition_rule refines_builtin_condition_rule refines_command_list_parser
      rules_refine_mono[OF assms]) auto

lemma grammar_refines: "rules_refine ((n + 1) div 2) (n div 2) (grammar n) (grammar (n + k))"
proof (induction n)
  case 0
  show ?case by (simp add: rules_refine_def grammar.simps refines_def beyond_def)
next
  case (Suc n)
  have "(Suc n + 1) div 2 \<le> Suc (min ((n + 1) div 2) (n div 2))" "Suc n div 2 \<le> min ((n + 1) div 2) (Suc (n div 2))"
    by presburger+
  with rules_refine_mono[OF grammar_Suc_refines[OF Suc]] show ?case by simp
qed

lemma refines_start_parser:
  "rules_refine (m - 1) (m - 1) G H \<Longrightarrow> refines m (start_parser G rule) (start_parser H rule)"
  by (cases rule) (simp_all add: refines_start_rule refines_arithmetics refines_all_expansions
    refines_builtin_variable_definitions)

lemma refined_start_parser:
  assumes "n \<le> n'"
  shows "refined (n div 2 + 1) ts (start_parser (grammar n) rule ts) (start_parser (grammar n') rule ts)"
proof -
  have "rules_refine (n div 2) (n div 2) (grammar n) (grammar n')"
    using grammar_refines[of n "n' - n"] assms by (auto intro: rules_refine_mono)
  then show ?thesis using refines_at[OF refines_start_parser[of "n div 2 + 1"]] by simp
qed

text \<open>A rule takes its tokens from the front.\<close>

lemma start_parser_rest: "start_parser (grammar n) rule ts = Parsed f rest \<Longrightarrow> suffix rest ts"
  using refined_start_parser[of n n ts rule] by (simp add: refined_def)

lemma parse_tokens_bound:
  assumes "parse_tokens n rule ts \<noteq> Inl outside_model" "n \<le> m"
  shows "parse_tokens m rule ts = parse_tokens n rule ts"
proof -
  have "start_parser (grammar n) rule ts \<noteq> Not_modelled"
    using assms(1) by (auto simp: parse_tokens_def)
  then have "start_parser (grammar m) rule ts = start_parser (grammar n) rule ts"
    using refined_start_parser[OF assms(2), of ts rule] by (simp add: refined_def)
  then show ?thesis by (simp add: parse_tokens_def)
qed

lemma parse_tokens_answers:
  assumes "2 * length ts \<le> n"
  shows "parse_tokens n rule ts \<noteq> Inl outside_model"
  using refined_start_parser[of n n ts rule] assms
  by (auto simp: parse_tokens_def refined_def beyond_def another_rule_def outside_model_def split: parsed.split option.split)

text \<open>C24 (termination): parsing ends with an answer, and the bound on the nesting of rules never decides which. A text
  that the lexer splits into \<open>k\<close> tokens is accepted or rejected within the bound \<open>2 * k\<close>; and the tree and the count
  of errors are the same under every larger bound.\<close>

theorem parsing_ends:
  assumes "tokenize False s = Some ts" "2 * length ts \<le> n"
  shows "parse_text n rule s \<noteq> Inl outside_model \<and> (\<exists>r. \<forall>m. n \<le> m \<longrightarrow> parse_text m rule s = r)"
  using parse_tokens_answers[OF assms(2)] parse_tokens_bound assms(1) by (simp add: parse_text_def) blast

theorem parsing_ends_witness:
  "parse_text 14 Parser_start ''(2+3)*4'' \<noteq> Inl outside_model"
  using parsing_ends[OF example_tokens(1), of 14 Parser_start] by simp

end
