(* ===== verification/Assignment_Tokens.thy ===== *)
theory Assignment_Tokens
  imports Arith_Text_Laws Lexer_Laws
begin

text \<open>
  Scripts of assignments, a line for each: their text, and what the lexer and the parser make of it. A value is
  bare, in double quotes or in single quotes. The lexer first, token by token, then the parser rules for lists of
  commands, for definitions and for words.
\<close>

section \<open>The texts\<close>

datatype 'a quoted = Bare 'a | Double_quotes 'a | Single_quotes 'a

definition shell_name :: "string \<Rightarrow> bool" where
  "shell_name x \<longleftrightarrow> x \<noteq> [] \<and> (\<forall>c\<in>set x. is_word_char c) \<and> \<not> is_digit (hd x) \<and> x \<notin> set reserved_words"

definition plain_char :: "char \<Rightarrow> bool" where
  "plain_char c \<longleftrightarrow> is_word_char c \<or> c \<in> set ''-+.:/,@%^~=''"

definition plain_text :: "string \<Rightarrow> bool" where
  "plain_text v \<longleftrightarrow> (\<forall>c\<in>set v. plain_char c)"

definition quoted_text :: "string \<Rightarrow> bool" where
  \<comment> \<open>between double quotes, line ends and comments signs included\<close>
  "quoted_text v \<longleftrightarrow> (\<forall>c\<in>set v. c \<notin> {dquote_char, backslash_char, tick_char, CHR ''$'', CHR ''{''})"

primrec value_ok :: "string quoted \<Rightarrow> bool" where
  "value_ok (Bare v) = plain_text v"
| "value_ok (Double_quotes v) = quoted_text v"
| "value_ok (Single_quotes v) = (quote_char \<notin> set v)"

primrec value_text :: "string quoted \<Rightarrow> string" where
  "value_text (Bare v) = v"
| "value_text (Double_quotes v) = dquote_char # v @ [dquote_char]"
| "value_text (Single_quotes v) = quote_char # v @ [quote_char]"

primrec unquoted :: "'a quoted \<Rightarrow> 'a" where
  "unquoted (Bare v) = v"
| "unquoted (Double_quotes v) = v"
| "unquoted (Single_quotes v) = v"

definition assignment_text :: "string \<times> string quoted \<Rightarrow> string" where
  "assignment_text = (\<lambda>(x, v). x @ CHR ''='' # value_text v)"

definition more_lines :: "(string \<times> string quoted) list \<Rightarrow> string" where
  "more_lines as = concat (map (\<lambda>a. newline # assignment_text a) as)"

definition assignment_ok :: "string \<times> string quoted \<Rightarrow> bool" where
  "assignment_ok a \<longleftrightarrow> shell_name (fst a) \<and> value_ok (snd a)"

section \<open>A token at a time\<close>

definition ends_line :: "string \<Rightarrow> bool" where
  "ends_line s \<longleftrightarrow> s = [] \<or> hd s = newline"

definition plain_end :: "char \<Rightarrow> bool" where
  "plain_end c \<longleftrightarrow> c = newline \<or> c = dquote_char"

lemma word_char_simps [simp]:
  "\<not> is_word_char (CHR '' '')" "\<not> is_word_char tab_char" "\<not> is_word_char newline" "\<not> is_word_char return_char"
  "\<not> is_word_char backslash_char" "\<not> is_word_char (CHR ''$'')" "\<not> is_word_char tick_char"
  "\<not> is_word_char quote_char" "\<not> is_word_char dquote_char" "\<not> is_word_char (CHR ''='')" "\<not> is_word_char (CHR ''#'')"
  by code_simp+

lemma digit_word_char: "is_digit c \<Longrightarrow> is_word_char c"
  by (simp add: is_word_char_def)

lemma plain_char_other:
  assumes "plain_char c"
  shows "c \<noteq> CHR '' ''" "c \<noteq> tab_char" "c \<noteq> newline" "c \<noteq> return_char" "c \<noteq> backslash_char" "c \<noteq> CHR ''$''"
    "c \<noteq> tick_char" "c \<noteq> quote_char" "c \<noteq> dquote_char"
proof -
  have "\<not> plain_char (CHR '' '')" "\<not> plain_char tab_char" "\<not> plain_char newline" "\<not> plain_char return_char"
    "\<not> plain_char backslash_char" "\<not> plain_char (CHR ''$'')" "\<not> plain_char tick_char" "\<not> plain_char quote_char"
    "\<not> plain_char dquote_char" by code_simp+
  with assms show "c \<noteq> CHR '' ''" "c \<noteq> tab_char" "c \<noteq> newline" "c \<noteq> return_char" "c \<noteq> backslash_char" "c \<noteq> CHR ''$''"
    "c \<noteq> tick_char" "c \<noteq> quote_char" "c \<noteq> dquote_char" by blast+
qed

lemma no_eol: "c \<noteq> newline \<Longrightarrow> c \<noteq> return_char \<Longrightarrow> eol_length (c # s) = 0"
  by (cases s) simp_all

lemma digit_no_underscore: "is_digit c \<Longrightarrow> c \<noteq> CHR ''_''"
  by (cases "c = CHR ''_''") (simp_all add: is_digit_def)

lemma scan_other_char:
  assumes "c \<notin> {CHR '' '', tab_char, backslash_char, CHR ''$'', tick_char, quote_char, dquote_char}"
    and "eol_length (c # s) = 0"
  shows "scan d (c # s) = (if letter_char c \<or> c = CHR ''_'' then scan_word (c # s)
     else if is_digit c then scan_number (c # s) else scan_fixed (c # s))"
proof -
  have "c \<noteq> CHR '' ''" "c \<noteq> tab_char" "c \<noteq> backslash_char" "c \<noteq> CHR ''$''" "c \<noteq> tick_char" "c \<noteq> quote_char"
    "c \<noteq> dquote_char" using assms(1) by simp_all
  then show ?thesis unfolding scan_def Let_def list.sel by (simp only: assms(2) if_False simp_thms less_irrefl)
qed

lemma scan_quotes:
  "scan d (quote_char # s) = scan_quote d (quote_char # s)"
  "scan d (dquote_char # s) = Some (1, Some (Sym [dquote_char]))"
proof -
  have "\<not> letter_char quote_char" "\<not> is_digit quote_char" "\<not> letter_char dquote_char" "\<not> is_digit dquote_char"
    by code_simp+
  moreover have "eol_length (quote_char # s) = 0" "eol_length (dquote_char # s) = 0"
    by (rule no_eol; simp add: newline_def)+
  ultimately show "scan d (quote_char # s) = scan_quote d (quote_char # s)"
    "scan d (dquote_char # s) = Some (1, Some (Sym [dquote_char]))" by (simp_all add: scan_def Let_def)
qed

definition takes :: "(lexeme \<Rightarrow> bool) \<Rightarrow> string \<Rightarrow> scanned \<Rightarrow> bool" where
  \<comment> \<open>a token of the kind, and of at least one and only characters of this text\<close>
  "takes P u r \<longleftrightarrow> (\<exists>n t. r = Some (Suc n, Some t) \<and> n < length u \<and> lexeme_text t = take (Suc n) u \<and> P t)"

lemma takesI: "r = Some (length w, Some t) \<Longrightarrow> w \<noteq> [] \<Longrightarrow> w = take (length w) u \<Longrightarrow> lexeme_text t = w \<Longrightarrow> P t \<Longrightarrow> takes P u r"
  unfolding takes_def by (cases w; cases u) (auto dest: arg_cong[of _ _ length])

lemma takeWhile_until: "r = [] \<or> \<not> P (hd r) \<Longrightarrow> takeWhile P (u @ r) = takeWhile P u"
  by (induction u) (auto simp: takeWhile_eq_Nil_iff)

lemma takeWhile_taken:
  assumes "r = [] \<or> \<not> P (hd r)" "u \<noteq> []" "P (hd u)"
  shows "takeWhile P (u @ r) = takeWhile P u" "takeWhile P u \<noteq> []" "takeWhile P u = take (length (takeWhile P u)) u"
  using assms takeWhile_until[of r P u] by (auto simp: takeWhile_eq_Nil_iff takeWhile_eq_take[symmetric])

fun word_token :: "lexeme \<Rightarrow> bool" where
  "word_token (Sym s) \<longleftrightarrow> s = ''_''"
| "word_token (Letter_token s) = True"
| "word_token (Keyword s) = True"
| "word_token (Name_token s) = True"
| "word_token (Digit_token s) = True"
| "word_token (Number_token s) = True"
| "word_token _ = False"

lemma takes_word:
  assumes "u \<noteq> []" "is_word_char (hd u)" "r = [] \<or> \<not> is_word_char (hd r)"
  shows "takes word_token u (scan_word (u @ r))"
proof -
  note w = takeWhile_taken[OF assms(3,1,2)]
  show ?thesis by (rule takesI[of _ "takeWhile is_word_char u"])
    (use w in \<open>auto simp: scan_word_def Let_def\<close>)
qed

lemma takes_number:
  assumes "u \<noteq> []" "is_digit (hd u)" "r = [] \<or> \<not> is_word_char (hd r)"
  shows "takes word_token u (scan_number (u @ r))"
proof -
  have "r = [] \<or> \<not> is_digit (hd r)" using assms(3) digit_word_char by blast
  note w = takeWhile_taken[OF this assms(1,2)]
  show ?thesis by (rule takesI[of _ "takeWhile is_digit u"])
    (use w in \<open>auto simp: scan_number_def Let_def\<close>)
qed

lemma fixed_texts_ends: "t \<in> set fixed_texts \<Longrightarrow> c \<in> set t \<Longrightarrow> \<not> plain_end c" "t \<in> set fixed_texts \<Longrightarrow> t \<noteq> []"
proof -
  have "list_all (\<lambda>t. list_all (\<lambda>c. \<not> plain_end c) t \<and> t \<noteq> []) fixed_texts"
    unfolding plain_end_def by code_simp
  then show "t \<in> set fixed_texts \<Longrightarrow> c \<in> set t \<Longrightarrow> \<not> plain_end c" "t \<in> set fixed_texts \<Longrightarrow> t \<noteq> []"
    unfolding list_all_iff by blast+
qed

lemma takes_fixed:
  assumes "u \<noteq> []" "r = [] \<or> plain_end (hd r)"
  shows "takes (\<lambda>t. t = Other_token [hd u] \<and> [hd u] \<notin> set fixed_texts \<or>
     (\<exists>s\<in>set fixed_texts. t = Sym s \<and> hd s = hd u)) u (scan_fixed (u @ r))"
proof (cases "find (\<lambda>t. take (length t) (u @ r) = t) fixed_texts")
  case None
  obtain c u' where u: "u = c # u'" using assms(1) by (cases u) auto
  from None have "scan_fixed (u @ r) = Some (length [c], Some (Other_token [c]))" unfolding scan_fixed_def by (simp add: u)
  moreover have "[c] \<notin> set fixed_texts"
  proof
    assume "[c] \<in> set fixed_texts"
    with None have "take (length [c]) (u @ r) \<noteq> [c]" unfolding find_None_iff by blast
    then show False by (simp add: u)
  qed
  ultimately show ?thesis by (intro takesI[of _ "[c]" "Other_token [c]"]) (simp_all add: u)
next
  case (Some t)
  then have t: "t \<in> set fixed_texts" "take (length t) (u @ r) = t" by (auto simp: find_Some_iff in_set_conv_nth)
  have "t \<noteq> []" by (rule fixed_texts_ends(2)[OF t(1)])
  have len: "length t \<le> length u"
  proof (rule ccontr)
    assume "\<not> length t \<le> length u"
    then obtain k where k: "length t - length u = Suc k" by (cases "length t - length u") auto
    have eq: "t = u @ take (Suc k) r" using t(2) k by (simp add: take_append)
    with k have "r \<noteq> []" by (cases r) auto
    with eq have "hd r \<in> set t" by (cases r) auto
    with fixed_texts_ends(1)[OF t(1)] assms(2) \<open>r \<noteq> []\<close> show False by blast
  qed
  moreover have "hd t = hd u" using t(2) \<open>t \<noteq> []\<close> assms(1) by (cases t; cases u) auto
  ultimately show ?thesis using Some t \<open>t \<noteq> []\<close> by (intro takesI[of _ t]) (auto simp: scan_fixed_def)
qed

lemma takes_mono: "takes P u r \<Longrightarrow> (\<And>t. P t \<Longrightarrow> Q t) \<Longrightarrow> takes Q u r"
  unfolding takes_def by blast

section \<open>Bare and quoted text\<close>

fun text_token :: "lexeme \<Rightarrow> bool" where
  \<comment> \<open>a part of a word by itself and with its own text\<close>
  "text_token (Escape s) = False"
| "text_token t = is_plain t"

fun quoted_token :: "lexeme \<Rightarrow> bool" where
  \<comment> \<open>a token that means itself between double quotes\<close>
  "quoted_token (Sym s) \<longleftrightarrow> s \<notin> {''$'', ''{'', [dquote_char]}"
| "quoted_token (Escape s) = False"
| "quoted_token (Command_paren s) = False"
| "quoted_token (Command_tick s) = False"
| "quoted_token t = True"

lemma word_token_kinds: "word_token t \<Longrightarrow> text_token t" "word_token t \<Longrightarrow> quoted_token t"
  by (cases t; simp)+

lemma fixed_texts_of_plain:
  "t \<in> set fixed_texts \<Longrightarrow> hd t \<in> set ''-+.:/,@%^~='' \<Longrightarrow> t \<in> set plain_syms"
proof -
  have "list_all (\<lambda>t. hd t \<in> set ''-+.:/,@%^~='' \<longrightarrow> t \<in> set plain_syms) fixed_texts" by code_simp
  then show "t \<in> set fixed_texts \<Longrightarrow> hd t \<in> set ''-+.:/,@%^~='' \<Longrightarrow> ?thesis" unfolding list_all_iff by blast
qed

lemma plain_alone: "c \<in> set ''-+.:/,@%^~='' \<Longrightarrow> [c] \<in> set fixed_texts"
proof -
  have "list_all (\<lambda>c. [c] \<in> set fixed_texts) ''-+.:/,@%^~=''" by code_simp
  then show "c \<in> set ''-+.:/,@%^~='' \<Longrightarrow> ?thesis" unfolding list_all_iff by blast
qed

lemma takes_plain:
  assumes "u \<noteq> []" "plain_text u" "ends_line r"
  shows "takes text_token u (scan d (u @ r))"
proof -
  obtain c u' where u: "u = c # u'" using assms(1) by (cases u) auto
  have c: "plain_char c" using assms(2) by (simp add: u plain_text_def)
  have r: "r = [] \<or> \<not> is_word_char (hd r)" "r = [] \<or> plain_end (hd r)"
    using assms(3) by (auto simp: ends_line_def plain_end_def)
  have scan: "scan d (u @ r) = (if letter_char c \<or> c = CHR ''_'' then scan_word (u @ r)
     else if is_digit c then scan_number (u @ r) else scan_fixed (u @ r))"
    using scan_other_char[of c "u' @ r" d] plain_char_other[OF c] by (simp add: u no_eol)
  consider "letter_char c \<or> c = CHR ''_''" | "\<not> (letter_char c \<or> c = CHR ''_'')" "is_digit c"
    | "\<not> is_word_char c" by (auto simp: is_word_char_def)
  then show ?thesis
  proof cases
    case 1
    then have "takes word_token u (scan d (u @ r))" unfolding scan using takes_word[OF assms(1) _ r(1)] word_start[OF 1] by (simp add: u)
    then show ?thesis using word_token_kinds(1) by (rule takes_mono)
  next
    case 2
    then have "takes word_token u (scan d (u @ r))" unfolding scan using takes_number[OF assms(1) _ r(1)] by (simp add: u)
    then show ?thesis using word_token_kinds(1) by (rule takes_mono)
  next
    case 3
    then have special: "c \<in> set ''-+.:/,@%^~=''" using c by (simp add: plain_char_def)
    have "text_token t" if "t = Other_token [hd u] \<and> [hd u] \<notin> set fixed_texts \<or>
      (\<exists>s\<in>set fixed_texts. t = Sym s \<and> hd s = hd u)" for t
      using that plain_alone[OF special] fixed_texts_of_plain special by (auto simp: u)
    from takes_mono[OF takes_fixed[OF assms(1) r(2)] this] 3 show ?thesis by (simp add: scan is_word_char_def)
  qed
qed

lemma eol_length_until: "c \<noteq> newline \<Longrightarrow> c \<noteq> return_char \<Longrightarrow> eol_length (u @ c # r) = eol_length u"
  by (induction u rule: eol_length.induct) (auto simp: no_eol)

lemma takes_quoted:
  assumes "u \<noteq> []" "quoted_text u"
  shows "takes quoted_token u (scan True (u @ dquote_char # r))"
proof -
  obtain c u' where u: "u = c # u'" using assms(1) by (cases u) auto
  let ?r = "dquote_char # r"
  have c: "c \<notin> {dquote_char, backslash_char, tick_char, CHR ''$'', CHR ''{''}" using assms(2) by (simp add: u quoted_text_def)
  have eol: "eol_length (u @ ?r) = eol_length u" by (rule eol_length_until) (simp_all add: newline_def)
  consider "c = CHR '' '' \<or> c = tab_char" | "c \<noteq> CHR '' ''" "c \<noteq> tab_char" "0 < eol_length u"
    | "c \<noteq> CHR '' ''" "c \<noteq> tab_char" "eol_length u = 0" by blast
  then show ?thesis
  proof cases
    case 1
    let ?P = "\<lambda>c. c = CHR '' '' \<or> c = tab_char"
    have "scan True (u @ ?r) = Some (length (takeWhile ?P u), Some (Blank_token (takeWhile ?P u)))"
      using 1 takeWhile_until[of ?r ?P u] by (simp add: scan_def u scan_blank_def Let_def comment_or_def)
    then show ?thesis using 1 takeWhile_taken(2,3)[of "[]" ?P u] u by (intro takesI[of _ "takeWhile ?P u"]) auto
  next
    case 2
    have taken: "take (eol_length u) (u @ ?r) = take (eol_length u) u" "min (length u) (eol_length u) = eol_length u"
      using eol_length_le[of u] by simp_all
    with 2 have "scan True (u @ ?r) = Some (length (take (eol_length u) u), Some (Eol_token (take (eol_length u) u)))"
      using eol taken by (simp add: scan_def u scan_eol_def comment_or_def)
    then show ?thesis using 2 u taken(2) by (intro takesI[of _ "take (eol_length u) u" "Eol_token (take (eol_length u) u)"]) auto
  next
    case 3
    show ?thesis
    proof (cases "c = quote_char")
      case True
      have "scan True (u @ ?r) = Some (length [c], Some (Sym [c]))"
        using True by (simp add: u scan_quotes scan_quote_def)
      then show ?thesis using u True by (intro takesI[of _ "[c]" "Sym [c]"]) auto
    next
      case False
      have r: "?r = [] \<or> \<not> is_word_char (hd ?r)" "?r = [] \<or> plain_end (hd ?r)" by (simp_all add: plain_end_def)
      have scan: "scan True (u @ ?r) = (if letter_char c \<or> c = CHR ''_'' then scan_word (u @ ?r)
         else if is_digit c then scan_number (u @ ?r) else scan_fixed (u @ ?r))"
        using scan_other_char[of c "u' @ ?r" True] 3 eol False c by (simp add: u)
      have "takes word_token u (scan_word (u @ ?r))" if "letter_char c \<or> c = CHR ''_''"
        using takes_word[OF assms(1) _ r(1)] word_start[OF that] by (simp add: u)
      moreover have "takes word_token u (scan_number (u @ ?r))" if "is_digit c"
        using takes_number[OF assms(1) _ r(1)] that by (simp add: u)
      moreover have "quoted_token t" if "t = Other_token [hd u] \<and> [hd u] \<notin> set fixed_texts \<or>
        (\<exists>s\<in>set fixed_texts. t = Sym s \<and> hd s = hd u)" for t
        using that c by (auto simp: u)
      from takes_mono[OF takes_fixed[OF assms(1) r(2)] this] have "takes quoted_token u (scan_fixed (u @ ?r))" .
      ultimately show ?thesis unfolding scan using word_token_kinds(2) takes_mono by auto
    qed
  qed
qed
section \<open>The tokens of a script of assignments\<close>

lemma tokenize_piece:
  assumes "\<And>w. w \<noteq> [] \<Longrightarrow> set w \<subseteq> set u \<Longrightarrow> takes P w (scan d (w @ r))" "\<And>t. P t \<Longrightarrow> t \<noteq> Sym [dquote_char]"
  shows "\<exists>ts. concat (map lexeme_text ts) = u \<and> list_all P ts \<and>
     tokenize d (u @ r) = map_option ((@) ts) (tokenize d r)"
  using assms(1)
proof (induction "length u" arbitrary: u rule: less_induct)
  case less
  show ?case
  proof (cases "u = []")
    case True
    then show ?thesis by (intro exI[of _ "[]"]) (cases "tokenize d r"; simp)
  next
    case False
    with less.prems[of u] obtain n t where scan: "scan d (u @ r) = Some (Suc n, Some t)"
      "n < length u" "lexeme_text t = take (Suc n) u" "P t" unfolding takes_def by blast
    have "length (drop (Suc n) u) < length u" using scan(2) by simp
    moreover have "takes P w (scan d (w @ r))" if "w \<noteq> []" "set w \<subseteq> set (drop (Suc n) u)" for w
      using less.prems[of w] that set_drop_subset[of "Suc n" u] by blast
    ultimately obtain ts where ts: "concat (map lexeme_text ts) = drop (Suc n) u" "list_all P ts"
      "tokenize d (drop (Suc n) u @ r) = map_option ((@) ts) (tokenize d r)" using less.hyps[of "drop (Suc n) u"] by blast
    have "drop (Suc n) (u @ r) = drop (Suc n) u @ r" using scan(2) by simp
    then have "tokenize d (u @ r) = map_option ((@) (t # ts)) (tokenize d r)"
      using False scan(1) ts(3) assms(2)[OF scan(4)] by (subst tokenize.simps) (cases "tokenize d r"; simp)
    with scan(3,4) ts show ?thesis by (intro exI[of _ "t # ts"]) simp
  qed
qed

lemma tokenize_token:
  assumes "scan d (u @ r) = Some (length u, Some t)" "u \<noteq> []"
  shows "tokenize d (u @ r) = map_option ((#) t) (tokenize (if t = Sym [dquote_char] then \<not> d else d) r)"
  using assms by (subst tokenize.simps) (cases u; simp)

primrec lexes :: "string quoted \<Rightarrow> lexeme list quoted \<Rightarrow> bool" where
  \<comment> \<open>the tokens of a value, the double quotes apart\<close>
  "lexes (Bare v) l \<longleftrightarrow> (\<exists>ts. l = Bare ts \<and> list_all text_token ts \<and> concat (map lexeme_text ts) = v)"
| "lexes (Double_quotes v) l \<longleftrightarrow>
     (\<exists>ts. l = Double_quotes ts \<and> list_all quoted_token ts \<and> concat (map lexeme_text ts) = v)"
| "lexes (Single_quotes v) l \<longleftrightarrow> l = Single_quotes [Single_quoted_token (quote_char # v @ [quote_char])]"

primrec value_lexemes :: "lexeme list quoted \<Rightarrow> lexeme list" where
  "value_lexemes (Bare ts) = ts"
| "value_lexemes (Double_quotes ts) = Sym [dquote_char] # ts @ [Sym [dquote_char]]"
| "value_lexemes (Single_quotes ts) = ts"

definition name_lexeme :: "string \<Rightarrow> lexeme" where
  "name_lexeme x = (if length x = 1 then if x = ''_'' then Sym x else Letter_token x else Name_token x)"

definition line_lexemes :: "string \<times> lexeme list quoted \<Rightarrow> lexeme list" where
  "line_lexemes = (\<lambda>(x, l). name_lexeme x # Sym ''='' # value_lexemes l)"

definition more_lexemes :: "(string \<times> lexeme list quoted) list \<Rightarrow> lexeme list" where
  "more_lexemes ls = concat (map (\<lambda>l. Eol_token [newline] # line_lexemes l) ls)"

lemma tokenize_value:
  assumes "value_ok v" "ends_line r"
  shows "\<exists>l. lexes v l \<and> tokenize False (value_text v @ r) = map_option ((@) (value_lexemes l)) (tokenize False r)"
proof (cases v)
  case (Bare u)
  have "takes text_token w (scan False (w @ r))" if "w \<noteq> []" "set w \<subseteq> set u" for w
    using takes_plain[OF that(1) _ assms(2)] that(2) assms(1) by (auto simp: Bare plain_text_def)
  moreover have "t \<noteq> Sym [dquote_char]" if "text_token t" for t using that by (auto simp: plain_syms_def)
  ultimately obtain ts where "concat (map lexeme_text ts) = u" "list_all text_token ts"
    "tokenize False (u @ r) = map_option ((@) ts) (tokenize False r)" using tokenize_piece[of u text_token False r] by blast
  then show ?thesis by (intro exI[of _ "Bare ts"]) (simp add: Bare)
next
  case (Double_quotes u)
  have "takes quoted_token w (scan True (w @ dquote_char # r))" if "w \<noteq> []" "set w \<subseteq> set u" for w
    using takes_quoted[OF that(1)] that(2) assms(1) by (auto simp: Double_quotes quoted_text_def)
  moreover have "t \<noteq> Sym [dquote_char]" if "quoted_token t" for t using that by auto
  ultimately obtain ts where ts: "concat (map lexeme_text ts) = u" "list_all quoted_token ts"
    "tokenize True (u @ dquote_char # r) = map_option ((@) ts) (tokenize True (dquote_char # r))"
    using tokenize_piece[of u quoted_token True "dquote_char # r"] by blast
  have "tokenize d (dquote_char # s) = map_option ((#) (Sym [dquote_char])) (tokenize (\<not> d) s)" for d s
    using tokenize_token[of d "[dquote_char]" s "Sym [dquote_char]"] by (simp add: scan_quotes)
  with ts(3) have "tokenize False (value_text v @ r) =
      map_option ((@) (value_lexemes (Double_quotes ts))) (tokenize False r)"
    by (simp add: Double_quotes) (cases "tokenize False r"; simp)
  with ts show ?thesis by (intro exI[of _ "Double_quotes ts"]) (simp add: Double_quotes)
next
  case (Single_quotes u)
  have "quote_char \<notin> set u" using assms(1) by (simp add: Single_quotes)
  then have "takeWhile (\<lambda>c. c \<noteq> quote_char) (u @ quote_char # r) = u" by (induction u) auto
  then have "tokenize False (value_text v @ r) =
      map_option ((#) (Single_quoted_token (value_text v))) (tokenize False r)"
    using tokenize_token[of False "value_text v" r "Single_quoted_token (value_text v)"]
    by (simp add: Single_quotes scan_quotes scan_quote_def single_quoted_length_def Let_def)
  then show ?thesis by (simp add: Single_quotes) (cases "tokenize False r"; simp)
qed

lemma tokenize_name:
  assumes "shell_name x"
  shows "tokenize False (x @ CHR ''='' # s) = map_option (\<lambda>ts. name_lexeme x # Sym ''='' # ts) (tokenize False s)"
proof -
  have w: "takeWhile is_word_char (x @ CHR ''='' # s) = x"
    using assms by (simp add: shell_name_def takeWhile_append2)
  obtain c x' where x: "x = c # x'" "letter_char c \<or> c = CHR ''_''"
    using assms by (cases x) (auto simp: shell_name_def is_word_char_def)
  then have "plain_char c" by (auto simp: plain_char_def is_word_char_def)
  with x have "scan False (x @ CHR ''='' # s) = scan_word (x @ CHR ''='' # s)"
    using scan_other_char[of c "x' @ CHR ''='' # s" False] plain_char_other[of c] by (simp add: no_eol)
  with w assms have "scan False (x @ CHR ''='' # s) = Some (length x, Some (name_lexeme x))"
    by (auto simp: scan_word_def name_lexeme_def shell_name_def)
  from tokenize_token[OF this] x have "tokenize False (x @ CHR ''='' # s) =
      map_option ((#) (name_lexeme x)) (tokenize False (CHR ''='' # s))" by (simp add: name_lexeme_def)
  moreover have "scan_fixed (CHR ''='' # s) = Some (1, Some (Sym ''=''))" by (simp add: scan_fixed_def fixed_texts_def)
  then have "scan False (CHR ''='' # s) = Some (1, Some (Sym ''=''))"
    by (subst scan_other_char) (simp_all add: no_eol newline_def letter_char_def is_digit_def)
  then have "tokenize False (CHR ''='' # s) = map_option ((#) (Sym ''='')) (tokenize False s)"
    using tokenize_token[of False "''=''" s] by simp
  ultimately show ?thesis by (simp add: option.map_comp comp_def)
qed

definition lexes_line :: "string \<times> string quoted \<Rightarrow> string \<times> lexeme list quoted \<Rightarrow> bool" where
  "lexes_line a l \<longleftrightarrow> fst l = fst a \<and> shell_name (fst a) \<and> lexes (snd a) (snd l)"

lemma ends_more_lines: "ends_line (more_lines as)"
  by (cases as) (simp_all add: more_lines_def ends_line_def)

lemma tokenize_line:
  assumes "assignment_ok a" "ends_line r"
  shows "\<exists>l. lexes_line a l \<and> tokenize False (assignment_text a @ r) = map_option ((@) (line_lexemes l)) (tokenize False r)"
proof -
  obtain x v where a: "a = (x, v)" by (cases a)
  from tokenize_value[OF _ assms(2), of v] assms(1) obtain l where
    "lexes v l" "tokenize False (value_text v @ r) = map_option ((@) (value_lexemes l)) (tokenize False r)"
    by (auto simp: assignment_ok_def a)
  then show ?thesis using tokenize_name[of x "value_text v @ r"] assms(1)
    by (intro exI[of _ "(x, l)"], cases "tokenize False r")
      (simp_all add: a assignment_ok_def lexes_line_def assignment_text_def line_lexemes_def option.map_comp comp_def)
qed

lemma tokenize_newline:
  assumes "assignment_ok a"
  shows "tokenize False (newline # assignment_text a @ r) = map_option ((#) (Eol_token [newline])) (tokenize False (assignment_text a @ r))"
proof -
  obtain c s where s: "assignment_text a @ r = c # s" "is_word_char c"
    using assms by (cases a; cases "fst a") (auto simp: assignment_ok_def shell_name_def assignment_text_def)
  have "c \<noteq> newline" "c \<noteq> return_char" "c \<noteq> CHR ''#''" using s(2) by (auto simp del: is_word_char_def)
  then have "eol_length (newline # c # s) = 1" by (simp add: no_eol)
  moreover have "newline \<noteq> CHR '' ''" "newline \<noteq> tab_char" by (simp_all add: newline_def)
  ultimately have "scan False (newline # c # s) = Some (1, Some (Eol_token [newline]))"
    using \<open>c \<noteq> CHR ''#''\<close> by (simp add: scan_def Let_def scan_eol_def comment_or_def)
  then show ?thesis using tokenize_token[of False "[newline]" "c # s"] by (simp add: s(1))
qed

lemma tokenize_more:
  "list_all assignment_ok as \<Longrightarrow> \<exists>ls. list_all2 lexes_line as ls \<and> tokenize False (more_lines as) = Some (more_lexemes ls)"
proof (induction as)
  case Nil
  then show ?case by (intro exI[of _ "[]"]) (subst tokenize.simps, simp add: more_lines_def more_lexemes_def)
next
  case (Cons a as)
  then obtain ls where ls: "list_all2 lexes_line as ls" "tokenize False (more_lines as) = Some (more_lexemes ls)" by auto
  from Cons.prems tokenize_line[OF _ ends_more_lines[of as], of a] obtain l where l: "lexes_line a l"
    "tokenize False (assignment_text a @ more_lines as) = map_option ((@) (line_lexemes l)) (tokenize False (more_lines as))"
    by auto
  have "more_lines (a # as) = newline # assignment_text a @ more_lines as" by (simp add: more_lines_def)
  with ls l Cons.prems tokenize_newline[of a "more_lines as"] show ?case
    by (intro exI[of _ "l # ls"]) (simp add: more_lexemes_def)
qed

lemma tokenize_script:
  assumes "list_all assignment_ok (a # as)"
  shows "\<exists>l ls. list_all2 lexes_line (a # as) (l # ls) \<and>
    tokenize False (assignment_text a @ more_lines as) = Some (line_lexemes l @ more_lexemes ls)"
proof -
  from tokenize_more[of as] assms obtain ls where "list_all2 lexes_line as ls"
    "tokenize False (more_lines as) = Some (more_lexemes ls)" by auto
  moreover from assms tokenize_line[OF _ ends_more_lines[of as], of a] obtain l where "lexes_line a l"
    "tokenize False (assignment_text a @ more_lines as) = map_option ((@) (line_lexemes l)) (tokenize False (more_lines as))"
    by auto
  ultimately show ?thesis by (intro exI[of _ l] exI[of _ ls]) simp
qed

section \<open>The parser on these tokens\<close>

primrec value_trees :: "lexeme list quoted \<Rightarrow> forest" where
  "value_trees (Bare ts) = map leaf ts"
| "value_trees (Double_quotes ts) = imaginary ''DOUBLE_QUOTED_STRING'' (map leaf ts)"
| "value_trees (Single_quotes ts) = imaginary ''SINGLE_QUOTED_STRING'' (map leaf ts)"

definition line_trees :: "string \<times> lexeme list quoted \<Rightarrow> forest" where
  "line_trees = (\<lambda>(x, l). equals_node (leaf (name_lexeme x) #
     (if l = Bare [] then [] else imaginary ''STRING'' (value_trees l))))"

definition command_trees :: "string \<times> lexeme list quoted \<Rightarrow> forest" where
  "command_trees l = imaginary ''COMMAND'' (imaginary ''VARIABLE_DEFINITIONS'' (line_trees l))"

lemma text_token_kind:
  assumes "text_token t"
  shows "is_plain t" "\<not> is_single_quoted t" "\<not> is_command_substitution t" "\<not> is_esc t" "t \<noteq> Sym [dquote_char]" "t \<noteq> Sym ''$''"
    "Sym ''$'' \<noteq> t" "t \<noteq> Sym ''{''" "t \<noteq> Sym ''(''"
  using assms by (cases t; auto simp: plain_syms_def)+

lemma quoted_token_kind:
  assumes "quoted_token t"
  shows "\<not> is_command_substitution t" "\<not> is_esc t" "t \<noteq> Sym [dquote_char]" "t \<noteq> Sym ''$''"
    "Sym ''$'' \<noteq> t" "t \<noteq> Sym ''{''"
  using assms by (cases t; auto)+

lemma text_part: "text_token t \<Longrightarrow> string_expr_part G (t # ts) = Parsed [leaf t] ts"
  by (simp add: string_expr_part_def expands_arithmetic_def parse_simps text_token_kind)

lemma quoted_part: "quoted_token t \<Longrightarrow> expansion_base G (t # ts) = Parsed [leaf t] ts"
  by (simp add: expansion_base_def names_variable_def expands_arithmetic_def brace_expansion_def parse_simps
      quoted_token_kind)

lemma repeat_leaves:
  assumes "\<And>t r. t \<in> set ts \<Longrightarrow> P (t # r) \<and> p (t # r) = Parsed [leaf t] r" "\<not> P rest" "length ts \<le> n"
  shows "repeat_while n P (\<lambda>f. get p (\<lambda>g. Parsed (f @ g))) f (ts @ rest) = Parsed (f @ map leaf ts) rest"
  using assms
proof (induction ts arbitrary: n f)
  case Nil
  then show ?case by (cases n) auto
next
  case (Cons t ts)
  then obtain k where "n = Suc k" by (cases n) auto
  with Cons show ?case by (simp add: get_def)
qed

lemma string_expr_value:
  assumes "lexes v l" "l \<noteq> Bare []" "\<not> part_ahead rest"
  shows "string_expr_rule G (value_lexemes l @ rest) = Parsed (imaginary ''STRING'' (value_trees l)) rest"
proof (cases v)
  case (Bare u)
  then obtain t ts where l: "l = Bare (t # ts)" "list_all text_token (t # ts)"
    using assms(1,2) by (cases "unquoted l") auto
  have "part_ahead (t' # r) \<and> string_expr_part G (t' # r) = Parsed [leaf t'] r" if "t' \<in> set ts" for t' r
    using that l(2) by (auto simp: list_all_iff text_part starts_part_def text_token_kind)
  then have "repeat_while (length (ts @ rest)) (\<lambda>ts. part_ahead ts) (\<lambda>f. get (string_expr_part G) (\<lambda>g. Parsed (f @ g)))
      [leaf t] (ts @ rest) = Parsed ([leaf t] @ map leaf ts) rest"
    using assms(3) by (intro repeat_leaves) auto
  with l show ?thesis
    by (simp add: string_expr_rule_def some_more_def repeating_def get_def text_part)
next
  case (Double_quotes u)
  then obtain ts where l: "l = Double_quotes ts" "list_all quoted_token ts" using assms(1) by auto
  let ?P = "\<lambda>ts. ts \<noteq> [] \<and> \<not> sees [Sym [dquote_char]] ts"
  have "?P (t # r) \<and> expansion_base G (t # r) = Parsed [leaf t] r" if "t \<in> set ts" for t r
    using that l(2) by (auto simp: list_all_iff quoted_part sees_simps quoted_token_kind)
  then have "repeat_while (length (ts @ Sym [dquote_char] # rest)) ?P (\<lambda>f. get (expansion_base G) (\<lambda>g. Parsed (f @ g)))
      [] (ts @ Sym [dquote_char] # rest) = Parsed ([] @ map leaf ts) (Sym [dquote_char] # rest)"
    by (intro repeat_leaves) (auto simp: sees_simps)
  then have "double_quoted_string G (Sym [dquote_char] # ts @ Sym [dquote_char] # rest) =
      Parsed (imaginary ''DOUBLE_QUOTED_STRING'' (map leaf ts)) rest"
    by (simp add: double_quoted_string_def many_def repeating_def parse_simps)
  with assms(3) show ?thesis
    by (cases "length rest") (auto simp: l(1) string_expr_rule_def some_more_def repeating_def parse_simps string_expr_part_def)
next
  case (Single_quotes u)
  with assms show ?thesis
    by (cases "length rest") (auto simp: string_expr_rule_def some_more_def repeating_def parse_simps string_expr_part_def
      expands_arithmetic_def)
qed

lemma name_lexeme_kinds:
  assumes "shell_name x"
  shows "is_name (name_lexeme x)" "starts_command (name_lexeme x)" "\<not> is_blank (name_lexeme x)" "\<not> is_eol (name_lexeme x)"
    "name_lexeme x \<noteq> Keyword w" "s \<noteq> ''_'' \<Longrightarrow> name_lexeme x \<noteq> Sym s"
  by (auto simp: name_lexeme_def starts_command_def starts_part_def)

lemma value_lexemes_start: "lexes v l \<Longrightarrow> l \<noteq> Bare [] \<Longrightarrow> part_ahead (value_lexemes l @ r)"
  by (cases v) (auto simp: starts_part_def neq_Nil_conv text_token_kind)

lemma value_lexemes_no_paren: "lexes v l \<Longrightarrow> \<not> sees [Sym ''(''] r \<Longrightarrow> \<not> sees [Sym ''(''] (value_lexemes l @ r)"
  by (cases v; cases l; cases "unquoted l") (auto simp: sees_simps text_token_kind)

definition line_end :: "lexeme list \<Rightarrow> bool" where
  "line_end ts \<longleftrightarrow> ts = [] \<or> (\<exists>ts'. ts = Eol_token [newline] # ts')"

lemma line_end_ahead:
  assumes "line_end ts"
  shows "\<not> part_ahead ts" "\<not> sees (Sym s # us) ts" "\<not> looking_at (is_blank # Ps) ts" "skip_blank ts = ts"
    "\<not> looking_at ((\<lambda>t. t = Sym s \<or> t \<in> Sym ` S) # Ps) ts"
  using assms by (auto simp: line_end_def starts_part_def sees_simps looking_at_simps skip_blank_def)

lemma parsed_definition:
  assumes "lexes_line a l" "line_end rest"
  shows "variable_definition_atom G (line_lexemes l @ rest) = Parsed (line_trees l) rest"
proof -
  obtain x k where l: "l = (x, k)" by (cases l)
  note kinds = name_lexeme_kinds[of x] line_end_ahead[OF assms(2)]
  have lex: "lexes (snd a) k" and x: "shell_name x" using assms(1) by (auto simp: lexes_line_def l)
  show ?thesis
  proof (cases "k = Bare []")
    case True
    then show ?thesis using kinds x
      by (auto simp: l line_lexemes_def line_trees_def variable_definition_atom_def parse_simps)
  next
    case False
    have "value_rule G (value_lexemes k @ rest) = Parsed (imaginary ''STRING'' (value_trees k)) rest"
      using string_expr_value[OF lex False kinds(7)] value_lexemes_no_paren[OF lex kinds(8)]
      by (simp add: value_rule_def either_def)
    then show ?thesis using kinds x value_lexemes_start[OF lex False, of rest] False
      by (auto simp: l line_lexemes_def line_trees_def variable_definition_atom_def parse_simps)
  qed
qed

lemma line_end_redirection:
  assumes "line_end ts"
  shows "\<not> redirection_ahead ts" "\<not> here_document_ahead ts" "\<not> looking_at [is_blank] ts"
    "\<not> looking_at [\<lambda>t. t = Sym ''&&'' \<or> t = Sym ''||''] (skip_blank ts)" "\<not> sees [Sym ''|''] (skip_blank ts)"
    "blank p ts = Syntax_error"
  using assms by (auto simp: line_end_def redirection_ahead_def redirection_syms_def here_document_ahead_def blank_def parse_simps)

lemma parsed_line:
  assumes "lexes_line a l" "line_end rest"
  shows "list_level_1 G (line_lexemes l @ rest) = Parsed (command_trees l) rest"
proof -
  obtain x k where l: "l = (x, k)" by (cases l)
  have x: "shell_name x" using assms(1) by (simp add: lexes_line_def l)
  let ?ts = "line_lexemes l @ rest"
  have ts: "?ts = name_lexeme x # Sym ''='' # (value_lexemes k @ rest)" by (simp add: l line_lexemes_def)
  note kinds = name_lexeme_kinds[OF x] line_end_redirection[OF assms(2)]
  have "variable_definitions G ?ts = Parsed (line_trees l) rest"
    using parsed_definition[OF assms, of G] kinds ts
    by (cases "length rest") (simp_all add: variable_definitions_def some_more_def repeating_def parse_simps)
  moreover have "\<not> starts_compound ?ts" "definition_ahead ?ts"
    "\<not> looking_at [(=) (Name_token ''function''), is_blank] ?ts"
    using kinds(1-6) unfolding ts by (auto simp: starts_compound_def is_test_def definition_ahead_def looking_at_simps)
  ultimately have "command_atom_rule G ?ts = Parsed (imaginary ''VARIABLE_DEFINITIONS'' (line_trees l)) rest"
    using kinds by (simp add: command_atom_rule_def parse_simps line_end_redirection(6)[OF assms(2)])
  then have "command_rule G ?ts = Parsed (command_trees l) rest"
    using kinds by (simp add: command_rule_def parse_simps command_trees_def)
  then have "piped G [] ?ts = Parsed (command_trees l) rest"
    using kinds by (cases "length rest") (simp_all add: piped_def repeating_def parse_simps command_trees_def imaginary_def)
  then have "pipeline G ?ts = Parsed (command_trees l) rest"
    using kinds kinds(5)[symmetric] unfolding ts by (simp add: pipeline_def time_rule_def parse_simps)
  then show ?thesis using kinds
    by (cases "length rest") (simp_all add: list_level_1_def repeating_def parse_simps)
qed

lemma line_end_more: "line_end (more_lexemes ls)"
  by (cases ls) (simp_all add: line_end_def more_lexemes_def)

lemma parsed_lines:
  assumes "list_all2 lexes_line as ls" "length (more_lexemes ls) \<le> n"
  shows "repeat_while n (\<lambda>ts. next_command ts \<noteq> None) (\<lambda>f ts. case next_command ts of
        Some (sep, ts') \<Rightarrow> get (list_level_1 G) (\<lambda>g. Parsed (f @ sep @ g)) ts' | None \<Rightarrow> Syntax_error) f (more_lexemes ls) =
    Parsed (f @ concat (map command_trees ls)) []"
  using assms
proof (induction as ls arbitrary: n f rule: list_all2_induct)
  case Nil
  then show ?case by (cases n) (simp_all add: more_lexemes_def next_command_def skip_blank_def)
next
  case (Cons a as l ls)
  obtain x k where l: "l = (x, k)" by (cases l)
  have x: "shell_name x" using Cons.hyps(1) by (simp add: lexes_line_def l)
  let ?ts = "line_lexemes l @ more_lexemes ls"
  have ts: "?ts = name_lexeme x # Sym ''='' # (value_lexemes k @ more_lexemes ls)" by (simp add: l line_lexemes_def)
  have more: "more_lexemes (l # ls) = Eol_token [newline] # ?ts" by (simp add: more_lexemes_def)
  have "next_command (Eol_token [newline] # ?ts) = Some ([], ?ts)"
    using name_lexeme_kinds(1-6)[OF x] unfolding ts
    by (simp add: next_command_def skip_blank_def skip_wspace_def looking_at_simps)
  moreover obtain m where "n = Suc m" "length (more_lexemes ls) \<le> m" using Cons.prems by (cases n) (auto simp: more)
  ultimately show ?case
    using Cons.IH[of m "f @ command_trees l"] parsed_line[OF Cons.hyps(1) line_end_more[of ls], of G]
    by (simp add: more get_def)
qed

lemma parsed_script:
  assumes "list_all2 lexes_line (a # as) (l # ls)"
  shows "start_rule G (line_lexemes l @ more_lexemes ls) = Parsed (imaginary ''LIST'' (concat (map command_trees (l # ls)))) []"
proof -
  have hyps: "lexes_line a l" "list_all2 lexes_line as ls" using assms by simp_all
  obtain x k where l: "l = (x, k)" by (cases l)
  have x: "shell_name x" using hyps(1) by (simp add: lexes_line_def l)
  let ?ts = "line_lexemes l @ more_lexemes ls"
  have ts: "?ts = name_lexeme x # Sym ''='' # (value_lexemes k @ more_lexemes ls)" by (simp add: l line_lexemes_def)
  have "list_level_2 G ?ts = Parsed (concat (map command_trees (l # ls))) []"
    using parsed_lines[OF hyps(2) order_refl] parsed_line[OF hyps(1) line_end_more[of ls], of G]
    by (simp add: list_level_2_def get_def repeating_def)
  then have "command_list_parser G ?ts = Parsed (imaginary ''LIST'' (concat (map command_trees (l # ls)))) []"
    by (simp add: command_list_parser_def get_def)
  moreover have "\<not> sees [Sym ''#''] ?ts" "dropWhile is_eol ?ts = ?ts" "skip_blank ?ts = ?ts" "skip_blank [] = []"
    using name_lexeme_kinds(1-6)[OF x] unfolding ts by (simp_all add: sees_simps skip_blank_def)
  ultimately show ?thesis
    by (simp add: start_rule_def first_line_comment_def get_def opt_blank_def either_def looking_at_simps at_end_def)
qed

end
