(* ===== verification/Assignment_Text.thy ===== *)
theory Assignment_Text
  imports Assignment_Tokens Script_Laws Libbash
begin

text \<open>
  Scripts of assignments, from the file to the variables that the caller of the library gets: what
  libbash is for, in its smallest form. Assignment_Tokens has the lexer and the parser; here follow the shape of
  the trees, the walker and the entry point.
\<close>

section \<open>What the walker takes the trees for\<close>

definition readings_at :: "nat \<Rightarrow> forest \<Rightarrow> command_reading list" where
  "readings_at i f = map command_reading_of (fst (place_all i f))"

lemma readings_Nil [simp]: "readings_at i [] = []"
  by (simp add: readings_at_def)

lemma readings_Cons: "\<exists>j. readings_at i (Tree n ts # f) = read_command_node i n (readings_at (i + 2) ts) # readings_at j f"
  by (rule exI[of _ "snd (place i (Tree n ts))"]) (simp add: readings_at_def split_beta)

lemma readings_of_node [simp]:
  "root_node (read_command_node i n rs) = n" "childless (read_command_node i n rs) \<longleftrightarrow> rs = []"
  "as_name (read_command_node i n rs) = name_node n rs" "as_string_part (read_command_node i n rs) = string_part_node n rs"
  "as_var_ref (read_command_node i n rs) = var_ref_node n rs"
  "as_arithmetic (read_command_node i n rs) = arithmetic_node n (primary_node n rs) rs"
  "as_substitution (read_command_node i n rs) = substitution_node n rs"
  "as_string_expr (read_command_node i n rs) = string_expr_node n rs" "as_array (read_command_node i n rs) = array_node n rs"
  "as_var_def (read_command_node i n rs) = var_def_node n rs" "as_redirect (read_command_node i n rs) = redirect_node n rs"
  "as_definition (read_command_node i n rs) = definition_node n rs"
  "as_logic (read_command_node i n rs) = logic_list_node n (command_node n rs) rs"
  "as_list (read_command_node i n rs) = list_node n rs"
  by (simp_all add: read_command_node_def reading.defs command_reading.defs read_node_def)

definition text_part_of :: "lexeme \<Rightarrow> (arith, var_expansion, string_expr) string_item" where
  "text_part_of t = Part (Text_part (Token (lexeme_text t)))"

primrec value_items :: "lexeme list quoted \<Rightarrow> (arith, var_expansion, string_expr) string_item list" where
  "value_items (Bare ts) = map text_part_of ts"
| "value_items (Double_quotes ts) = [Part (Double_quoted (map (\<lambda>t. Quoted_text (Token (lexeme_text t))) ts))]"
| "value_items (Single_quotes ts) = [Part (Single_quoted (lexeme_text (hd ts)))]"

definition line_def :: "string \<times> lexeme list quoted \<Rightarrow> var_def" where
  "line_def = (\<lambda>(x, l). Define (Plain_name x) (if l = Bare [] then None else Some (String (value_items l))))"

definition line_command :: "string \<times> lexeme list quoted \<Rightarrow> command" where
  "line_command l = Command [] (Variable_definitions False [line_def l])"

lemma leaf_simps: "Tree (Real t) [] = leaf t" "leaf t = Tree (Real t) []"
  by (simp_all add: leaf_def)

lemma text_token_of: "text_token t \<Longrightarrow> token_of t = Token (lexeme_text t)" "quoted_token t \<Longrightarrow> token_of t = Token (lexeme_text t)"
  by (cases t; simp)+

lemma bare_items:
  "list_all text_token ts \<Longrightarrow> length ts \<le> n \<Longrightarrow>
     whole_within n string_item_rule (readings_at i (map leaf ts)) = Some (map text_part_of ts)"
proof (induction ts arbitrary: n i)
  case Nil
  then show ?case by (cases n) simp_all
next
  case (Cons t ts)
  obtain j where j: "readings_at i (map leaf (t # ts)) = read_command_node i (Real t) [] # readings_at j (map leaf ts)"
    using readings_Cons[of i "Real t" "[]" "map leaf ts"] by (auto simp: leaf_def)
  obtain m where "n = Suc m" "length ts \<le> m" using Cons.prems by (cases n) auto
  with Cons show ?case unfolding j
    by (simp add: string_item_rule_def string_part_rule_def one_def string_part_node_def text_part_of_def text_token_of)
qed

lemma leaf_no_expression: "arithmetic_node (Real t) p [] \<noteq> Some (Arithmetic_expression e)"
  by (auto simp: arithmetic_node_def arithmetics_rule_def one_def only_def split: option.splits)

lemma quoted_items:
  "list_all quoted_token ts \<Longrightarrow>
     those (map quoted_part_tree (readings_at i (map leaf ts))) = Some (map (\<lambda>t. Quoted_text (Token (lexeme_text t))) ts)"
proof (induction ts arbitrary: i)
  case (Cons t ts)
  obtain j where j: "readings_at i (map leaf (t # ts)) = read_command_node i (Real t) [] # readings_at j (map leaf ts)"
    using readings_Cons[of i "Real t" "[]" "map leaf ts"] by (auto simp: leaf_def)
  have "quoted_part_tree (read_command_node i (Real t) []) = Some (Quoted_text (Token (lexeme_text t)))"
    using leaf_no_expression[of t "primary_node (Real t) ([] :: command_reading list)"] Cons.prems
    by (auto simp: quoted_part_tree_def var_ref_node_def substitution_node_def any_string_def text_token_of
        split: option.split arith.split)
  with Cons show ?case unfolding j by simp
qed simp

lemma length_readings: "length (readings_at i f) = length f"
proof -
  have "length (fst (place_all i f)) = length f" by (induction f arbitrary: i) (simp_all add: split_beta)
  then show ?thesis by (simp add: readings_at_def)
qed

lemma value_read:
  assumes "lexes v l"
  shows "whole string_item_rule (readings_at i (value_trees l)) = Some (value_items l)"
proof (cases v)
  case (Bare u)
  with assms obtain ts where "l = Bare ts" "list_all text_token ts" by auto
  then show ?thesis using bare_items[of ts "length ts" i] by (simp add: whole_def length_readings)
next
  case (Double_quotes u)
  with assms obtain ts where l: "l = Double_quotes ts" "list_all quoted_token ts" by auto
  obtain j where "readings_at i (value_trees l) =
      [read_command_node i (Imaginary ''DOUBLE_QUOTED_STRING'') (readings_at (i + 2) (map leaf ts))] @ readings_at j []"
    using readings_Cons[of i _ _ "[]"] by (auto simp: l imaginary_def)
  then show ?thesis using quoted_items[OF l(2)]
    by (simp add: whole_def string_item_rule_def string_part_rule_def one_def string_part_node_def l)
next
  case (Single_quotes u)
  let ?t = "Single_quoted_token (quote_char # u @ [quote_char])"
  have l: "l = Single_quotes [?t]" using assms Single_quotes by simp
  have "readings_at i (value_trees l) = [read_command_node i (Imaginary ''SINGLE_QUOTED_STRING'') [read_command_node (i + 2) (Real ?t) []]]"
    using readings_Cons[of i _ "[leaf ?t]" "[]"] readings_Cons[of "i + 2" "Real ?t" "[]" "[]"]
    by (auto simp: l imaginary_def leaf_def)
  then show ?thesis
    by (simp add: whole_def string_item_rule_def string_part_rule_def one_def only_def string_part_node_def single_quoted_tree_def l)
qed

lemma single_reading: "readings_at i [Tree n ts] = [read_command_node i n (readings_at (i + 2) ts)]"
  using readings_Cons[of i n ts "[]"] by auto

lemma definition_read:
  assumes "lexes_line a l"
  shows "map as_var_def (readings_at i (line_trees l)) = [Some (line_def l)]"
proof -
  obtain x k where l: "l = (x, k)" by (cases l)
  have x: "name_node (Real (name_lexeme x)) ([] :: command_reading list) = Some (Plain_name x)"
    using name_lexeme_kinds(1)[of x] assms by (simp add: name_node_def name_base_def name_lexeme_def lexes_line_def l)
  show ?thesis
  proof (cases "k = Bare []")
    case True
    with x show ?thesis
      by (simp add: l line_trees_def line_def_def equals_node_def single_reading leaf_def var_def_node_def is_equals_def)
  next
    case False
    let ?v = "imaginary ''STRING'' (value_trees k)"
    obtain j where "readings_at (i + 2) (leaf (name_lexeme x) # ?v) =
        read_command_node (i + 2) (Real (name_lexeme x)) [] # readings_at j ?v"
      using readings_Cons[of "i + 2" "Real (name_lexeme x)" "[]" ?v] by (auto simp: leaf_def)
    moreover have "whole string_item_rule (readings_at (j + 2) (value_trees k)) = Some (value_items k)"
      using value_read[of "snd a" k] assms by (simp add: lexes_line_def l)
    ultimately show ?thesis using False x
      by (simp add: l line_trees_def line_def_def equals_node_def single_reading var_def_node_def is_equals_def
          array_node_def if_root_def string_expr_node_def imaginary_def)
  qed
qed

lemma command_read:
  assumes "lexes_line a l"
  shows "map as_logic (readings_at i (command_trees l)) = [Some (Single (line_command l))]"
proof -
  let ?defs = "readings_at (Suc (Suc (Suc (Suc i)))) (line_trees l)"
  have "?defs \<noteq> []" "\<not> is_token (Imaginary ''LOCAL'') (hd ?defs)"
    by (auto simp: line_trees_def equals_node_def single_reading is_token_def split: prod.split)
  then have "definition_node (Imaginary ''VARIABLE_DEFINITIONS'') ?defs = Some (Variable_definitions False [line_def l])"
    using definition_read[OF assms] by (simp add: definition_node_def)
  then show ?thesis
    by (simp add: command_trees_def imaginary_def single_reading logic_list_node_def command_node_def if_root_def
        redirect_node_def command_atom_tree_def one_def only_def line_command_def)
qed

lemma commands_read:
  "list_all2 lexes_line as ls \<Longrightarrow>
     map as_logic (readings_at i (concat (map command_trees ls))) = map (\<lambda>l. Some (Single (line_command l))) ls"
proof (induction as ls arbitrary: i rule: list_all2_induct)
  case (Cons a as l ls)
  obtain n ts where "command_trees l = [Tree n ts]" by (simp add: command_trees_def imaginary_def)
  moreover from this obtain j where "readings_at i (Tree n ts # concat (map command_trees ls)) =
      read_command_node i n (readings_at (i + 2) ts) # readings_at j (concat (map command_trees ls))"
    using readings_Cons by blast
  ultimately show ?case using Cons.IH[of j] command_read[OF Cons.hyps(1), of i] by (simp add: single_reading)
qed simp

lemma those_all: "those (map (\<lambda>x. Some (f x)) xs) = Some (map f xs)"
  by (induction xs) simp_all

lemma script_read:
  assumes "list_all2 lexes_line (a # as) (l # ls)"
  shows "script_tree (imaginary ''LIST'' (concat (map command_trees (l # ls)))) =
    Some (map (\<lambda>l. Single (line_command l)) (l # ls))"
proof -
  obtain rs where rs: "rs = readings_at (Suc (Suc 0)) (command_trees l @ concat (map command_trees ls))" by simp
  then have logic: "map as_logic rs = map (\<lambda>l. Some (Single (line_command l))) (l # ls)"
    using commands_read[OF assms] by simp
  then have "rs \<noteq> []" by auto
  then have "list_node (Imaginary ''LIST'') rs = Some (map (\<lambda>l. Single (line_command l)) (l # ls))"
    unfolding list_node_def if_root_def logic those_all by simp
  then show ?thesis
    unfolding script_tree_def readings_at_def[symmetric] imaginary_def single_reading
    by (simp add: one_def only_def rs[symmetric])
qed

lemma parse_assignments:
  assumes "list_all assignment_ok (a # as)"
  shows "\<exists>ls. list_all2 lexes_line (a # as) ls \<and>
    parse_text n Parser_start (assignment_text a @ more_lines as) = Inr (Script (map (\<lambda>l. Single (line_command l)) ls), 0)"
proof -
  from tokenize_script[OF assms] obtain l ls where ls: "list_all2 lexes_line (a # as) (l # ls)"
    "tokenize False (assignment_text a @ more_lines as) = Some (line_lexemes l @ more_lexemes ls)" by blast
  then show ?thesis using parsed_script[OF ls(1), of "grammar n"] script_read[OF ls(1)]
    by (intro exI[of _ "l # ls"]) (simp add: parse_text_def parse_tokens_def)
qed

section \<open>Running the assignments\<close>

lemma bare_walked:
  "walk_string_items B W (map (map_string_item f g h) (map text_part_of ts)) (base, q, True) =
     ret (map (\<lambda>b. b @ concat (map lexeme_text ts)) base, if ts = [] then q else False, True)"
proof (induction ts arbitrary: base q)
  case (Cons t ts)
  from Cons[of "map (\<lambda>b. b @ lexeme_text t) base" False] show ?case
    by (simp add: fun_eq_iff text_part_of_def whole_text_def comp_def)
qed (simp add: fun_eq_iff)

lemma quoted_walked:
  "map_act (walk_quoted_part B W) (map (map_quoted_part f g) (map (\<lambda>t. Quoted_text (Token (lexeme_text t))) ts)) =
     ret (map lexeme_text ts)"
  by (induction ts) (simp_all add: fun_eq_iff whole_text_def)

lemma single_quotes_off: "get_single_quoted_string (quote_char # u @ [quote_char]) = u"
  by (simp add: get_single_quoted_string_def)

lemma value_walked:
  assumes "lexes v l" "join_documented (boost_lib L)"
  shows "word_text L W (String (value_items l)) = ret (unquoted v)"
proof -
  have join: "joined_word (boost_lib L) ([s], q, True) = Inr (s, q)" for s q
    using assms(2) by (simp add: joined_word_def join_documented_def)
  show ?thesis using assms(1)
    by (cases v) (auto simp: fun_eq_iff word_text_def bare_walked quoted_walked join from_res_def andthen_def
        single_quotes_off simp del: map_map)
qed

definition text_variable :: "variable option \<Rightarrow> string \<Rightarrow> bool" where
  \<comment> \<open>unset, or a scalar that can be assigned\<close>
  "text_variable v x \<longleftrightarrow> v = None \<or> (\<exists>u. v = Some (new_variable x (Str u) False 0))"

lemma assign_text:
  assumes "local_members st = []" "text_variable (members st x) x"
  shows "set_value x (Str u) 0 st = (Inr (Str u), define_var x (Str u) False 0 st)"
  using assms
  by (auto simp: text_variable_def set_value_def resolve_variable_def var_set_value_def new_variable_def
      assign_variable_def define_var_def)

lemma line_walked:
  assumes "lexes_line a l" "join_documented (boost_lib L)" "local_members st = []" "text_variable (members st (fst a)) (fst a)"
  shows "walk_command n L W (line_command l) st = (Inr (), define_var (fst a) (Str (unquoted (snd a))) False 0 st)"
proof -
  obtain x k where l: "l = (x, k)" by (cases l)
  have a: "fst a = x" "lexes (snd a) k" using assms(1) by (simp_all add: lexes_line_def l)
  have "k = Bare [] \<Longrightarrow> unquoted (snd a) = []" using a(2) by (cases "snd a") auto
  then have "walk_var_def L W False (line_def l) st = (Inr (), define_var x (Str (unquoted (snd a))) False 0 st)"
    using assign_text[OF assms(3), of x] assms(4) value_walked[OF a(2) assms(2), of W]
    by (auto simp: l line_def_def name_rule_def andthen_def a(1))
  then show ?thesis
    by (simp add: line_command_def with_streams_def andthen_def a(1) restore_streams) (simp add: stream_defs define_var_def)
qed

definition assigned_to :: "(string \<times> string quoted) list \<Rightarrow> string \<Rightarrow> string option" where
  \<comment> \<open>the value of the last assignment to a name\<close>
  "assigned_to as x = map_of (rev (map (\<lambda>(x, v). (x, unquoted v)) as)) x"

lemma lines_walked:
  assumes "list_all2 lexes_line as ls" "join_documented (boost_lib L)" "local_members st = []"
    and "\<And>x. shell_name x \<Longrightarrow> text_variable (members st x) x"
  shows "\<exists>m. for_each ls (\<lambda>l. walk_command n L W (line_command l)) st = (Inr (), st\<lparr>members := m\<rparr>) \<and>
    (\<forall>x. m x = (case assigned_to as x of
        Some v \<Rightarrow> Some (new_variable x (Str v) False 0) | None \<Rightarrow> members st x))"
  using assms(1,3,4)
proof (induction as ls arbitrary: st rule: list_all2_induct)
  case Nil
  then show ?case by (intro exI[of _ "members st"]) (simp add: assigned_to_def)
next
  case (Cons a as l ls)
  obtain x v where a: "a = (x, v)" by (cases a)
  have x: "shell_name x" using Cons.hyps(1) by (simp add: lexes_line_def a)
  let ?s = "define_var x (Str (unquoted v)) False 0 st"
  have "text_variable (members ?s y) y" if "shell_name y" for y
    using Cons.prems(2)[OF that] by (auto simp: define_var_def text_variable_def)
  moreover have "local_members ?s = []" using Cons.prems(1) by (simp add: define_var_def)
  ultimately obtain m where m: "for_each ls (\<lambda>l. walk_command n L W (line_command l)) ?s = (Inr (), ?s\<lparr>members := m\<rparr>)"
    "\<forall>y. m y = (case assigned_to as y of Some v \<Rightarrow> Some (new_variable y (Str v) False 0) | None \<Rightarrow> members ?s y)"
    using Cons.IH[of ?s] by blast
  have "walk_command n L W (line_command l) st = (Inr (), ?s)"
    using line_walked[OF Cons.hyps(1) assms(2) Cons.prems(1)] Cons.prems(2)[OF x] by (simp add: a)
  then have "for_each (l # ls) (\<lambda>l. walk_command n L W (line_command l)) st = (Inr (), st\<lparr>members := m\<rparr>)"
    using m(1) by (simp add: andthen_def define_var_def)
  moreover have "m y = (case assigned_to (a # as) y of
      Some v \<Rightarrow> Some (new_variable y (Str v) False 0) | None \<Rightarrow> members st y)" for y
    using m(2) by (auto simp: assigned_to_def a define_var_def map_add_def split: option.split)
  ultimately show ?case by blast
qed

lemma final_global_text: "shell_name x \<Longrightarrow> text_variable (final_global variables path x) x"
  by (auto simp: final_global_def text_variable_def shell_name_def is_digit_def is_word_char_def letter_char_def
      new_interpreter_def Let_def define_var_def split: option.split)

definition script_of :: "(string \<times> string quoted) list \<Rightarrow> string" where
  \<comment> \<open>a line for each assignment\<close>
  "script_of as = drop 1 (more_lines as)"

lemma file_text_of_walker: "file_text (walker L P files n) = files"
  by (induction n) (simp_all add: walker_step_def)

abbreviation script_ast :: "(string \<times> lexeme list quoted) list \<Rightarrow> ast" where
  "script_ast ls \<equiv> Script (map (\<lambda>l. Single (line_command l)) ls)"

lemma script_parsed:
  assumes "list_all assignment_ok as" "as \<noteq> []"
  shows "\<exists>ls. list_all2 lexes_line as ls \<and> parse_text k Parser_start (script_of as) = Inr (script_ast ls, 0)"
proof -
  obtain a as' where as: "as = a # as'" using assms(2) by (cases as) auto
  then have "script_of as = assignment_text a @ more_lines as'" by (simp add: script_of_def more_lines_def)
  with parse_assignments[of a as' k] assms(1) show ?thesis by (simp add: as)
qed

lemma script_run:
  assumes "list_all2 lexes_line as ls" "join_documented (boost_lib L)" "local_members st = []"
    and "\<And>x. shell_name x \<Longrightarrow> text_variable (members st x) x"
  shows "\<exists>m. interpret_with (walker_start (walker L P files (Suc n))) (script_ast ls) st = (Inr (), st\<lparr>members := m\<rparr>) \<and>
    (\<forall>x. m x = (case assigned_to as x of
        Some v \<Rightarrow> Some (new_variable x (Str v) False 0) | None \<Rightarrow> members st x))"
proof -
  let ?W = "walker L P files n" and ?s = "push_current_ast (script_ast ls) st"
  have same: "members ?s = members st" "local_members ?s = []" using assms(3) by (simp_all add: push_current_ast_def)
  obtain m where m: "for_each ls (\<lambda>l. walk_command n L ?W (line_command l)) ?s = (Inr (), ?s\<lparr>members := m\<rparr>)"
    "\<forall>x. m x = (case assigned_to as x of
        Some v \<Rightarrow> Some (new_variable x (Str v) False 0) | None \<Rightarrow> members st x)"
    using lines_walked[OF assms(1,2) same(2), of n ?W] assms(4) unfolding same(1) by blast
  have "walker_start (walker L P files (Suc n)) (script_ast ls) ?s = for_each ls (\<lambda>l. walk_command n L ?W (line_command l)) ?s"
    by (simp add: walker_step_def walk_start_def command_list_rule_def walk_list_def comp_def for_each_map)
  then have "interpret_with (walker_start (walker L P files (Suc n))) (script_ast ls) st = (Inr (), st\<lparr>members := m\<rparr>)"
    using m(1) by (simp add: interpret_with_def push_current_ast_def pop_current_ast_def)
  with m(2) show ?thesis by blast
qed

section \<open>The library on a file of assignments\<close>

text \<open>C2 (roundtrip): a file of assignments, one to a line, is read back: \<open>libbash::interpret\<close> returns the status 0,
  no functions, and for each assigned name the text of its last value without the quotes; every other variable is
  as it was given, with \<open>IFS\<close>, \<open>$-\<close> and \<open>$0\<close>. A value is bare, of the characters of words and \<open>-+.:/,@%^~=\<close>; or
  between double quotes, any text without a quote, dollar sign, backquote, backslash or opening brace, line ends
  and \<open>#\<close> included; or between single quotes, any text without one. This goes through the lexer, the parser, the
  tree grammar, the walker and the entry point, with any bound on the nesting.\<close>

theorem assignments_read_back:
  assumes "list_all assignment_ok as" "as \<noteq> []" "\<And>e. e \<in> set variables \<Longrightarrow> snd e \<noteq> []"
    and "files path = Some source" "read_script (boost_lib L) source True = script_of as"
    and "length (script_of as) < 2 ^ 32" "join_documented (boost_lib L)"
  shows "fst (libbash_interpret (boost_lib L) (walker L (parse_text k) files (Suc n)) process path variables) =
    Inr \<lparr>exit_status = 0,
      result_variables = (\<lambda>x. case assigned_to as x of
          Some v \<Rightarrow> Some [v]
        | None \<Rightarrow> map_option (\<lambda>v. get_all_values (boost_lib L) v []) (final_global variables path x)),
      result_functions = []\<rparr>"
proof -
  let ?W = "walker L (parse_text k) files (Suc n)"
  obtain ls where ls: "list_all2 lexes_line as ls" "parse_text k Parser_start (script_of as) = Inr (script_ast ls, 0)"
    using script_parsed[OF assms(1,2)] by blast
  then have "ast_of_file (boost_lib L) ?W path Parser_start True = Inr (script_ast ls)"
    using assms(4-6) by (simp add: ast_of_file_def init_parser_def parser_of_walker file_text_of_walker del: walker.simps)
  from started_interpreter[of variables, OF assms(3) this, of process] obtain s where
    s: "members s = final_global variables path" "local_members s = []" "status s = 0" "function_table s = []"
      "libbash_interpret (boost_lib L) ?W process path variables =
         andthen (interpret_with (walker_start ?W) (script_ast ls)) (\<lambda>_. collect (boost_lib L)) s" by blast
  from script_run[OF ls(1) assms(7) s(2)] final_global_text obtain m where
    "interpret_with (walker_start ?W) (script_ast ls) s = (Inr (), s\<lparr>members := m\<rparr>)"
    "\<forall>x. m x = (case assigned_to as x of
        Some v \<Rightarrow> Some (new_variable x (Str v) False 0) | None \<Rightarrow> final_global variables path x)"
    unfolding s(1) by blast
  with s show ?thesis
    by (auto simp: andthen_def collect_def values_of_new get_all_function_names_def fun_eq_iff split: option.split)
qed

lemma read_script_ref: "read_script boost_ref s True = dropWhile (\<lambda>c. c \<in> set [CHR '' '', CHR 0x09, newline])
    (trim_right_ref [CHR '' '', CHR 0x09, newline] (erase_all_ref [CHR 0x5C, newline] s))"
  by (simp add: read_script_def boost_ref_def)

theorem assignments_read_back_witness:
  "\<exists>r. fst (libbash_interpret boost_ref (walker libraries_ref (parse_text 0)
        (\<lambda>path. Some (''A=1'' @ newline # ''B='' @ dquote_char # ''two # words'' @ dquote_char # newline # ''A=x-1'' @ [newline])) 1)
      \<lparr>ast_cache = Map.empty, null_builtins = []\<rparr> ''/f'' [(''C'', [''c''])]) = Inr r \<and>
     result_variables r ''A'' = Some [''x-1''] \<and> result_variables r ''B'' = Some [''two # words''] \<and>
     result_variables r ''C'' = Some [''c''] \<and> result_variables r ''D'' = None"
proof -
  let ?as = "[(''A'', Bare ''1''), (''B'', Double_quotes ''two # words''), (''A'', Bare ''x-1'')]"
  let ?source = "''A=1'' @ newline # ''B='' @ dquote_char # ''two # words'' @ dquote_char # newline # ''A=x-1'' @ [newline]"
  have ok: "list_all assignment_ok ?as" by code_simp
  have read: "read_script boost_ref ?source True = script_of ?as"
    unfolding read_script_ref
    by (simp add: trim_right_ref_def newline_def script_of_def more_lines_def assignment_text_def)
  have short: "length (script_of ?as) < 2 ^ 32" by (simp add: script_of_def more_lines_def assignment_text_def)
  from assignments_read_back[of ?as "[(''C'', [''c''])]" "\<lambda>path. Some ?source" "''/f''" ?source libraries_ref 0 0
      "\<lparr>ast_cache = Map.empty, null_builtins = []\<rparr>"] ok read short boost_ref_join
  show ?thesis
    by (simp add: assigned_to_def final_global_def values_of_new new_interpreter_def Let_def define_var_def)
qed

end
