(* ===== verification/Spec2Isabelle.thy ===== *)
theory Spec2Isabelle
  imports Builtins_Laws Builtin_Table Parameters Expansion Condition Metadata Libbash Tree_Stream
    Walker_Laws Arithmetic_Laws Word_Laws Control_Laws Script_Laws Tools_Laws
    Lexer_Laws Arith_Text_Laws Grammar_Laws Assignment_Text
begin

text \<open>
  libbash: a library that runs bash scripts within the calling process, used to read the variables and
  functions of the ebuilds of Gentoo and to write their metadata cache. This development models
  the lexer, the parser, the interpreter, its builtins, the library's entry points, the metadata
  writer and the programs around it, and proves what makes them correct. A property is a theorem
  after a text block that begins with its number (C1, C2 and so on).

  \<^bold>\<open>The program.\<close> A script is parsed by an ANTLR lexer and parser (src/bashast/bashast.g) into a
  tree held by a \<open>bash_ast\<close> (src/core/bash_ast.cpp). The tree grammar src/bashast/libbashWalker.g
  walks the nodes of that tree and runs the script: its actions call the class \<open>interpreter\<close>
  (src/core/interpreter.h and interpreter.cpp), which keeps the variables (src/core/symbols.hpp), the
  functions, the options, the local scopes, the three current streams and the exit status. A command is a
  function of the script, whose body is a place in the tree it came from, or a builtin
  (src/cppbash_builtin.cpp and src/builtins). Several parts start the walker again on other text:
  \<open>eval\<close>, \<open>source\<close>, command substitution, the body of a function, a variable used in arithmetic.
  src/libbash.cpp runs a script in a new interpreter and hands out what it defined; src/utils has the programs.

  \<^bold>\<open>The style.\<close> A C++ function that changes an object is an action of type \<open>('s, 'r) act\<close>: from
  a state to a result and the new state. The result is a value or an exception (\<open>exn\<close>), and the state is
  there in both cases, since a thrown exception leaves what was done before it. Objects that
  undo something in their destructor are \<open>finally_do\<close>. Where C++ gives no meaning to an operation
  the result is \<open>Undefined_behaviour\<close>. \<open>unsigned\<close> is \<open>32 word\<close> and \<open>long\<close> is \<open>64 word\<close>; signed
  overflow is checked on the integers. The state of the interpreter is the record \<open>interp\<close>, its
  type parameter the type of the syntax trees.

  \<^bold>\<open>Theories and sources.\<close>
  \<^item> Prelude: exceptions, actions, the record of string services of Boost. Std_Map: \<open>std::map\<close> as the ordered
    list of its entries and \<open>std::unordered_map\<close> as a function, with the locales of their laws.
  \<^item> Symbols: src/core/symbols.hpp. Interp_State, Interpreter and Expansion:
    src/core/interpreter.h, interpreter.cpp and function.cpp, in that order the state with its lookup, the operations that
    change it, and the parameter expansions. Interpreter_Laws, Scoping and Parameters: their lemmas and properties.
  \<^item> Bash_Ast: src/core/bash_ast.h and bash_ast.cpp. Condition: src/core/bash_condition.cpp.
    Escapes: \<open>transform_escapes\<close> of src/cppbash_builtin.cpp.
  \<^item> Builtins, Builtin_Read, Builtins_Source: the classes of src/builtins, one function
    \<open>..._exec\<close> each, and the table of src/cppbash_builtin.cpp. Builtins_Laws and Builtin_Table: their properties.
  \<^item> Lexer: the lexer rules of bashast.g, from a text to tokens. Parsing: the combinators for its parser rules.
    Word_Grammar, Arith_Grammar and Command_Grammar: the parser rules, one function for each under the name of
    the rule (with \<open>rule\<close> behind it where the name was taken), from tokens to trees.
  \<^item> Tree_Rules and Tree_Commands: which trees of the parser each rule of libbashWalker.g accepts, and as which
    tree of Syntax and Command_Syntax. Script_Text: these put together, from the text of a script to the tree that the walker
    runs; \<open>parse_text n\<close> can stand for the parameter \<open>P\<close>.
  \<^item> Lexer_Laws, Grammar_Laws, Arith_Text and Arith_Text_Laws: lemmas and properties of the lexer, of every parser rule, and of
    arithmetic texts from their spelling to their value. Assignment_Tokens and Assignment_Text: scripts of assignments.
  \<^item> Syntax and Command_Syntax: the trees that the rules of libbashWalker.g accept, one datatype for a rule and
    one constructor for an alternative. Arithmetic, Regex, Word_Walker and Command_Walker: the rules,
    one function each under the name of the rule with \<open>walk\<close> before it where a name was taken, and the operators and
    patterns they use. Walker: the rules closed over the scripts that a script runs.
    Tree_Stream: the helpers that skip a subtree in the sequence of nodes.
  \<^item> Libbash: src/libbash.cpp. Metadata: src/utils/metadata.cpp. Tools: src/utils/bash.cpp,
    variable_printer.cpp, metadata_generator.cpp and instruo.cpp. Ast_Printer: src/utils/ast_printer.cpp.
  \<^item> Step_Relation and Walker_Relation: the lemmas about everything that a builtin or a rule of the walker can do.
    Walker_Laws, Arithmetic_Laws, Word_Laws, Control_Laws, Script_Laws and Tools_Laws: the properties of the walker,
    of whole scripts and of the programs.
  \<^item> Boost_Reference, Antlr_Reference, Walker_Reference: concrete instances of the parameters, at which
    the properties that assume something of them are applied. They model no code.

  \<^bold>\<open>What the lemmas show.\<close>
  \<^item> The locale \<open>step_relation\<close> (extending \<open>preorder_relation\<close>, extended by \<open>walker_relation\<close> and
    \<open>script_relation\<close>) takes a relation between two states that holds across each primitive operation of
    the interpreter and proves that it holds across every builtin, every rule and every script. It is
    interpreted for the invariant \<open>interp_ok\<close> (C1) and for the balance of streams, local scopes and
    syntax trees (C3). The same induction shows that the walker with more fuel simulates the
    walker with less, from which C21 follows.
  \<^item> The state: the symbol table as a step relation with its reachable states (C12), readonly variables (C13),
    assignment, unset, local scopes, positional parameters and \<open>shift\<close> against the abstract
    view of a name as a stack of bindings, the function table.
  \<^item> The walker: arithmetic against the integers (C6, C22, subscripts C25), brace expansion against the
    Cartesian product (C7), shell patterns against their languages (C8), \<open>case\<close>, \<open>if\<close> and
    \<open>break\<close> through nested loops (C9, C20, C5), a loop against the iteration of its body and its termination
    (C10, C26), the skipping of subtrees (C40).
  \<^item> Through the layers: the definition of a function and its call (C4), the text of a command
    substitution (C11), \<open>source\<close> with its \<open>$0\<close> and its cache, the library's entry point (C30). A file of assignments
    from its text to the variables that the caller gets, through all layers (C2).
  \<^item> The parser: the tokens of a text and the comments between them are the text cut in pieces (C34). Grammar_Laws has one
    lemma per parser rule: the tokens it leaves are never more than it was given, and it refines the same rule under a
    larger bound on the nesting; so parsing ends, and the bound never decides how (C24). The text of an arithmetic
    expression has the value of the expression on the integers (C23); which of the parser's trees of
    expressions the walker accepts (C35); an operator without its right operand is an error (C36).
  \<^item> Text: escapes, word splitting, substring expansion, \<open>read\<close>, \<open>echo\<close>, \<open>printf\<close>, the entries of the metadata
    cache, the token maps of the tree printer.

  \<^bold>\<open>Parameters.\<close> \<open>B\<close> (record \<open>boost\<close>) holds the string functions and casts of Boost, \<open>F\<close> those of
  \<open>boost::format\<close>, the record \<open>xpressive\<close> those of Boost.Xpressive; \<open>L\<close> (record \<open>libraries\<close>) bundles
  them with the system calls of conditions (\<open>OS\<close>), the directory of the eclasses and the conversion \<open>toInt32\<close>
  of ANTLR. \<open>W\<close> (record \<open>antlr\<close>) is the generated parser and the walker as the interpreter calls it; the theory Walker
  builds the walker part of it from the rules, so that only the parser \<open>P\<close>, which Script_Text defines as
  \<open>parse_text\<close>, and the content of the \<open>files\<close> stay parameters. Most properties of the walker hold for
  every \<open>P\<close>. A property that needs a documented behaviour of a library names it as a hypothesis
  (\<open>regex_documented\<close> and the predicates after the record \<open>boost\<close>).

  \<^bold>\<open>Fuel.\<close> A script need not end, so \<open>walker L P files n\<close> has a bound: scripts within scripts nest at most
  \<open>n\<close> deep, and a \<open>while\<close>, \<open>until\<close> or arithmetic \<open>for\<close> loop at level \<open>k\<close> runs fewer than \<open>k\<close> rounds; beyond the bound the
  result is \<open>Out_of_fuel\<close>, which no handler catches. C21 shows that any other result is the same
  with every larger bound. C26 gives a bound that is enough for a loop with a measure, and C10 shows that some
  bound is enough exactly when the iteration ends. The parser rules of
  \<open>parse_text n\<close> nest at most \<open>n\<close> deep; C24 shows that twice the number of tokens is enough. All other recursions of the
  model are total.

  \<^bold>\<open>Not modelled.\<close>
  \<^item> What the lexer does at a character that no token begins with (it reports it and goes on): here the result is
    \<open>outside_model\<close>. Where the generated parser looks ahead to choose an alternative, the model has the test of
    the tokens ahead written out by hand; for each of the 444 cases of src/bashast/gunit the model gives the tree
    or the failure that is stated there. Here documents are parsed, but the walker has no rule for their trees.
  \<^item> What the error recovery of ANTLR does with a tree that the rule it is given to does not accept: here the result is
    \<open>Undefined_behaviour\<close>, and \<open>parse_text\<close> rejects a script with such a tree as a whole, while the program
    runs what stands before it. The alternative of \<open>case_clause\<close> that is a pattern node without children.
  \<^item> Object lifetimes: a function defined by \<open>eval\<close> refers to a \<open>bash_ast\<close> that is gone when the function is
    called; in the model the tree is part of the function. Streams that are never deleted.
  \<^item> The position in the node stream while commands run: \<open>SEEK\<close> is in the model the choice of the
    subtree to run. Tree_Stream shows for the skipping helpers that they land behind the subtree.
  \<^item> Files: a file that a script writes is a stream with its text and is not read back by the script; failures to create
    a directory or to write.
  \<^item> Threads: the walker's thread-local pointer, the mutex of \<open>source\<close> and the OpenMP loop of instruo, whose
    tasks run in order here.
  \<^item> Option parsing (src/utils/command_line.cpp and the calls of Paludis and Boost.Program_options): the programs
    start from the parsed options. The packages and their versions come from Paludis.
  \<^item> The renderings of a tree by ANTLR (dot graph, string tree), the diagnostic of a failed cast on the
    standard error stream, running out of memory, the tests.
\<close>

end
